(* ===== verification/Sesamo_Prelude.thy ===== *)
theory Sesamo_Prelude
  imports Complex_Main "HOL-Library.Word" "HOL-Library.Sublist"
begin

text \<open>
  Shared vocabulary of the development: byte strings, Go's instants and durations, the
  SQL statements of the program as operations on lists of rows, and two interfaces used
  by every component with state.

  \<^item> Text (\<open>string\<close> in Go and \<open>TEXT\<close> in Postgres) is a HOL \<open>string\<close>, one \<open>char\<close>
    per byte. Byte slices are lists of 8-bit words.
  \<^item> An instant (\<open>time.Time\<close>, \<open>TIMESTAMPTZ\<close>) is an integer count of nanoseconds since the
    Unix epoch. A \<open>time.Duration\<close> is a signed 64-bit count of nanoseconds: arithmetic that
    the code performs on durations wraps (\<open>wrap64\<close>), and \<open>Time.Sub\<close> saturates (\<open>sat64\<close>).
  \<^item> A table is the list of its rows in insertion order, so that \<open>RETURNING\<close>, \<open>LIMIT\<close>
    and \<open>RowsAffected\<close> are computable.
\<close>

type_synonym byte = "8 word"
type_synonym bytes = "8 word list"
type_synonym gotime = int
type_synonym duration = int

named_theorems sql_defs "definitions of the SQL statement forms"
named_theorems row_defs "row updates of the program's statements"

subsection \<open>Instants and durations\<close>

definition wrap64 :: "int \<Rightarrow> int" where
  "wrap64 x = (x + 2 ^ 63) mod 2 ^ 64 - 2 ^ 63"

definition sat64 :: "int \<Rightarrow> int" where
  "sat64 x = max (- (2 ^ 63)) (min (2 ^ 63 - 1) x)"

definition time_add :: "gotime \<Rightarrow> duration \<Rightarrow> gotime" where
  "time_add t d = t + d"

definition time_sub :: "gotime \<Rightarrow> gotime \<Rightarrow> duration" where
  "time_sub a b = sat64 (a - b)"

definition After :: "gotime \<Rightarrow> gotime \<Rightarrow> bool" where
  "After a b \<longleftrightarrow> b < a"

text \<open>The zero \<open>time.Time\<close>: 1 January of year 1, UTC.\<close>

definition zero_time :: gotime where
  "zero_time = - 62135596800 * 1000000000"

definition Second :: duration where "Second = 1000000000"
definition Minute :: duration where "Minute = 60 * 1000000000"
definition Hour :: duration where "Hour = 3600 * 1000000000"

text \<open>Whole seconds of the Unix epoch (\<open>Time.Unix\<close>): rounds towards minus infinity.\<close>

definition Unix :: "gotime \<Rightarrow> int" where
  "Unix t = t div 1000000000"

subsection \<open>SQL statements on lists of rows\<close>

definition sql_update :: "('r \<Rightarrow> bool) \<Rightarrow> ('r \<Rightarrow> 'r) \<Rightarrow> 'r list \<Rightarrow> 'r list" where
  [sql_defs]: "sql_update p f rs = map (\<lambda>r. if p r then f r else r) rs"

definition sql_delete :: "('r \<Rightarrow> bool) \<Rightarrow> 'r list \<Rightarrow> 'r list" where
  [sql_defs]: "sql_delete p rs = filter (\<lambda>r. \<not> p r) rs"

definition sql_insert :: "'r \<Rightarrow> 'r list \<Rightarrow> 'r list" where
  [sql_defs]: "sql_insert r rs = rs @ [r]"

definition sql_row :: "('r \<Rightarrow> bool) \<Rightarrow> 'r list \<Rightarrow> 'r option" where
  [sql_defs]: "sql_row p rs = find p rs"

definition rows_affected :: "('r \<Rightarrow> bool) \<Rightarrow> 'r list \<Rightarrow> nat" where
  [sql_defs]: "rows_affected p rs = length (filter p rs)"

text \<open>A \<open>UNIQUE\<close> column (or primary key): no stored row has this key.\<close>

definition key_free :: "('r \<Rightarrow> 'k) \<Rightarrow> 'k \<Rightarrow> 'r list \<Rightarrow> bool" where
  [sql_defs]: "key_free key k rs \<longleftrightarrow> list_all (\<lambda>r. key r \<noteq> k) rs"

definition unique_on :: "('r \<Rightarrow> 'k) \<Rightarrow> 'r list \<Rightarrow> bool" where
  "unique_on key rs \<longleftrightarrow> distinct (map key rs)"

subsection \<open>Facts about instants and durations\<close>

lemma wrap64_range: "- (2 ^ 63) \<le> wrap64 x \<and> wrap64 x < 2 ^ 63"
  by (simp add: wrap64_def)

lemma wrap64_id: "- (2 ^ 63) \<le> x \<Longrightarrow> x < 2 ^ 63 \<Longrightarrow> wrap64 x = x"
  by (simp add: wrap64_def)

lemma sat64_id: "- (2 ^ 63) \<le> x \<Longrightarrow> x < 2 ^ 63 \<Longrightarrow> sat64 x = x"
  by (simp add: sat64_def)

lemma sat64_nonneg_iff [simp]: "0 \<le> sat64 x \<longleftrightarrow> 0 \<le> x"
  by (simp add: sat64_def max_def min_def)

lemma sat64_mono: "x \<le> y \<Longrightarrow> sat64 x \<le> sat64 y"
  by (simp add: sat64_def max_def min_def)

subsection \<open>Facts about the statement forms\<close>

lemma length_sql_update [simp]: "length (sql_update p f rs) = length rs"
  by (simp add: sql_update_def)

lemma set_sql_update: "set (sql_update p f rs) = (\<lambda>r. if p r then f r else r) ` set rs"
  by (simp add: sql_update_def)

lemma set_sql_delete [simp]: "set (sql_delete p rs) = {r \<in> set rs. \<not> p r}"
  by (simp add: sql_delete_def)

lemma set_sql_insert [simp]: "set (sql_insert r rs) = insert r (set rs)"
  by (auto simp: sql_insert_def)

lemma sql_update_none: "(\<And>r. r \<in> set rs \<Longrightarrow> \<not> p r) \<Longrightarrow> sql_update p f rs = rs"
  by (simp add: sql_update_def map_idI)

lemma sql_row_SomeD: "sql_row p rs = Some r \<Longrightarrow> r \<in> set rs \<and> p r"
  by (auto simp: sql_row_def find_Some_iff)

lemma sql_row_None_iff: "sql_row p rs = None \<longleftrightarrow> (\<forall>r \<in> set rs. \<not> p r)"
  by (auto simp: sql_row_def find_None_iff)

lemma sql_row_append:
  "sql_row p (rs @ ss) = (case sql_row p rs of None \<Rightarrow> sql_row p ss | Some r \<Rightarrow> Some r)"
  by (induction rs) (auto simp: sql_row_def)

lemma sql_row_delete_same [simp]: "sql_row p (sql_delete p rs) = None"
  by (auto simp: sql_row_None_iff)

lemma sql_row_delete_other:
  "(\<And>r. p r \<Longrightarrow> \<not> q r) \<Longrightarrow> sql_row p (sql_delete q rs) = sql_row p rs"
  by (induction rs) (auto simp: sql_row_def sql_delete_def)

lemma sql_row_insert_free:
  "key_free key k rs \<Longrightarrow> key r = k \<Longrightarrow> sql_row (\<lambda>r. key r = k) (sql_insert r rs) = Some r"
  by (induction rs) (auto simp: sql_defs)

lemma rows_affected_0: "rows_affected p rs = 0 \<longleftrightarrow> (\<forall>r \<in> set rs. \<not> p r)"
  by (auto simp: rows_affected_def filter_empty_conv)

lemma sql_delete_partition:
  "length (sql_delete p rs) + rows_affected p rs = length rs"
  by (induction rs) (auto simp: sql_defs)

lemma key_free_iff: "key_free key k rs \<longleftrightarrow> k \<notin> key ` set rs"
  by (auto simp: key_free_def list_all_iff)

lemma unique_on_Nil [simp]: "unique_on key []"
  by (simp add: unique_on_def)

lemma unique_on_insert [simp]:
  "unique_on key (sql_insert r rs) \<longleftrightarrow> unique_on key rs \<and> key_free key (key r) rs"
  by (auto simp: unique_on_def sql_insert_def key_free_iff)

lemma unique_on_delete [intro]: "unique_on key rs \<Longrightarrow> unique_on key (sql_delete p rs)"
  by (induction rs) (auto simp: unique_on_def sql_delete_def)

lemma unique_onD:
  "unique_on key rs \<Longrightarrow> r \<in> set rs \<Longrightarrow> r' \<in> set rs \<Longrightarrow> key r = key r' \<Longrightarrow> r = r'"
  by (auto simp: unique_on_def distinct_map dest: inj_onD)

lemma unique_on_row:
  assumes "unique_on key rs" and "r \<in> set rs"
  shows "sql_row (\<lambda>x. key x = key r) rs = Some r"
proof (cases "sql_row (\<lambda>x. key x = key r) rs")
  case None
  with assms(2) show ?thesis by (auto simp: sql_row_None_iff)
next
  case (Some r')
  then have "r' \<in> set rs" and "key r' = key r" by (auto dest: sql_row_SomeD)
  with assms Some show ?thesis by (auto dest: unique_onD)
qed

lemma sql_row_delete_unique:
  assumes "unique_on key rs"
  shows "sql_row (\<lambda>r. key r = k) (sql_delete p rs) =
    (case sql_row (\<lambda>r. key r = k) rs of None \<Rightarrow> None | Some r \<Rightarrow> if p r then None else Some r)"
proof (cases "sql_row (\<lambda>r. key r = k) rs")
  case None
  then have "sql_row (\<lambda>r. key r = k) (sql_delete p rs) = None" by (auto simp: sql_row_None_iff)
  with None show ?thesis by simp
next
  case (Some r)
  then have r: "r \<in> set rs" "key r = k" by (auto dest: sql_row_SomeD)
  then have only: "\<And>r'. r' \<in> set rs \<Longrightarrow> key r' = k \<Longrightarrow> r' = r" using assms by (auto dest: unique_onD)
  show ?thesis
  proof (cases "p r")
    case True
    with only have "sql_row (\<lambda>r. key r = k) (sql_delete p rs) = None" by (auto simp: sql_row_None_iff)
    with True Some show ?thesis by simp
  next
    case False
    with r have "r \<in> set (sql_delete p rs)" by simp
    with unique_on_row [OF unique_on_delete [OF assms] this] r Some False show ?thesis by simp
  qed
qed

subsection \<open>Interface: an \<open>UPDATE\<close> that keeps the key\<close>

text \<open>
  Every \<open>UPDATE\<close> of the program leaves the primary key alone. What a client needs of such
  a statement (uniqueness is kept, other rows are untouched, the row of a key is found
  again, rewritten) follows from that one law.
\<close>

locale keyed_update =
  fixes key :: "'r \<Rightarrow> 'k" and f :: "'r \<Rightarrow> 'r"
  assumes key_kept: "key (f r) = key r"
begin

lemma keys_kept: "map key (sql_update p f rs) = map key rs"
  by (induction rs) (auto simp: sql_update_def key_kept)

lemma unique_kept: "unique_on key rs \<Longrightarrow> unique_on key (sql_update p f rs)"
  by (simp add: unique_on_def keys_kept)

lemma key_free_kept: "key_free key k (sql_update p f rs) \<longleftrightarrow> key_free key k rs"
  by (induction rs) (auto simp: sql_defs key_kept)

lemma row_by_key:
  "sql_row (\<lambda>r. key r = k) (sql_update p f rs)
   = map_option (\<lambda>r. if p r then f r else r) (sql_row (\<lambda>r. key r = k) rs)"
  by (induction rs) (auto simp: sql_defs key_kept)

lemma row_update_key:
  "sql_row (\<lambda>r. key r = k) (sql_update (\<lambda>r. key r = k') f rs)
   = (if k = k' then map_option f (sql_row (\<lambda>r. key r = k) rs) else sql_row (\<lambda>r. key r = k) rs)"
  by (induction rs) (auto simp: sql_defs key_kept)

end

subsection \<open>Interface: a step relation with an inductive invariant\<close>

locale preserved =
  fixes step :: "'s \<Rightarrow> 's \<Rightarrow> bool" and inv :: "'s \<Rightarrow> bool"
  assumes step_inv: "step s t \<Longrightarrow> inv s \<Longrightarrow> inv t"
begin

lemma run_inv: "step\<^sup>*\<^sup>* s t \<Longrightarrow> inv s \<Longrightarrow> inv t"
  by (induction rule: rtranclp_induct) (auto intro: step_inv)

end

end
