(* ===== verification/Schema.thy ===== *)
theory Schema
  imports Sesamo_Prelude
begin

text \<open>
  The tables of \<open>migrations/*.sql\<close> as records, one field per column, and the database as
  the record of its tables. \<open>UUID\<close>, \<open>TEXT\<close>, \<open>INET\<close> and \<open>JSONB\<close> columns are strings, a
  nullable column is an \<open>option\<close>, \<open>BYTEA\<close> is a byte list. The \<open>CITEXT\<close> comparison of
  \<open>users.email\<close> ignores (ASCII) case. Rate-limit tokens, \<open>DOUBLE PRECISION\<close> in the schema,
  are exact rationals.
\<close>

record user_row =
  u_id :: string
  u_email :: string
  u_email_verified :: bool
  u_password_hash :: "string option"
  u_name :: "string option"
  u_picture_url :: "string option"
  u_created_at :: gotime
  u_updated_at :: gotime
  u_metadata :: string
  u_disabled :: bool

record identity_row =
  i_id :: string
  i_user_id :: string
  i_provider :: string
  i_provider_sub :: string
  i_created_at :: gotime

record session_row =
  s_id_hash :: bytes
  s_user_id :: string
  s_created_at :: gotime
  s_last_used_at :: gotime
  s_expires_at :: gotime
  s_user_agent :: "string option"
  s_ip_first :: "string option"

record token_row =
  t_id :: string
  t_user_id :: string
  t_token_hash :: bytes
  t_purpose :: string
  t_expires_at :: gotime
  t_consumed_at :: "gotime option"
  t_created_at :: gotime

text \<open>The values the \<open>CHECK\<close> constraint of \<open>email_outbox.status\<close> admits.\<close>

datatype status = Pending | Accepted | Delivered | Failed | Canceled | Expired

record outbox_row =
  o_id :: string
  o_user_id :: string
  o_token_id :: "string option"
  o_provider :: string
  o_purpose :: string
  o_recipient :: string
  o_sender :: string
  o_subject :: string
  o_key_id :: "string option"
  o_nonce :: "bytes option"
  o_ciphertext :: "bytes option"
  o_status :: status
  o_attempt_count :: nat
  o_available_at :: gotime
  o_lease_token :: "string option"
  o_lease_until :: "gotime option"
  o_provider_message_id :: "string option"
  o_last_error :: "string option"
  o_send_before :: gotime
  o_created_at :: gotime
  o_updated_at :: gotime
  o_accepted_at :: "gotime option"
  o_delivered_at :: "gotime option"
  o_failed_at :: "gotime option"
  o_canceled_at :: "gotime option"
  o_expired_at :: "gotime option"

record event_row =
  e_id :: nat
  e_svix_id :: string
  e_provider_message_id :: string
  e_event_type :: string
  e_occurred_at :: gotime
  e_received_at :: gotime

text \<open>A value of an audit record's \<open>detail\<close> object: the handlers store strings and booleans.\<close>

datatype jval = JStr string | JBool bool

record audit_row =
  a_id :: nat
  a_occurred_at :: gotime
  a_actor_user :: "string option"
  a_event :: string
  a_ip :: "string option"
  a_detail :: "(string \<times> jval) list"

record bucket_row =
  b_key :: string
  b_tokens :: rat
  b_updated_at :: gotime

record db =
  users :: "user_row list"
  identities :: "identity_row list"
  sessions :: "session_row list"
  one_time_tokens :: "token_row list"
  email_outbox :: "outbox_row list"
  email_events :: "event_row list"
  audit_log :: "audit_row list"
  rate_limit_buckets :: "bucket_row list"

definition empty_db :: db where
  "empty_db = \<lparr>users = [], identities = [], sessions = [], one_time_tokens = [],
     email_outbox = [], email_events = [], audit_log = [], rate_limit_buckets = []\<rparr>"

text \<open>A stored account, for concrete instances.\<close>

definition sample_user :: user_row where
  "sample_user = \<lparr>u_id = ''u1'', u_email = ''a@b.c'', u_email_verified = False,
     u_password_hash = None, u_name = None, u_picture_url = None, u_created_at = 0,
     u_updated_at = 0, u_metadata = ''{}'', u_disabled = False\<rparr>"

subsection \<open>The case-insensitive email column\<close>

definition lower_char :: "char \<Rightarrow> char" where
  "lower_char c = (let n = (of_char c :: nat) in if 65 \<le> n \<and> n \<le> 90 then char_of (n + 32) else c)"

definition ToLower :: "string \<Rightarrow> string" where
  "ToLower s = map lower_char s"

definition citext_eq :: "string \<Rightarrow> string \<Rightarrow> bool" where
  "citext_eq a b \<longleftrightarrow> ToLower a = ToLower b"

lemma lower_char_idem [simp]: "lower_char (lower_char c) = lower_char c"
  by (auto simp: lower_char_def Let_def of_char_of)

lemma ToLower_idem [simp]: "ToLower (ToLower s) = ToLower s"
  by (simp add: ToLower_def)

lemma citext_eq_refl [simp]: "citext_eq a a"
  by (simp add: citext_eq_def)

lemma citext_eq_sym: "citext_eq a b \<longleftrightarrow> citext_eq b a"
  by (auto simp: citext_eq_def)

lemma citext_eq_trans: "citext_eq a b \<Longrightarrow> citext_eq b c \<Longrightarrow> citext_eq a c"
  by (simp add: citext_eq_def)

subsection \<open>Constraints of the schema\<close>

text \<open>
  Primary keys, \<open>UNIQUE\<close> columns and foreign keys. \<open>db_ok\<close> is the well-formedness invariant
  that Postgres enforces and that the modelled statements have to keep.
\<close>

definition db_ok :: "db \<Rightarrow> bool" where
  "db_ok d \<longleftrightarrow>
     unique_on u_id (users d) \<and> unique_on (\<lambda>u. ToLower (u_email u)) (users d) \<and>
     unique_on i_id (identities d) \<and>
     unique_on (\<lambda>i. (i_provider i, i_provider_sub i)) (identities d) \<and>
     unique_on s_id_hash (sessions d) \<and> unique_on t_id (one_time_tokens d) \<and>
     unique_on o_id (email_outbox d) \<and> unique_on e_svix_id (email_events d) \<and>
     unique_on b_key (rate_limit_buckets d) \<and>
     (\<forall>i \<in> set (identities d). i_user_id i \<in> u_id ` set (users d)) \<and>
     (\<forall>s \<in> set (sessions d). s_user_id s \<in> u_id ` set (users d)) \<and>
     (\<forall>t \<in> set (one_time_tokens d). t_user_id t \<in> u_id ` set (users d)) \<and>
     (\<forall>r \<in> set (email_outbox d). o_user_id r \<in> u_id ` set (users d)) \<and>
     (\<forall>r \<in> set (email_outbox d). \<forall>k. o_token_id r = Some k \<longrightarrow> k \<in> t_id ` set (one_time_tokens d))"

lemma db_ok_empty: "db_ok empty_db"
  by (simp add: db_ok_def empty_db_def)

end
