(* ===== verification/Go_Strings.thy ===== *)
theory Go_Strings
  imports Schema
begin

text \<open>
  What the program uses of Go's \<open>strings\<close>, \<open>strconv\<close> and \<open>encoding/base64\<close>, on byte strings.
  White space and letter case are the ASCII ones. The base64 decoder follows the library's: it
  ignores carriage returns and newlines, does not insist on zero trailing bits, and wants
  padding exactly when the encoding has it. Shown: splitting and joining, cutting and
  concatenating are inverse to each other, and decoding undoes encoding in all four variants,
  for any alphabet that satisfies the law of the locale \<open>alphabet\<close>.
\<close>

definition bytes_of :: "string \<Rightarrow> bytes" where
  "bytes_of s = map (\<lambda>c. of_nat (of_char c)) s"

definition string_of :: "bytes \<Rightarrow> string" where
  "string_of bs = map (\<lambda>b. char_of (unat b)) bs"

definition is_space :: "char \<Rightarrow> bool" where
  "is_space c \<longleftrightarrow> (of_char c :: nat) \<in> {9, 10, 11, 12, 13, 32}"

definition TrimSpace :: "string \<Rightarrow> string" where
  "TrimSpace s = rev (dropWhile is_space (rev (dropWhile is_space s)))"

fun Split :: "char \<Rightarrow> string \<Rightarrow> string list" where
  "Split sep [] = [[]]"
| "Split sep (c # cs) = (if c = sep then [] # Split sep cs
     else case Split sep cs of [] \<Rightarrow> [[c]] | p # ps \<Rightarrow> (c # p) # ps)"

fun Cut :: "char \<Rightarrow> string \<Rightarrow> string \<times> string \<times> bool" where
  "Cut sep [] = ([], [], False)"
| "Cut sep (c # cs) = (if c = sep then ([], cs, True)
     else case Cut sep cs of (a, b, ok) \<Rightarrow> (c # a, b, ok))"

fun Join :: "char \<Rightarrow> string list \<Rightarrow> string" where
  "Join sep [] = []"
| "Join sep [s] = s"
| "Join sep (s # ss) = s @ sep # Join sep ss"

definition HasPrefix :: "string \<Rightarrow> string \<Rightarrow> bool" where
  "HasPrefix s p \<longleftrightarrow> take (length p) s = p"

definition TrimPrefix :: "string \<Rightarrow> string \<Rightarrow> string" where
  "TrimPrefix s p = (if HasPrefix s p then drop (length p) s else s)"

definition EqualFold :: "string \<Rightarrow> string \<Rightarrow> bool" where
  "EqualFold a b \<longleftrightarrow> ToLower a = ToLower b"

definition is_digit :: "char \<Rightarrow> bool" where
  "is_digit c \<longleftrightarrow> 48 \<le> (of_char c :: nat) \<and> (of_char c :: nat) \<le> 57"

definition digits_value :: "string \<Rightarrow> int" where
  "digits_value s = foldl (\<lambda>n c. 10 * n + (int (of_char c) - 48)) 0 s"

text \<open>
  \<open>strconv.Atoi\<close>: an optional sign, then one or more digits; a value outside the 64-bit range
  is an error.
\<close>

definition Atoi :: "string \<Rightarrow> int option" where
  "Atoi s =
     (let neg = (s \<noteq> [] \<and> hd s = CHR ''-'');
          ds = (if s \<noteq> [] \<and> (hd s = CHR ''-'' \<or> hd s = CHR ''+'') then tl s else s);
          v = (if neg then - digits_value ds else digits_value ds)
      in if ds \<noteq> [] \<and> list_all is_digit ds \<and> - (2 ^ 63) \<le> v \<and> v < 2 ^ 63 then Some v else None)"

fun nat_string :: "nat \<Rightarrow> string" where
  "nat_string n = (if n < 10 then [char_of (48 + n)] else nat_string (n div 10) @ [char_of (48 + n mod 10)])"

declare nat_string.simps [simp del]

definition Itoa :: "int \<Rightarrow> string" where
  "Itoa i = (if i < 0 then CHR ''-'' # nat_string (nat (- i)) else nat_string (nat i))"

subsection \<open>Facts about strings\<close>

lemma byte_lt: "unat (x :: byte) < 256"
  using unsigned_less [of x, where 'a = nat] by simp

lemma char_byte [simp]: "char_of (unat (of_nat (of_char c) :: byte)) = c"
proof -
  have "unat (of_nat (of_char c) :: byte) = of_char c"
    using nat_of_char_less_256 [of c] by (simp add: unat_of_nat)
  then show ?thesis by simp
qed

lemma string_of_bytes_of [simp]: "string_of (bytes_of s) = s"
  by (simp add: string_of_def bytes_of_def comp_def)

lemma bytes_of_inj [simp]: "bytes_of a = bytes_of b \<longleftrightarrow> a = b"
  by (metis string_of_bytes_of)

lemma Split_not_Nil [simp]: "Split sep s \<noteq> []"
  by (cases s) (auto split: list.splits)

lemma Join_Split [simp]: "Join sep (Split sep s) = s"
proof (induction sep s rule: Split.induct)
  case (2 sep c cs)
  then show ?case by (cases "Split sep cs"; cases "tl (Split sep cs)") auto
qed simp

lemma Split_no_sep: "sep \<notin> set s \<Longrightarrow> Split sep s = [s]"
  by (induction s) auto

lemma Split_append: "sep \<notin> set a \<Longrightarrow> Split sep (a @ sep # b) = a # Split sep b"
  by (induction a) auto

lemma Split_Join:
  "ss \<noteq> [] \<Longrightarrow> (\<forall>s \<in> set ss. sep \<notin> set s) \<Longrightarrow> Split sep (Join sep ss) = ss"
  by (induction sep ss rule: Join.induct) (auto simp: Split_no_sep Split_append)

lemma Cut_found: "sep \<notin> set a \<Longrightarrow> Cut sep (a @ sep # b) = (a, b, True)"
  by (induction a) auto

lemma Cut_eq: "Cut sep s = (a, b, True) \<Longrightarrow> s = a @ sep # b \<and> sep \<notin> set a"
  by (induction s arbitrary: a) (auto split: if_splits prod.splits)

lemma TrimSpace_id:
  assumes "\<forall>c \<in> set s. \<not> is_space c"
  shows "TrimSpace s = s"
proof -
  have drop: "dropWhile is_space t = t" if "\<forall>c \<in> set t. \<not> is_space c" for t
    using that by (cases t) auto
  have "dropWhile is_space s = s" "dropWhile is_space (rev s) = rev s" using assms by (simp_all add: drop)
  then show ?thesis by (simp only: TrimSpace_def rev_rev_ident)
qed

lemma sep_append_inj:
  "x \<notin> set a \<Longrightarrow> x \<notin> set a' \<Longrightarrow> a @ x # b = a' @ x # b' \<longleftrightarrow> a = a' \<and> b = b'" for x :: char
  by (metis Cut_found prod.inject)

definition Contains :: "string \<Rightarrow> string \<Rightarrow> bool" where
  "Contains s p \<longleftrightarrow> list_ex (\<lambda>i. HasPrefix (drop i s) p) [0..<Suc (length s)]"

text \<open>\<open>strings.Fields\<close>: the non-empty runs between white space.\<close>

fun split_by :: "(char \<Rightarrow> bool) \<Rightarrow> string \<Rightarrow> string list" where
  "split_by p [] = [[]]"
| "split_by p (c # cs) = (if p c then [] # split_by p cs
     else case split_by p cs of [] \<Rightarrow> [[c]] | q # qs \<Rightarrow> (c # q) # qs)"

definition Fields :: "string \<Rightarrow> string list" where
  "Fields s = filter (\<lambda>f. f \<noteq> []) (split_by is_space s)"

text \<open>\<open>strconv.ParseBool\<close>: the twelve spellings it knows.\<close>

definition ParseBool :: "string \<Rightarrow> bool option" where
  "ParseBool s =
     (if List.member [''1'', ''t'', ''T'', ''TRUE'', ''true'', ''True''] s then Some True
      else if List.member [''0'', ''f'', ''F'', ''FALSE'', ''false'', ''False''] s then Some False
      else None)"

subsection \<open>Numbers in decimal\<close>

lemma digits_value_append: "digits_value (s @ [c]) = 10 * digits_value s + (int (of_char c) - 48)"
  by (simp add: digits_value_def)

lemma nat_string_value: "digits_value (nat_string n) = int n \<and> list_all is_digit (nat_string n) \<and> nat_string n \<noteq> []"
proof (induction n rule: nat_string.induct)
  case (1 n)
  have dig: "of_char (char_of (48 + k) :: char) = 48 + k" "is_digit (char_of (48 + k))" if "k < 10" for k :: nat
    using that by (simp_all add: is_digit_def of_char_of)
  show ?case
  proof (cases "n < 10")
    case True
    with dig show ?thesis by (simp add: nat_string.simps [of n] digits_value_def)
  next
    case False
    with 1 have IH: "digits_value (nat_string (n div 10)) = int (n div 10)" "list_all is_digit (nat_string (n div 10))" by auto
    have "digits_value (nat_string n) = 10 * int (n div 10) + int (n mod 10)"
      using False IH dig [of "n mod 10"] by (simp add: nat_string.simps [of n] digits_value_append)
    also have "\<dots> = int (10 * (n div 10) + n mod 10)" by (simp only: of_nat_add of_nat_mult of_nat_numeral)
    also have "\<dots> = int n" by (simp only: mult_div_mod_eq)
    finally show ?thesis using False IH dig [of "n mod 10"] by (simp add: nat_string.simps [of n])
  qed
qed

lemma nat_string_hd: "hd (nat_string n) \<noteq> CHR ''-''" "hd (nat_string n) \<noteq> CHR ''+''"
proof -
  have "is_digit (hd (nat_string n))" using nat_string_value [of n] by (cases "nat_string n") auto
  then show "hd (nat_string n) \<noteq> CHR ''-''" "hd (nat_string n) \<noteq> CHR ''+''" by (auto simp: is_digit_def)
qed

lemma Atoi_Itoa: "- (2 ^ 63) \<le> i \<Longrightarrow> i < 2 ^ 63 \<Longrightarrow> Atoi (Itoa i) = Some i"
  using nat_string_value [of "nat i"] nat_string_value [of "nat (- i)"] nat_string_hd [of "nat i"]
  by (auto simp: Itoa_def Atoi_def Let_def)

lemma Itoa_text: "c \<in> set (Itoa i) \<Longrightarrow> is_digit c \<or> c = CHR ''-''"
  using nat_string_value [of "nat i"] nat_string_value [of "nat (- i)"]
  by (auto simp: Itoa_def list_all_iff split: if_splits)

lemma digit_not_space: "is_digit c \<Longrightarrow> \<not> is_space c"
  by (auto simp: is_digit_def is_space_def)

lemma TrimSpace_Itoa [simp]: "TrimSpace (Itoa i) = Itoa i"
proof (rule TrimSpace_id)
  have "\<not> is_space CHR ''-''" by (simp add: is_space_def)
  then show "\<forall>c \<in> set (Itoa i). \<not> is_space c" using Itoa_text digit_not_space by blast
qed

lemma Itoa_not_Nil [simp]: "Itoa i \<noteq> []"
  using nat_string_value [of "nat i"] by (simp add: Itoa_def)

subsection \<open>Base64\<close>

definition enc_char :: "char \<Rightarrow> char \<Rightarrow> nat \<Rightarrow> char" where
  "enc_char c62 c63 i =
     (if i < 26 then char_of (65 + i) else if i < 52 then char_of (71 + i)
      else if i < 62 then char_of (i - 4) else if i = 62 then c62 else c63)"

definition dec_char :: "char \<Rightarrow> char \<Rightarrow> char \<Rightarrow> nat option" where
  "dec_char c62 c63 c =
     (let n = (of_char c :: nat) in
      if 65 \<le> n \<and> n \<le> 90 then Some (n - 65) else if 97 \<le> n \<and> n \<le> 122 then Some (n - 71)
      else if 48 \<le> n \<and> n \<le> 57 then Some (n + 4) else if c = c62 then Some 62
      else if c = c63 then Some 63 else None)"

text \<open>The bytes of up to four 6-bit digits, and the digits of up to three bytes.\<close>

definition byte3 :: "nat \<Rightarrow> nat \<Rightarrow> nat \<Rightarrow> nat \<Rightarrow> bytes" where
  "byte3 a b c d = [of_nat (a * 4 + b div 16), of_nat ((b mod 16) * 16 + c div 4), of_nat ((c mod 4) * 64 + d)]"

fun encode_gen :: "(nat \<Rightarrow> char) \<Rightarrow> bool \<Rightarrow> bytes \<Rightarrow> string" where
  "encode_gen e pad [] = []"
| "encode_gen e pad [x] =
     [e (unat x div 4), e ((unat x mod 4) * 16)] @ (if pad then ''=='' else [])"
| "encode_gen e pad [x, y] =
     [e (unat x div 4), e ((unat x mod 4) * 16 + unat y div 16), e ((unat y mod 16) * 4)]
     @ (if pad then ''='' else [])"
| "encode_gen e pad (x # y # z # r) =
     [e (unat x div 4), e ((unat x mod 4) * 16 + unat y div 16),
      e ((unat y mod 16) * 4 + unat z div 64), e (unat z mod 64)] @ encode_gen e pad r"

lemma quanta_induct [case_names Nil One Two Three]:
  assumes "P []" and "\<And>x. P [x]" and "\<And>x y. P [x, y]" and "\<And>x y z r. P r \<Longrightarrow> P (x # y # z # r)"
  shows "P (bs :: bytes)"
  using assms by (rule encode_gen.induct [of "\<lambda>_ _. P"])

text \<open>The last quantum, then the loop over quanta; newlines were dropped before.\<close>

fun decode_quanta :: "(char \<Rightarrow> nat option) \<Rightarrow> bool \<Rightarrow> string \<Rightarrow> bytes option" where
  "decode_quanta dm pad [] = Some []"
| "decode_quanta dm pad [a] = None"
| "decode_quanta dm pad [a, b] =
     (if pad then None else case (dm a, dm b) of
        (Some i, Some j) \<Rightarrow> Some (take 1 (byte3 i j 0 0)) | _ \<Rightarrow> None)"
| "decode_quanta dm pad [a, b, c] =
     (if pad then None else case (dm a, dm b, dm c) of
        (Some i, Some j, Some k) \<Rightarrow> Some (take 2 (byte3 i j k 0)) | _ \<Rightarrow> None)"
| "decode_quanta dm pad (a # b # c # d # r) =
     (case (dm a, dm b) of
        (Some i, Some j) \<Rightarrow>
          (case dm c of
             Some k \<Rightarrow>
               (case dm d of
                  Some l \<Rightarrow> map_option (append (byte3 i j k l)) (decode_quanta dm pad r)
                | None \<Rightarrow> if pad \<and> d = CHR ''='' \<and> r = [] then Some (take 2 (byte3 i j k 0)) else None)
           | None \<Rightarrow> if pad \<and> c = CHR ''='' \<and> d = CHR ''='' \<and> r = [] then Some (take 1 (byte3 i j 0 0)) else None)
      | _ \<Rightarrow> None)"

definition decode_gen :: "(char \<Rightarrow> nat option) \<Rightarrow> bool \<Rightarrow> string \<Rightarrow> bytes option" where
  "decode_gen dm pad s = decode_quanta dm pad (filter (\<lambda>c. (of_char c :: nat) \<noteq> 10 \<and> (of_char c :: nat) \<noteq> 13) s)"

datatype encoding = StdEncoding | RawStdEncoding | URLEncoding | RawURLEncoding

fun padded :: "encoding \<Rightarrow> bool" where
  "padded StdEncoding = True" | "padded RawStdEncoding = False"
| "padded URLEncoding = True" | "padded RawURLEncoding = False"

fun enc_table :: "encoding \<Rightarrow> nat \<Rightarrow> char" where
  "enc_table StdEncoding = enc_char CHR ''+'' CHR ''/''" | "enc_table RawStdEncoding = enc_char CHR ''+'' CHR ''/''"
| "enc_table URLEncoding = enc_char CHR ''-'' CHR ''_''" | "enc_table RawURLEncoding = enc_char CHR ''-'' CHR ''_''"

fun dec_table :: "encoding \<Rightarrow> char \<Rightarrow> nat option" where
  "dec_table StdEncoding = dec_char CHR ''+'' CHR ''/''" | "dec_table RawStdEncoding = dec_char CHR ''+'' CHR ''/''"
| "dec_table URLEncoding = dec_char CHR ''-'' CHR ''_''" | "dec_table RawURLEncoding = dec_char CHR ''-'' CHR ''_''"

definition EncodeToString :: "encoding \<Rightarrow> bytes \<Rightarrow> string" where
  "EncodeToString e bs = encode_gen (enc_table e) (padded e) bs"

definition DecodeString :: "encoding \<Rightarrow> string \<Rightarrow> bytes option" where
  "DecodeString e s = decode_gen (dec_table e) (padded e) s"

text \<open>
  The law of an alphabet: a digit is read back as itself, and no digit is written as padding or
  as a character the decoder skips.
\<close>

locale alphabet =
  fixes enc :: "nat \<Rightarrow> char" and dec :: "char \<Rightarrow> nat option"
  assumes dec_enc: "i < 64 \<Longrightarrow> dec (enc i) = Some i"
    and dec_pad: "dec CHR ''='' = None"
    and enc_text: "i < 64 \<Longrightarrow> (of_char (enc i) :: nat) \<noteq> 10 \<and> (of_char (enc i) :: nat) \<noteq> 13"
begin

lemma byte3_digits:
  "byte3 (unat x div 4) ((unat x mod 4) * 16 + unat y div 16) ((unat y mod 16) * 4 + unat z div 64) (unat z mod 64)
   = [x, y, z]" for x y z :: byte
proof -
  have "unat y div 16 < 16" "unat z div 64 < 4" using byte_lt [of y] byte_lt [of z] by linarith+
  then have "byte3 (unat x div 4) ((unat x mod 4) * 16 + unat y div 16) ((unat y mod 16) * 4 + unat z div 64) (unat z mod 64)
     = [of_nat (unat x div 4 * 4 + unat x mod 4), of_nat (unat y div 16 * 16 + unat y mod 16),
        of_nat (unat z div 64 * 64 + unat z mod 64)]"
    by (simp add: byte3_def add.commute)
  also have "\<dots> = [x, y, z]" unfolding div_mult_mod_eq by simp
  finally show ?thesis .
qed

lemma digits_lt:
  "unat x div 4 < 64" "(unat x mod 4) * 16 + unat y div 16 < 64" "(unat x mod 4) * 16 < 64"
  "(unat y mod 16) * 4 + unat z div 64 < 64" "(unat y mod 16) * 4 < 64" "unat z mod 64 < 64" for x y z :: byte
proof -
  have "unat x div 4 < 64" "unat y div 16 < 16" "unat z div 64 < 4" "unat x mod 4 < 4" "unat y mod 16 < 16"
    using byte_lt [of x] byte_lt [of y] byte_lt [of z] by simp_all
  then show "unat x div 4 < 64" "(unat x mod 4) * 16 + unat y div 16 < 64" "(unat x mod 4) * 16 < 64"
    "(unat y mod 16) * 4 + unat z div 64 < 64" "(unat y mod 16) * 4 < 64" "unat z mod 64 < 64" by simp_all
qed

lemma decode_encode_quanta: "decode_quanta dec pad (encode_gen enc pad bs) = Some bs"
proof (induction bs rule: quanta_induct)
  case (One x)
  from byte3_digits [of x 0 0] show ?case by (simp add: dec_enc digits_lt dec_pad byte3_def)
next
  case (Two x y)
  from byte3_digits [of x y 0] show ?case by (simp add: dec_enc digits_lt dec_pad byte3_def)
next
  case (Three x y z r)
  then show ?case by (simp add: dec_enc digits_lt byte3_digits)
qed simp

lemma encode_text:
  "\<forall>c \<in> set (encode_gen enc pad bs). (of_char c :: nat) \<noteq> 10 \<and> (of_char c :: nat) \<noteq> 13"
  by (induction bs rule: quanta_induct) (auto simp: enc_text digits_lt)

lemma decode_encode: "decode_gen dec pad (encode_gen enc pad bs) = Some bs"
proof -
  have "filter (\<lambda>c. (of_char c :: nat) \<noteq> 10 \<and> (of_char c :: nat) \<noteq> 13) (encode_gen enc pad bs) = encode_gen enc pad bs"
    using encode_text by (simp add: filter_id_conv)
  then show ?thesis by (simp add: decode_gen_def decode_encode_quanta)
qed

end

lemma alphabet_char:
  assumes "(c62, c63) = (CHR ''+'', CHR ''/'') \<or> (c62, c63) = (CHR ''-'', CHR ''_'')"
  shows "alphabet (enc_char c62 c63) (dec_char c62 c63)"
proof
  fix i :: nat assume i: "i < 64"
  then consider "i < 26" | "26 \<le> i" "i < 52" | "52 \<le> i" "i < 62" | "i = 62" | "i = 63" by linarith
  then show "dec_char c62 c63 (enc_char c62 c63 i) = Some i"
    using assms by cases (auto simp: enc_char_def dec_char_def Let_def of_char_of)
  from i consider "i < 26" | "26 \<le> i" "i < 52" | "52 \<le> i" "i < 62" | "i = 62" | "i = 63" by linarith
  then show "(of_char (enc_char c62 c63 i) :: nat) \<noteq> 10 \<and> (of_char (enc_char c62 c63 i) :: nat) \<noteq> 13"
    using assms by cases (auto simp: enc_char_def of_char_of)
next
  show "dec_char c62 c63 CHR ''='' = None" using assms by (auto simp: dec_char_def)
qed

interpretation b64: alphabet "enc_table e" "dec_table e" for e
  by (cases e) (simp_all add: alphabet_char)

lemma Decode_Encode [simp]: "DecodeString e (EncodeToString e bs) = Some bs"
  by (simp add: DecodeString_def EncodeToString_def b64.decode_encode)

lemma encode_gen_length_raw: "length (encode_gen e False bs) = (length bs * 4 + 2) div 3"
  by (induction bs rule: quanta_induct) simp_all

lemma encode_gen_set:
  "set (encode_gen e pad bs) \<subseteq> e ` {..<64} \<union> (if pad then {CHR ''=''} else {})"
  by (induction bs rule: quanta_induct) (auto simp: b64.digits_lt)

end
