(* ===== verification/Database.thy ===== *)
theory Database
  imports Schema
begin

text \<open>
  How the program reaches Postgres. A computation is a function from the world (the
  database, the faults still to come, the counters incremented so far) to a result or an
  error and the next world.

  Any statement, \<open>Begin\<close> or \<open>Commit\<close> may fail for a reason outside the program (a lost
  connection, a timeout, a value Postgres cannot cast): the field \<open>faults\<close> is the schedule
  of those failures, one boolean per call in order, no further failure once it is used up.
  A theorem that holds in every world therefore holds for every pattern of failures.
  A failed call changes nothing; \<open>in_tx\<close> undoes the statements of a transaction that does
  not commit. A \<open>Commit\<close> that reports an error is taken not to have committed.
\<close>

datatype err =
    ErrBackend
  | ErrUniqueViolation
  | ErrForeignKey
  | ErrNoRows
  | ErrInvalidToken
  | ErrSignupDisabled
  | ErrUserDisabled
  | ErrLeaseLost
  | ErrUnknownKeyID
  | ErrPayloadAuth
  | AuditWriteError err

record world =
  wdb :: db
  faults :: "bool list"
  counters :: "string list"

text \<open>A world with one account and no failures to come, for concrete instances.\<close>

definition sample_world :: world where
  "sample_world = \<lparr>wdb = empty_db\<lparr>users := [sample_user]\<rparr>, faults = [], counters = []\<rparr>"

type_synonym 'a dbm = "world \<Rightarrow> (err + 'a) \<times> world"

named_theorems dbm_defs "definitions of the database computations"

definition retM :: "'a \<Rightarrow> 'a dbm" where
  [dbm_defs]: "retM x = (\<lambda>w. (Inr x, w))"

definition failM :: "err \<Rightarrow> 'a dbm" where
  [dbm_defs]: "failM e = (\<lambda>w. (Inl e, w))"

definition bindM :: "'a dbm \<Rightarrow> ('a \<Rightarrow> 'b dbm) \<Rightarrow> 'b dbm" where
  "bindM m k = (\<lambda>w. case m w of (Inl e, w') \<Rightarrow> (Inl e, w') | (Inr x, w') \<Rightarrow> k x w')"

text \<open>The outcome of a computation as a value: \<open>x, err := m\<close> with \<open>err\<close> inspected.\<close>

definition tryM :: "'a dbm \<Rightarrow> (err + 'a) dbm" where
  [dbm_defs]: "tryM m = (\<lambda>w. case m w of (r, w') \<Rightarrow> (Inr r, w'))"

definition ignoreM :: "'a dbm \<Rightarrow> unit dbm" where
  [dbm_defs]: "ignoreM m = (\<lambda>w. (Inr (), snd (m w)))"

definition inc_counter :: "string \<Rightarrow> unit dbm" where
  [dbm_defs]: "inc_counter n = (\<lambda>w. (Inr (), w\<lparr>counters := counters w @ [n]\<rparr>))"

fun repeatM :: "nat \<Rightarrow> unit dbm \<Rightarrow> unit dbm" where
  "repeatM 0 m = retM ()"
| "repeatM (Suc n) m = bindM m (\<lambda>_. repeatM n m)"

definition next_fault :: "world \<Rightarrow> bool \<times> world" where
  "next_fault w = (case faults w of [] \<Rightarrow> (False, w) | b # bs \<Rightarrow> (b, w\<lparr>faults := bs\<rparr>))"

definition exec :: "(db \<Rightarrow> err + 'a \<times> db) \<Rightarrow> 'a dbm" where
  "exec stmt = (\<lambda>w. case next_fault w of
       (True, w') \<Rightarrow> (Inl ErrBackend, w')
     | (False, w') \<Rightarrow> (case stmt (wdb w') of
           Inl e \<Rightarrow> (Inl e, w')
         | Inr (x, d) \<Rightarrow> (Inr x, w'\<lparr>wdb := d\<rparr>)))"

definition query :: "(db \<Rightarrow> 'a) \<Rightarrow> 'a dbm" where
  "query q = exec (\<lambda>d. Inr (q d, d))"

definition in_tx :: "'a dbm \<Rightarrow> 'a dbm" where
  "in_tx m = (\<lambda>w. case next_fault w of
       (True, w1) \<Rightarrow> (Inl ErrBackend, w1)
     | (False, w1) \<Rightarrow> (case m w1 of
           (Inl e, w2) \<Rightarrow> (Inl e, w2\<lparr>wdb := wdb w1\<rparr>)
         | (Inr x, w2) \<Rightarrow> (case next_fault w2 of
               (True, w3) \<Rightarrow> (Inl ErrBackend, w3\<lparr>wdb := wdb w1\<rparr>)
             | (False, w3) \<Rightarrow> (Inr x, w3))))"

subsection \<open>Running computations\<close>

lemma bindM_Inr [simp]: "m w = (Inr x, w') \<Longrightarrow> bindM m k w = k x w'"
  by (simp add: bindM_def)

lemma bindM_Inl [simp]: "m w = (Inl e, w') \<Longrightarrow> bindM m k w = (Inl e, w')"
  by (simp add: bindM_def)

lemma bindM_ret [simp]: "bindM (retM x) k = k x"
  by (simp add: bindM_def retM_def)

lemma bindM_eq_Inr:
  "bindM m k w = (Inr y, w'') \<longleftrightarrow> (\<exists>x w'. m w = (Inr x, w') \<and> k x w' = (Inr y, w''))"
  by (auto simp: bindM_def split: prod.splits sum.splits)

lemma bindM_eq_Inl:
  "bindM m k w = (Inl e, w'') \<longleftrightarrow>
     m w = (Inl e, w'') \<or> (\<exists>x w'. m w = (Inr x, w') \<and> k x w' = (Inl e, w''))"
  by (auto simp: bindM_def split: prod.splits sum.splits)

lemma next_fault_db [simp]:
  "next_fault w = (b, w') \<Longrightarrow> wdb w' = wdb w"
  "next_fault w = (b, w') \<Longrightarrow> counters w' = counters w"
  by (auto simp: next_fault_def split: list.splits)

lemma next_fault_none [simp]: "faults w = [] \<Longrightarrow> next_fault w = (False, w)"
  by (simp add: next_fault_def)

lemma exec_eq_Inr:
  "exec stmt w = (Inr x, w') \<longleftrightarrow>
     (\<exists>w1 d. next_fault w = (False, w1) \<and> stmt (wdb w) = Inr (x, d) \<and> w' = w1\<lparr>wdb := d\<rparr>)"
  by (auto simp: exec_def split: prod.splits sum.splits bool.splits)

lemma exec_Inr_db: "exec stmt w = (Inr x, w') \<Longrightarrow> stmt (wdb w) = Inr (x, wdb w')"
  by (auto simp: exec_eq_Inr)

lemma exec_InrD: "exec stmt w = (Inr x, w') \<Longrightarrow> Inr (x, wdb w') = stmt (wdb w)"
  by (auto simp: exec_eq_Inr)

lemma exec_Inl_db: "exec stmt w = (Inl e, w') \<Longrightarrow> wdb w' = wdb w"
  by (auto simp: exec_def split: prod.splits sum.splits bool.splits)

lemma exec_counters: "exec stmt w = (r, w') \<Longrightarrow> counters w' = counters w"
  by (auto simp: exec_def split: prod.splits sum.splits bool.splits)

lemma exec_nofault:
  "faults w = [] \<Longrightarrow> exec stmt w =
     (case stmt (wdb w) of Inl e \<Rightarrow> (Inl e, w) | Inr (x, d) \<Rightarrow> (Inr x, w\<lparr>wdb := d\<rparr>))"
  by (simp add: exec_def)

lemma query_nofault: "faults w = [] \<Longrightarrow> query q w = (Inr (q (wdb w)), w)"
  by (simp add: query_def exec_nofault)

lemma query_eq_Inr: "query q w = (Inr x, w') \<Longrightarrow> x = q (wdb w) \<and> wdb w' = wdb w"
  by (auto simp: query_def exec_eq_Inr)

lemma query_db [simp]: "query q w = (r, w') \<Longrightarrow> wdb w' = wdb w"
  by (cases r) (auto dest: query_eq_Inr exec_Inl_db simp: query_def exec_eq_Inr)

lemma query_counters: "query q w = (r, w') \<Longrightarrow> counters w' = counters w"
  by (simp add: query_def exec_counters)

lemmas dbm_nofault = exec_nofault query_nofault

text \<open>A transaction that fails leaves no trace in the database.\<close>

lemma in_tx_rollback: "in_tx m w = (Inl e, w') \<Longrightarrow> wdb w' = wdb w"
  by (auto simp: in_tx_def split: prod.splits sum.splits bool.splits)

lemma in_tx_commit:
  assumes "in_tx m w = (Inr x, w')"
  obtains w1 w2 where "next_fault w = (False, w1)" and "m w1 = (Inr x, w2)"
    and "next_fault w2 = (False, w')"
  using assms by (auto simp: in_tx_def split: prod.splits sum.splits bool.splits)

lemma in_tx_nofault:
  assumes "faults w = []" and "m w = (r, w')" and "faults w' = []"
  shows "in_tx m w = (r, case r of Inl e \<Rightarrow> w'\<lparr>wdb := wdb w\<rparr> | Inr x \<Rightarrow> w')"
  using assms by (simp add: in_tx_def split: sum.splits)

subsection \<open>Invariants of computations\<close>

text \<open>\<open>keeps P m\<close>: whatever the outcome of \<open>m\<close>, a database that satisfies \<open>P\<close> still does.\<close>

definition keeps :: "(db \<Rightarrow> bool) \<Rightarrow> 'a dbm \<Rightarrow> bool" where
  "keeps P m \<longleftrightarrow> (\<forall>w. P (wdb w) \<longrightarrow> P (wdb (snd (m w))))"

lemma keepsI: "(\<And>w r w'. m w = (r, w') \<Longrightarrow> P (wdb w) \<Longrightarrow> P (wdb w')) \<Longrightarrow> keeps P m"
  by (metis keeps_def prod.collapse)

lemma keepsD: "keeps P m \<Longrightarrow> m w = (r, w') \<Longrightarrow> P (wdb w) \<Longrightarrow> P (wdb w')"
  by (metis keeps_def snd_conv)

lemma keeps_ret [intro!, simp]: "keeps P (retM x)"
  by (simp add: keeps_def retM_def)

lemma keeps_fail [intro!, simp]: "keeps P (failM e)"
  by (simp add: keeps_def failM_def)

lemma keeps_inc [intro!, simp]: "keeps P (inc_counter n)"
  by (simp add: keeps_def inc_counter_def)

lemma keeps_bind [intro!]:
  assumes "keeps P m" and "\<And>x. keeps P (k x)"
  shows "keeps P (bindM m k)"
  using assms by (auto simp: keeps_def bindM_def split: prod.splits sum.splits)

lemma keeps_try [intro!]: "keeps P m \<Longrightarrow> keeps P (tryM m)"
  by (auto simp: keeps_def tryM_def split: prod.splits)

lemma keeps_ignore [intro!]: "keeps P m \<Longrightarrow> keeps P (ignoreM m)"
  by (simp add: keeps_def ignoreM_def)

lemma keeps_repeat [intro!]: "keeps P m \<Longrightarrow> keeps P (repeatM n m)"
  by (induction n) auto

lemma keeps_query [intro!, simp]: "keeps P (query q)"
  by (auto intro!: keepsI)

lemma keeps_exec [intro]:
  assumes "\<And>d x d'. stmt d = Inr (x, d') \<Longrightarrow> P d \<Longrightarrow> P d'"
  shows "keeps P (exec stmt)"
proof (rule keepsI)
  fix w r w'
  assume run: "exec stmt w = (r, w')" and P: "P (wdb w)"
  show "P (wdb w')"
  proof (cases r)
    case (Inl e)
    with run P show ?thesis by (simp add: exec_Inl_db)
  next
    case (Inr x)
    with run P show ?thesis by (blast dest: exec_Inr_db intro: assms)
  qed
qed

lemma keeps_in_tx [intro!]: "keeps P m \<Longrightarrow> keeps P (in_tx m)"
proof (rule keepsI)
  fix w r w'
  assume m: "keeps P m" and run: "in_tx m w = (r, w')" and P: "P (wdb w)"
  show "P (wdb w')"
  proof (cases r)
    case (Inl e)
    with run P show ?thesis by (simp add: in_tx_rollback)
  next
    case (Inr x)
    with run obtain w1 w2 where "next_fault w = (False, w1)" "m w1 = (Inr x, w2)"
      "next_fault w2 = (False, w')" by (auto elim: in_tx_commit)
    with m P show ?thesis by (auto dest: keepsD)
  qed
qed

lemma keeps_case_option [intro!]:
  "keeps P m \<Longrightarrow> (\<And>x. keeps P (k x)) \<Longrightarrow> keeps P (case v of None \<Rightarrow> m | Some x \<Rightarrow> k x)"
  by (cases v) auto

lemma keeps_case_sum [intro!]:
  "(\<And>e. keeps P (j e)) \<Longrightarrow> (\<And>x. keeps P (k x)) \<Longrightarrow> keeps P (case v of Inl e \<Rightarrow> j e | Inr x \<Rightarrow> k x)"
  by (cases v) auto

lemma keeps_if [intro!]:
  "(b \<Longrightarrow> keeps P m) \<Longrightarrow> (\<not> b \<Longrightarrow> keeps P n) \<Longrightarrow> keeps P (if b then m else n)"
  by auto

end
