(* ===== verification/Session.thy ===== *)
theory Session
  imports Database
begin

text \<open>
  The opaque-session store (\<open>internal/session/session.go\<close>): creation, validation with
  rolling renewal and an absolute cap, rotation, revocation and the periodic purge. The
  token hash (\<open>crypto.HashToken\<close>, SHA-256) is the parameter \<open>H\<close> of every operation; the
  random token and the clock readings are arguments. Shown here: what \<open>Validate\<close> accepts
  and writes on every path, that no history of operations lets a session outlive its cap,
  that revoked or disabled sessions stay dead, and that the purge touches no live session.
\<close>

record session_config =
  Lifetime :: duration
  RollingRenewalThreshold :: duration
  MaxLifetime :: duration

datatype kind = KindNotFound | KindExpired | KindValid

text \<open>\<open>user.User\<close>: the columns of \<open>users\<close> that leave the store (never the password hash).\<close>

record user =
  ID :: string
  Email :: string
  EmailVerified :: bool
  Disabled :: bool
  Name :: "string option"
  PictureURL :: "string option"
  CreatedAt :: gotime
  Metadata :: string

definition user_of_row :: "user_row \<Rightarrow> user" where
  "user_of_row u = \<lparr>ID = u_id u, Email = u_email u, EmailVerified = u_email_verified u,
     Disabled = u_disabled u, Name = u_name u, PictureURL = u_picture_url u,
     CreatedAt = u_created_at u, Metadata = u_metadata u\<rparr>"

record validate_result =
  r_kind :: kind
  r_user :: "user option"
  r_expires_at :: gotime
  r_renewed :: bool

record create_input =
  UserID :: string
  UserAgent :: "string option"
  IPFirst :: "string option"

record created =
  c_token :: string
  c_expires_at :: gotime

definition user_exists :: "db \<Rightarrow> string \<Rightarrow> bool" where
  "user_exists d uid \<longleftrightarrow> list_ex (\<lambda>u. u_id u = uid) (users d)"

definition insert_session :: "session_row \<Rightarrow> db \<Rightarrow> err + unit \<times> db" where
  "insert_session s d =
     (if \<not> key_free s_id_hash (s_id_hash s) (sessions d) then Inl ErrUniqueViolation
      else if \<not> user_exists d (s_user_id s) then Inl ErrForeignKey
      else Inr ((), d\<lparr>sessions := sql_insert s (sessions d)\<rparr>))"

definition create :: "session_config \<Rightarrow> (string \<Rightarrow> bytes) \<Rightarrow> string \<Rightarrow> gotime \<Rightarrow> create_input
    \<Rightarrow> created dbm" where
  "create cfg H token now inp =
     (let expiresAt = time_add now (Lifetime cfg) in
      bindM (exec (insert_session
        \<lparr>s_id_hash = H token, s_user_id = UserID inp, s_created_at = now,
         s_last_used_at = now, s_expires_at = expiresAt,
         s_user_agent = UserAgent inp, s_ip_first = IPFirst inp\<rparr>)) (\<lambda>_.
      retM \<lparr>c_token = token, c_expires_at = expiresAt\<rparr>))"

definition session_join_user :: "bytes \<Rightarrow> db \<Rightarrow> (session_row \<times> user_row) option" where
  "session_join_user h d =
     (case sql_row (\<lambda>s. s_id_hash s = h) (sessions d) of
        None \<Rightarrow> None
      | Some s \<Rightarrow> map_option (\<lambda>u. (s, u)) (sql_row (\<lambda>u. u_id u = s_user_id s) (users d)))"

definition delete_session :: "bytes \<Rightarrow> db \<Rightarrow> err + unit \<times> db" where
  "delete_session h d = Inr ((), d\<lparr>sessions := sql_delete (\<lambda>s. s_id_hash s = h) (sessions d)\<rparr>)"

definition touch_renew :: "gotime \<Rightarrow> gotime \<Rightarrow> session_row \<Rightarrow> session_row" where
  [row_defs]: "touch_renew now expiry s = s\<lparr>s_last_used_at := now, s_expires_at := expiry\<rparr>"

definition touch_only :: "gotime \<Rightarrow> session_row \<Rightarrow> session_row" where
  [row_defs]: "touch_only now s = s\<lparr>s_last_used_at := now\<rparr>"

definition update_session :: "bytes \<Rightarrow> (session_row \<Rightarrow> session_row) \<Rightarrow> db \<Rightarrow> err + unit \<times> db" where
  "update_session h f d = Inr ((), d\<lparr>sessions := sql_update (\<lambda>s. s_id_hash s = h) f (sessions d)\<rparr>)"

text \<open>The expiry a renewal at \<open>now\<close> asks for: one lifetime ahead, clamped to the cap.\<close>

definition renewal_expiry :: "session_config \<Rightarrow> gotime \<Rightarrow> gotime \<Rightarrow> gotime" where
  "renewal_expiry cfg now createdAt =
     (let newExpiry = time_add now (Lifetime cfg); limit = time_add createdAt (MaxLifetime cfg)
      in if MaxLifetime cfg > 0 \<and> After newExpiry limit then limit else newExpiry)"

text \<open>What \<open>Validate\<close> does with the session it found and its owner.\<close>

definition validate_row :: "session_config \<Rightarrow> bytes \<Rightarrow> gotime \<Rightarrow> session_row \<Rightarrow> user_row
    \<Rightarrow> validate_result dbm" where
  "validate_row cfg idHash now s u =
     (if u_disabled u \<or> \<not> After (s_expires_at s) now then
        bindM (ignoreM (exec (delete_session idHash))) (\<lambda>_.
        retM \<lparr>r_kind = KindExpired, r_user = None, r_expires_at = zero_time, r_renewed = False\<rparr>)
      else
        let valid = (\<lambda>e b. \<lparr>r_kind = KindValid, r_user = Some (user_of_row u),
                            r_expires_at = e, r_renewed = b\<rparr>)
        in if time_sub now (s_last_used_at s) \<ge> RollingRenewalThreshold cfg then
             let newExpiry = renewal_expiry cfg now (s_created_at s)
             in if After newExpiry (s_expires_at s) then
                  bindM (exec (update_session idHash (touch_renew now newExpiry)))
                    (\<lambda>_. retM (valid newExpiry True))
                else
                  bindM (exec (update_session idHash (touch_only now)))
                    (\<lambda>_. retM (valid (s_expires_at s) False))
           else retM (valid (s_expires_at s) False))"

definition Validate :: "session_config \<Rightarrow> (string \<Rightarrow> bytes) \<Rightarrow> gotime \<Rightarrow> string
    \<Rightarrow> validate_result dbm" where
  "Validate cfg H now token =
     (let idHash = H token in
      bindM (query (session_join_user idHash)) (\<lambda>row. case row of
        None \<Rightarrow> retM \<lparr>r_kind = KindNotFound, r_user = None, r_expires_at = zero_time, r_renewed = False\<rparr>
      | Some (s, u) \<Rightarrow> validate_row cfg idHash now s u))"

definition revoke_stmt :: "bytes \<Rightarrow> db \<Rightarrow> err + string \<times> db" where
  "revoke_stmt h d =
     (case sql_row (\<lambda>s. s_id_hash s = h) (sessions d) of
        None \<Rightarrow> Inr ([], d)
      | Some s \<Rightarrow> Inr (s_user_id s, d\<lparr>sessions := sql_delete (\<lambda>s. s_id_hash s = h) (sessions d)\<rparr>))"

definition revoke :: "(string \<Rightarrow> bytes) \<Rightarrow> string \<Rightarrow> string dbm" where
  "revoke H token = exec (revoke_stmt (H token))"

definition Rotate :: "session_config \<Rightarrow> (string \<Rightarrow> bytes) \<Rightarrow> string \<Rightarrow> string \<Rightarrow> gotime
    \<Rightarrow> create_input \<Rightarrow> created dbm" where
  "Rotate cfg H oldToken token now inp =
     bindM (revoke H oldToken) (\<lambda>_. create cfg H token now inp)"

definition revokeAllForUser :: "string \<Rightarrow> unit dbm" where
  "revokeAllForUser uid =
     exec (\<lambda>d. Inr ((), d\<lparr>sessions := sql_delete (\<lambda>s. s_user_id s = uid) (sessions d)\<rparr>))"

definition PurgeExpired_sessions :: "gotime \<Rightarrow> nat dbm" where
  "PurgeExpired_sessions dbnow =
     exec (\<lambda>d. Inr (rows_affected (\<lambda>s. s_expires_at s \<le> dbnow) (sessions d),
                    d\<lparr>sessions := sql_delete (\<lambda>s. s_expires_at s \<le> dbnow) (sessions d)\<rparr>))"

lemmas session_defs = create_def insert_session_def delete_session_def update_session_def
  revoke_def revoke_stmt_def Rotate_def revokeAllForUser_def PurgeExpired_sessions_def

text \<open>
  Every way the sessions table changes: the operations above, in any world (hence with any
  failures), and any change of the other tables. \<open>minted\<close> says which tokens the random
  generator hands out.
\<close>

inductive session_step :: "session_config \<Rightarrow> (string \<Rightarrow> bytes) \<Rightarrow> (string \<Rightarrow> bool)
    \<Rightarrow> world \<Rightarrow> world \<Rightarrow> bool"
  for cfg H minted where
  st_create: "minted token \<Longrightarrow> create cfg H token now inp w = (r, w') \<Longrightarrow>
     session_step cfg H minted w w'"
| st_validate: "Validate cfg H now token w = (v, w') \<Longrightarrow> session_step cfg H minted w w'"
| st_rotate: "minted token \<Longrightarrow> Rotate cfg H old token now inp w = (r, w') \<Longrightarrow>
     session_step cfg H minted w w'"
| st_revoke: "revoke H token w = (u, w') \<Longrightarrow> session_step cfg H minted w w'"
| st_revoke_all: "revokeAllForUser uid w = (x, w') \<Longrightarrow> session_step cfg H minted w w'"
| st_purge: "PurgeExpired_sessions now w = (n, w') \<Longrightarrow> session_step cfg H minted w w'"
| st_other: "sessions (wdb w') = sessions (wdb w) \<Longrightarrow> session_step cfg H minted w w'"

text \<open>No stored session extends past its cap, and a token hash names one session.\<close>

definition cap_configured :: "session_config \<Rightarrow> bool" where
  "cap_configured cfg \<longleftrightarrow> 0 < MaxLifetime cfg \<and> Lifetime cfg \<le> MaxLifetime cfg"

definition capped :: "session_config \<Rightarrow> db \<Rightarrow> bool" where
  "capped cfg d \<longleftrightarrow> unique_on s_id_hash (sessions d) \<and>
     (\<forall>s \<in> set (sessions d). s_expires_at s \<le> time_add (s_created_at s) (MaxLifetime cfg))"

subsection \<open>The statements keep the key\<close>

interpretation renew_row: keyed_update s_id_hash "touch_renew now expiry" for now expiry
  by unfold_locales (simp add: row_defs)

interpretation touch_row: keyed_update s_id_hash "touch_only now" for now
  by unfold_locales (simp add: row_defs)

lemma session_join_user_SomeD:
  assumes "session_join_user h d = Some (s, u)"
  shows "s \<in> set (sessions d)" and "s_id_hash s = h" and "u \<in> set (users d)"
    and "u_id u = s_user_id s"
  using assms by (auto simp: session_join_user_def split: option.splits dest: sql_row_SomeD)

lemma renewal_expiry_cap:
  "0 < MaxLifetime cfg \<Longrightarrow> renewal_expiry cfg now c \<le> time_add c (MaxLifetime cfg)"
  by (simp add: renewal_expiry_def Let_def After_def)

subsection \<open>The cap is an invariant\<close>

lemma capped_create:
  assumes "Lifetime cfg \<le> MaxLifetime cfg"
  shows "keeps (capped cfg) (create cfg H token now inp)"
  using assms
  by (auto simp: create_def insert_session_def capped_def time_add_def Let_def
      intro!: keeps_exec split: if_splits)

lemma capped_delete: "keeps (capped cfg) (exec (delete_session h))"
  by (auto simp: delete_session_def capped_def intro!: keeps_exec)

lemma capped_revoke: "keeps (capped cfg) (revoke H token)"
  by (auto simp: revoke_def revoke_stmt_def capped_def intro!: keeps_exec split: option.splits)

text \<open>
  Every outcome of \<open>Validate\<close>, with its effect on the database: the case analysis that the
  proofs below share.
\<close>

definition renewed_db :: "bytes \<Rightarrow> (session_row \<Rightarrow> session_row) \<Rightarrow> db \<Rightarrow> db" where
  "renewed_db h f d = d\<lparr>sessions := sql_update (\<lambda>s. s_id_hash s = h) f (sessions d)\<rparr>"

definition without_session :: "bytes \<Rightarrow> db \<Rightarrow> db" where
  "without_session h d = d\<lparr>sessions := sql_delete (\<lambda>s. s_id_hash s = h) (sessions d)\<rparr>"

lemma exec_update_cases:
  assumes "exec (update_session h f) w = (r, w')"
  shows "(r = Inr () \<and> wdb w' = renewed_db h f (wdb w)) \<or> (\<exists>e. r = Inl e \<and> wdb w' = wdb w)"
  using assms
  by (cases r) (auto simp: update_session_def renewed_db_def dest: exec_Inl_db exec_Inr_db)

lemma exec_delete_cases:
  "wdb (snd (exec (delete_session h) w)) = without_session h (wdb w) \<or>
   wdb (snd (exec (delete_session h) w)) = wdb w"
  by (cases "exec (delete_session h) w"; cases "fst (exec (delete_session h) w)")
    (auto simp: delete_session_def without_session_def dest: exec_Inl_db exec_Inr_db)

lemma Validate_cases [consumes 1, case_names backend absent dead renewed pinned fresh]:
  assumes run: "Validate cfg H now token w = (r, w')"
  obtains
    e where "r = Inl e" "wdb w' = wdb w"
  | res where "session_join_user (H token) (wdb w) = None" "r = Inr res"
      "r_kind res = KindNotFound" "wdb w' = wdb w"
  | s u res where "session_join_user (H token) (wdb w) = Some (s, u)"
      "u_disabled u \<or> s_expires_at s \<le> now" "r = Inr res" "r_kind res = KindExpired"
      "wdb w' = without_session (H token) (wdb w) \<or> wdb w' = wdb w"
  | s u res where "session_join_user (H token) (wdb w) = Some (s, u)"
      "\<not> u_disabled u" "now < s_expires_at s"
      "RollingRenewalThreshold cfg \<le> time_sub now (s_last_used_at s)"
      "s_expires_at s < renewal_expiry cfg now (s_created_at s)"
      "r = Inr res" "res = \<lparr>r_kind = KindValid, r_user = Some (user_of_row u),
         r_expires_at = renewal_expiry cfg now (s_created_at s), r_renewed = True\<rparr>"
      "wdb w' = renewed_db (H token) (touch_renew now (renewal_expiry cfg now (s_created_at s))) (wdb w)"
  | s u res where "session_join_user (H token) (wdb w) = Some (s, u)"
      "\<not> u_disabled u" "now < s_expires_at s"
      "RollingRenewalThreshold cfg \<le> time_sub now (s_last_used_at s)"
      "renewal_expiry cfg now (s_created_at s) \<le> s_expires_at s"
      "r = Inr res" "res = \<lparr>r_kind = KindValid, r_user = Some (user_of_row u),
         r_expires_at = s_expires_at s, r_renewed = False\<rparr>"
      "wdb w' = renewed_db (H token) (touch_only now) (wdb w)"
  | s u res where "session_join_user (H token) (wdb w) = Some (s, u)"
      "\<not> u_disabled u" "now < s_expires_at s"
      "time_sub now (s_last_used_at s) < RollingRenewalThreshold cfg"
      "r = Inr res" "res = \<lparr>r_kind = KindValid, r_user = Some (user_of_row u),
         r_expires_at = s_expires_at s, r_renewed = False\<rparr>"
      "wdb w' = wdb w"
proof -
  obtain q w1 where q: "query (session_join_user (H token)) w = (q, w1)" by fastforce
  then have d1: "wdb w1 = wdb w" by simp
  show thesis
  proof (cases q)
    case (Inl e)
    with run q d1 show thesis using that(1) [of e] by (auto simp: Validate_def Let_def)
  next
    case (Inr row)
    then have row: "row = session_join_user (H token) (wdb w)" using q query_eq_Inr [of _ w row w1] by simp
    show thesis
    proof (cases row)
      case None
      from run q Inr None obtain res where "w' = w1" and "r = Inr res" and "r_kind res = KindNotFound"
        by (auto simp: Validate_def Let_def retM_def)
      with row None d1 show thesis by (intro that(2) [of res]) simp_all
    next
      case (Some su)
      obtain s u where su: "su = (s, u)" by fastforce
      have step: "validate_row cfg (H token) now s u w1 = (r, w')"
        using run q Inr Some su by (simp add: Validate_def Let_def)
      have join: "session_join_user (H token) (wdb w) = Some (s, u)" using row Some su by simp
      consider (a) "u_disabled u \<or> s_expires_at s \<le> now"
        | (b) "\<not> u_disabled u" "now < s_expires_at s"
            "RollingRenewalThreshold cfg \<le> time_sub now (s_last_used_at s)"
            "s_expires_at s < renewal_expiry cfg now (s_created_at s)"
        | (c) "\<not> u_disabled u" "now < s_expires_at s"
            "RollingRenewalThreshold cfg \<le> time_sub now (s_last_used_at s)"
            "renewal_expiry cfg now (s_created_at s) \<le> s_expires_at s"
        | (d) "\<not> u_disabled u" "now < s_expires_at s"
            "time_sub now (s_last_used_at s) < RollingRenewalThreshold cfg"
        by linarith
      then show thesis
      proof cases
        case a
        then show thesis using step that(3) [OF join a] exec_delete_cases [of "H token" w1] d1
          by (auto simp: validate_row_def After_def bindM_def ignoreM_def retM_def)
      next
        case b
        obtain x w2 where x: "exec (update_session (H token)
            (touch_renew now (renewal_expiry cfg now (s_created_at s)))) w1 = (x, w2)" by fastforce
        from exec_update_cases [OF x] show thesis
          using step that(1) that(4) [OF join b] x b d1
          by (auto simp: validate_row_def After_def Let_def bindM_def retM_def)
      next
        case c
        obtain x w2 where x: "exec (update_session (H token) (touch_only now)) w1 = (x, w2)" by fastforce
        from exec_update_cases [OF x] show thesis
          using step that(1) that(5) [OF join c] x c d1
          by (auto simp: validate_row_def After_def Let_def bindM_def retM_def)
      next
        case d
        then show thesis using step that(6) [OF join d] d1
          by (auto simp: validate_row_def After_def Let_def retM_def)
      qed
    qed
  qed
qed

lemma capped_without: "capped cfg d \<Longrightarrow> capped cfg (without_session h d)"
  by (auto simp: capped_def without_session_def)

lemma capped_touch: "capped cfg d \<Longrightarrow> capped cfg (renewed_db h (touch_only now) d)"
  by (auto simp: capped_def renewed_db_def set_sql_update touch_row.unique_kept touch_only_def)

lemma capped_renew:
  assumes "capped cfg d" and "session_join_user h d = Some (s, u)"
    and "e \<le> time_add (s_created_at s) (MaxLifetime cfg)"
  shows "capped cfg (renewed_db h (touch_renew now e) d)"
proof -
  have "s' = s" if "s' \<in> set (sessions d)" "s_id_hash s' = h" for s'
    using assms(1) that session_join_user_SomeD [OF assms(2)] by (auto simp: capped_def dest: unique_onD)
  with assms(1,3) show ?thesis
    by (auto simp: capped_def renewed_db_def set_sql_update renew_row.unique_kept touch_renew_def)
qed

lemma capped_Validate:
  assumes "0 < MaxLifetime cfg"
  shows "keeps (capped cfg) (Validate cfg H now token)"
proof (rule keepsI)
  fix w r w'
  assume "Validate cfg H now token w = (r, w')" and c: "capped cfg (wdb w)"
  then show "capped cfg (wdb w')"
    by (cases rule: Validate_cases)
      (auto simp: capped_without capped_touch capped_renew renewal_expiry_cap [OF assms])
qed

text \<open>
  A predicate on the table that each single operation keeps is kept by every step. Both
  invariants below (the cap, the absence of a hash) go through this rule.
\<close>

lemma session_step_keeps:
  assumes "session_step cfg H minted w w'" and "Q (sessions (wdb w))"
    and create: "\<And>token now inp. minted token \<Longrightarrow> keeps (\<lambda>d. Q (sessions d)) (create cfg H token now inp)"
    and validate: "\<And>now token. keeps (\<lambda>d. Q (sessions d)) (Validate cfg H now token)"
    and delete: "\<And>p ss. Q ss \<Longrightarrow> Q (sql_delete p ss)"
  shows "Q (sessions (wdb w'))"
proof -
  have revoke: "keeps (\<lambda>d. Q (sessions d)) (revoke H token)" for token
    using delete by (auto simp: revoke_def revoke_stmt_def intro!: keeps_exec split: option.splits)
  have all: "keeps (\<lambda>d. Q (sessions d)) (revokeAllForUser uid)" for uid
    using delete by (auto simp: revokeAllForUser_def intro!: keeps_exec)
  have purge: "keeps (\<lambda>d. Q (sessions d)) (PurgeExpired_sessions now)" for now
    using delete by (auto simp: PurgeExpired_sessions_def intro!: keeps_exec)
  have rotate: "keeps (\<lambda>d. Q (sessions d)) (Rotate cfg H old token now inp)" if "minted token"
    for old token now inp
    using revoke create that by (auto simp: Rotate_def)
  from assms(1) show ?thesis
  proof cases
    case st_create
    then show ?thesis using create assms(2) by (blast dest: keepsD)
  next
    case st_validate
    then show ?thesis using validate assms(2) by (blast dest: keepsD)
  next
    case st_rotate
    then show ?thesis using rotate assms(2) by (blast dest: keepsD)
  next
    case st_revoke
    then show ?thesis using revoke assms(2) by (blast dest: keepsD)
  next
    case st_revoke_all
    then show ?thesis using all assms(2) by (blast dest: keepsD)
  next
    case st_purge
    then show ?thesis using purge assms(2) by (blast dest: keepsD)
  next
    case st_other
    then show ?thesis using assms(2) by simp
  qed
qed

lemma capped_step:
  assumes "cap_configured cfg" and "session_step cfg H minted w w'" and "capped cfg (wdb w)"
  shows "capped cfg (wdb w')"
proof -
  let ?Q = "\<lambda>ss. unique_on s_id_hash ss \<and>
     (\<forall>s \<in> set ss. s_expires_at s \<le> time_add (s_created_at s) (MaxLifetime cfg))"
  have "?Q (sessions (wdb w'))"
  proof (rule session_step_keeps [OF assms(2), of ?Q])
    show "?Q (sessions (wdb w))" using assms(3) by (simp add: capped_def)
    show "keeps (\<lambda>d. ?Q (sessions d)) (create cfg H token now inp)" for token now inp
      using capped_create [of cfg] assms(1) by (simp add: capped_def [abs_def] cap_configured_def)
    show "keeps (\<lambda>d. ?Q (sessions d)) (Validate cfg H now token)" for now token
      using capped_Validate [of cfg] assms(1) by (simp add: capped_def [abs_def] cap_configured_def)
  qed auto
  then show ?thesis by (simp add: capped_def)
qed

interpretation cap: preserved "session_step cfg H minted" "\<lambda>w. cap_configured cfg \<longrightarrow> capped cfg (wdb w)"
  for cfg H minted
  by unfold_locales (blast intro: capped_step)

subsection \<open>Absent sessions stay absent\<close>

definition absent :: "bytes \<Rightarrow> db \<Rightarrow> bool" where
  "absent h d \<longleftrightarrow> (\<forall>s \<in> set (sessions d). s_id_hash s \<noteq> h)"

lemma absent_join: "absent h d \<Longrightarrow> session_join_user h d = None"
  by (auto simp: absent_def session_join_user_def sql_row_None_iff split: option.splits
      dest: sql_row_SomeD)

lemma absent_without: "absent h (without_session h d)"
  by (simp add: absent_def without_session_def)

lemma absent_Validate: "keeps (absent h) (Validate cfg H now token)"
proof (rule keepsI)
  fix w r w'
  assume "Validate cfg H now token w = (r, w')" and "absent h (wdb w)"
  then show "absent h (wdb w')"
    by (cases rule: Validate_cases)
      (auto simp: absent_def without_session_def renewed_db_def set_sql_update row_defs)
qed

lemma absent_step:
  assumes "session_step cfg H minted w w'" and "absent h (wdb w)"
    and "\<And>t. minted t \<Longrightarrow> H t \<noteq> h"
  shows "absent h (wdb w')"
proof -
  have "\<forall>s \<in> set (sessions (wdb w')). s_id_hash s \<noteq> h"
  proof (rule session_step_keeps [OF assms(1)])
    show "\<forall>s \<in> set (sessions (wdb w)). s_id_hash s \<noteq> h" using assms(2) by (simp add: absent_def)
    show "keeps (\<lambda>d. \<forall>s \<in> set (sessions d). s_id_hash s \<noteq> h) (create cfg H token now inp)"
      if "minted token" for token now inp
      using assms(3) [OF that]
      by (fastforce simp: create_def insert_session_def Let_def intro!: keeps_exec split: if_splits)
    show "keeps (\<lambda>d. \<forall>s \<in> set (sessions d). s_id_hash s \<noteq> h) (Validate cfg H now token)" for now token
      using absent_Validate by (simp add: absent_def [abs_def])
  qed auto
  then show ?thesis by (simp add: absent_def)
qed

interpretation gone: preserved "session_step cfg H minted"
    "\<lambda>w. (\<forall>t. minted t \<longrightarrow> H t \<noteq> h) \<longrightarrow> absent h (wdb w)" for cfg H minted h
  by unfold_locales (blast intro: absent_step)

lemma revoke_absent: "revoke H token w = (Inr uid, w') \<Longrightarrow> absent (H token) (wdb w')"
  by (auto simp: revoke_def revoke_stmt_def absent_def sql_row_None_iff
      dest!: exec_InrD split: option.splits)

lemma Validate_absent_result:
  assumes "absent (H token) (wdb w)" and "Validate cfg H now token w = (Inr res, w')"
  shows "r_kind res = KindNotFound"
  using assms(2) absent_join [OF assms(1)] by (cases rule: Validate_cases) auto

subsection \<open>Properties\<close>

lemmas session_eval = create_def insert_session_def Validate_def validate_row_def
  session_join_user_def delete_session_def update_session_def revoke_def revoke_stmt_def
  renewal_expiry_def user_exists_def key_free_def sql_row_def sql_insert_def sql_update_def
  sql_delete_def After_def time_add_def time_sub_def sat64_def touch_renew_def touch_only_def
  Let_def dbm_nofault retM_def ignoreM_def bindM_def
  sample_world_def sample_user_def empty_db_def

definition sample_cfg :: session_config where
  "sample_cfg = \<lparr>Lifetime = 30, RollingRenewalThreshold = 5, MaxLifetime = 90\<rparr>"

definition sample_hash :: "string \<Rightarrow> bytes" where
  "sample_hash s = map of_char s"

definition sample_input :: create_input where
  "sample_input = \<lparr>UserID = ''u1'', UserAgent = None, IPFirst = None\<rparr>"

text \<open>
  C1. No history of session operations, with whatever failures of the database, keeps a stolen
  cookie alive: no session stored before or after a validation expires later than its creation
  plus \<open>MaxLifetime\<close>, and a validation that succeeds comes before that instant and reports an
  expiry (the one the cookie gets) that does not pass it either.
\<close>

theorem session_never_outlives_cap:
  assumes "cap_configured cfg"
    and "(session_step cfg H minted)\<^sup>*\<^sup>* w0 w" and "sessions (wdb w0) = []"
    and "Validate cfg H now token w = (Inr res, w')"
  shows "(\<forall>s \<in> set (sessions (wdb w)) \<union> set (sessions (wdb w')).
       s_expires_at s \<le> time_add (s_created_at s) (MaxLifetime cfg)) \<and>
     (r_kind res = KindValid \<longrightarrow>
       (\<exists>s \<in> set (sessions (wdb w)). s_id_hash s = H token) \<and>
       (\<forall>s \<in> set (sessions (wdb w)). s_id_hash s = H token \<longrightarrow>
          now < r_expires_at res \<and>
          r_expires_at res \<le> time_add (s_created_at s) (MaxLifetime cfg)))"
proof -
  have "capped cfg (wdb w0)" using assms(3) by (simp add: capped_def)
  then have c: "capped cfg (wdb w)" using cap.run_inv [OF assms(2)] assms(1) by blast
  then have c': "capped cfg (wdb w')" using capped_step [OF assms(1) st_validate [OF assms(4)]] by blast
  have the: "s = s'" if "session_join_user (H token) (wdb w) = Some (s', u)"
      "s \<in> set (sessions (wdb w))" "s_id_hash s = H token" for s s' u
    using c that session_join_user_SomeD [OF that(1)] by (auto simp: capped_def dest: unique_onD)
  have lim: "s_expires_at s \<le> time_add (s_created_at s) (MaxLifetime cfg)"
    if "s \<in> set (sessions (wdb w))" for s
    using c that by (simp add: capped_def)
  have pos: "0 < MaxLifetime cfg" using assms(1) by (simp add: cap_configured_def)
  from assms(4) have "r_kind res = KindValid \<longrightarrow>
       (\<exists>s \<in> set (sessions (wdb w)). s_id_hash s = H token) \<and>
       (\<forall>s \<in> set (sessions (wdb w)). s_id_hash s = H token \<longrightarrow>
          now < r_expires_at res \<and> r_expires_at res \<le> time_add (s_created_at s) (MaxLifetime cfg))"
    by (cases rule: Validate_cases)
      (use lim renewal_expiry_cap [OF pos] in \<open>auto dest: session_join_user_SomeD the\<close>)
  then show ?thesis using c c' by (auto simp: capped_def)
qed

theorem session_never_outlives_cap_witness:
  "\<exists>w res w'. (session_step (sample_cfg\<lparr>MaxLifetime := 40\<rparr>) sample_hash (\<lambda>_. True))\<^sup>*\<^sup>* sample_world w \<and>
     Validate (sample_cfg\<lparr>MaxLifetime := 40\<rparr>) sample_hash 20 ''t'' w = (Inr res, w') \<and>
     r_kind res = KindValid \<and> r_expires_at res = 45 \<and>
     (\<forall>s \<in> set (sessions (wdb w')). s_expires_at s \<le> s_created_at s + 40)"
proof -
  let ?cfg = "sample_cfg\<lparr>MaxLifetime := 40\<rparr>"
  let ?s = "\<lparr>s_id_hash = sample_hash ''t'', s_user_id = ''u1'', s_created_at = 5,
     s_last_used_at = 5, s_expires_at = 35, s_user_agent = None, s_ip_first = None\<rparr>"
  let ?w = "sample_world\<lparr>wdb := (wdb sample_world)\<lparr>sessions := [?s]\<rparr>\<rparr>"
  have "create ?cfg sample_hash ''t'' 5 sample_input sample_world
      = (Inr \<lparr>c_token = ''t'', c_expires_at = 35\<rparr>, ?w)"
    by (simp add: session_eval sample_cfg_def sample_input_def)
  then have "session_step ?cfg sample_hash (\<lambda>_. True) sample_world ?w"
    by (rule st_create [OF TrueI])
  then have run: "(session_step ?cfg sample_hash (\<lambda>_. True))\<^sup>*\<^sup>* sample_world ?w" by blast
  obtain res w' where v: "Validate ?cfg sample_hash 20 ''t'' ?w = (Inr res, w')"
    and k: "r_kind res = KindValid" "r_expires_at res = 45"
    by (simp add: session_eval sample_cfg_def)
  have "\<forall>s \<in> set (sessions (wdb w')). s_expires_at s \<le> s_created_at s + 40"
    using session_never_outlives_cap [OF _ run _ v]
    by (simp add: cap_configured_def sample_cfg_def sample_world_def empty_db_def time_add_def)
  with run v k show ?thesis by blast
qed

text \<open>
  C2. \<open>Validate\<close> accepts exactly the tokens of live sessions of enabled accounts: in every
  world an accepted token resolves to a stored session that has not expired and whose owner
  exists and is enabled, the identity returned is that owner's, and, when no call fails, every
  such token is accepted.
\<close>

theorem Validate_accepts_exactly_live_sessions:
  "(\<forall>res w'. Validate cfg H now token w = (Inr res, w') \<and> r_kind res = KindValid \<longrightarrow>
      (\<exists>s u. session_join_user (H token) (wdb w) = Some (s, u) \<and> \<not> u_disabled u \<and>
         now < s_expires_at s \<and> r_user res = Some (user_of_row u))) \<and>
   (faults w = [] \<and> session_join_user (H token) (wdb w) = Some (s, u) \<and> \<not> u_disabled u \<and>
      now < s_expires_at s \<longrightarrow>
      (\<exists>res w'. Validate cfg H now token w = (Inr res, w') \<and> r_kind res = KindValid))"
proof (intro conjI allI impI)
  fix res w'
  assume "Validate cfg H now token w = (Inr res, w') \<and> r_kind res = KindValid"
  then have run: "Validate cfg H now token w = (Inr res, w')" and k: "r_kind res = KindValid" by auto
  from run k show "\<exists>s u. session_join_user (H token) (wdb w) = Some (s, u) \<and> \<not> u_disabled u \<and>
         now < s_expires_at s \<and> r_user res = Some (user_of_row u)"
    by (cases rule: Validate_cases) auto
next
  assume "faults w = [] \<and> session_join_user (H token) (wdb w) = Some (s, u) \<and> \<not> u_disabled u \<and>
      now < s_expires_at s"
  then show "\<exists>res w'. Validate cfg H now token w = (Inr res, w') \<and> r_kind res = KindValid"
    by (auto simp: Validate_def validate_row_def update_session_def After_def Let_def dbm_nofault
        retM_def bindM_def)
qed

theorem Validate_accepts_exactly_live_sessions_witness:
  "\<exists>res w'. Validate sample_cfg sample_hash 20 ''t'' (sample_world\<lparr>wdb := (wdb sample_world)\<lparr>sessions :=
       [\<lparr>s_id_hash = sample_hash ''t'', s_user_id = ''u1'', s_created_at = 5, s_last_used_at = 5,
         s_expires_at = 35, s_user_agent = None, s_ip_first = None\<rparr>]\<rparr>\<rparr>) = (Inr res, w') \<and>
     r_kind res = KindValid \<and> r_user res = Some (user_of_row sample_user)"
proof -
  let ?s = "\<lparr>s_id_hash = sample_hash ''t'', s_user_id = ''u1'', s_created_at = 5, s_last_used_at = 5,
         s_expires_at = 35, s_user_agent = None, s_ip_first = None\<rparr> :: session_row"
  let ?w = "sample_world\<lparr>wdb := (wdb sample_world)\<lparr>sessions := [?s]\<rparr>\<rparr>"
  have j: "session_join_user (sample_hash ''t'') (wdb ?w) = Some (?s, sample_user)"
    by (simp add: session_join_user_def sql_row_def sample_world_def sample_user_def empty_db_def)
  note T = Validate_accepts_exactly_live_sessions [of sample_cfg sample_hash 20 "''t''" ?w ?s sample_user]
  have "\<not> u_disabled sample_user" by (simp add: sample_user_def)
  with T j obtain res w' where "Validate sample_cfg sample_hash 20 ''t'' ?w = (Inr res, w')"
      and "r_kind res = KindValid"
    by (auto simp: sample_world_def)
  with T j show ?thesis by auto
qed

text \<open>
  Renewal only ever extends a session, and the caller is told the truth about it: after an
  accepted validation the stored session of that token has the expiry that was returned, which is
  never earlier than the one stored before, and \<open>Renewed\<close> is set exactly when it is later. The
  sessions of all other tokens are untouched.
\<close>

theorem Validate_renewal_is_monotone_and_reported:
  assumes "unique_on s_id_hash (sessions (wdb w))"
    and "Validate cfg H now token w = (Inr res, w')" and "r_kind res = KindValid"
    and "sql_row (\<lambda>s. s_id_hash s = H token) (sessions (wdb w)) = Some s"
  shows "\<exists>s'. sql_row (\<lambda>s. s_id_hash s = H token) (sessions (wdb w')) = Some s' \<and>
      s_expires_at s' = r_expires_at res \<and> s_expires_at s \<le> r_expires_at res \<and>
      (r_renewed res \<longleftrightarrow> s_expires_at s < r_expires_at res) \<and>
      s_created_at s' = s_created_at s \<and> s_user_id s' = s_user_id s \<and>
      (\<forall>h. h \<noteq> H token \<longrightarrow> sql_row (\<lambda>s. s_id_hash s = h) (sessions (wdb w')) =
         sql_row (\<lambda>s. s_id_hash s = h) (sessions (wdb w)))"
proof -
  have row: "s' = s" if "session_join_user (H token) (wdb w) = Some (s', u)" for s' u
    using that assms(4) by (auto simp: session_join_user_def split: option.splits)
  have s: "s_id_hash s = H token" using assms(4) by (auto dest: sql_row_SomeD)
  from assms(2) show ?thesis
  proof (cases rule: Validate_cases)
    case (renewed s' u res')
    then show ?thesis using row [of s' u] assms(4) s
      by (auto simp: renewed_db_def renew_row.row_update_key row_defs)
  next
    case (pinned s' u res')
    then show ?thesis using row [of s' u] assms(4) s
      by (auto simp: renewed_db_def touch_row.row_update_key row_defs)
  next
    case (fresh s' u res')
    then show ?thesis using row [of s' u] assms(4) by auto
  qed (use assms(3) in auto)
qed

theorem Validate_renewal_is_monotone_and_reported_witness:
  "\<exists>res w' s'. Validate sample_cfg sample_hash 20 ''t'' (sample_world\<lparr>wdb := (wdb sample_world)\<lparr>sessions :=
       [\<lparr>s_id_hash = sample_hash ''t'', s_user_id = ''u1'', s_created_at = 5, s_last_used_at = 5,
         s_expires_at = 35, s_user_agent = None, s_ip_first = None\<rparr>]\<rparr>\<rparr>) = (Inr res, w') \<and>
     r_expires_at res = 50 \<and> r_renewed res \<and>
     sql_row (\<lambda>s. s_id_hash s = sample_hash ''t'') (sessions (wdb w')) = Some s' \<and> s_expires_at s' = 50"
proof -
  let ?s = "\<lparr>s_id_hash = sample_hash ''t'', s_user_id = ''u1'', s_created_at = 5, s_last_used_at = 5,
         s_expires_at = 35, s_user_agent = None, s_ip_first = None\<rparr> :: session_row"
  let ?w = "sample_world\<lparr>wdb := (wdb sample_world)\<lparr>sessions := [?s]\<rparr>\<rparr>"
  obtain res w' where v: "Validate sample_cfg sample_hash 20 ''t'' ?w = (Inr res, w')"
    and k: "r_kind res = KindValid" "r_expires_at res = 50"
    by (simp add: session_eval sample_cfg_def)
  have "unique_on s_id_hash (sessions (wdb ?w))" by (simp add: unique_on_def)
  from Validate_renewal_is_monotone_and_reported [OF this v k(1), of ?s]
  show ?thesis using v k by (auto simp: sql_row_def)
qed

text \<open>
  C4. Revocation is final: once \<open>Revoke\<close> has returned, no later sequence of session operations
  (in any interleaving and with any failures) makes the token valid again, as long as the random
  generator does not mint a colliding token.
\<close>

theorem revoked_session_stays_dead:
  assumes "revoke H token w = (Inr uid, w1)"
    and "(session_step cfg H minted)\<^sup>*\<^sup>* w1 w2" and "\<And>t. minted t \<Longrightarrow> H t \<noteq> H token"
    and "Validate cfg H now token w2 = (Inr res, w3)"
  shows "r_kind res = KindNotFound"
proof -
  have "absent (H token) (wdb w1)" using assms(1) by (rule revoke_absent)
  then have "absent (H token) (wdb w2)"
    using gone.run_inv [OF assms(2), of "H token"] assms(3) by blast
  then show ?thesis using assms(4) by (rule Validate_absent_result)
qed

theorem revoked_session_stays_dead_witness:
  "\<exists>w1 res w3. revoke sample_hash ''t'' (sample_world\<lparr>wdb := (wdb sample_world)\<lparr>sessions :=
       [\<lparr>s_id_hash = sample_hash ''t'', s_user_id = ''u1'', s_created_at = 5, s_last_used_at = 5,
         s_expires_at = 35, s_user_agent = None, s_ip_first = None\<rparr>]\<rparr>\<rparr>) = (Inr ''u1'', w1) \<and>
     Validate sample_cfg sample_hash 20 ''t'' w1 = (Inr res, w3) \<and> r_kind res = KindNotFound"
proof -
  let ?s = "\<lparr>s_id_hash = sample_hash ''t'', s_user_id = ''u1'', s_created_at = 5, s_last_used_at = 5,
         s_expires_at = 35, s_user_agent = None, s_ip_first = None\<rparr> :: session_row"
  let ?w = "sample_world\<lparr>wdb := (wdb sample_world)\<lparr>sessions := [?s]\<rparr>\<rparr>"
  have r: "revoke sample_hash ''t'' ?w = (Inr ''u1'', sample_world)"
    by (simp add: session_eval)
  obtain res w3 where v: "Validate sample_cfg sample_hash 20 ''t'' sample_world = (Inr res, w3)"
    by (simp add: session_eval)
  have "r_kind res = KindNotFound"
    using revoked_session_stays_dead [OF r, of sample_cfg "\<lambda>_. False" sample_world] v by blast
  with r v show ?thesis by blast
qed

text \<open>
  Validating a session of a disabled account refuses it and erases the row, so that clearing
  the flag afterwards does not bring the session back.
\<close>

lemma disabled_session_is_erased:
  assumes "faults w = []" and "session_join_user (H token) (wdb w) = Some (s, u)" and "u_disabled u"
    and "Validate cfg H now token w = (r, w1)"
    and "(session_step cfg H minted)\<^sup>*\<^sup>* w1 w2" and "\<And>t. minted t \<Longrightarrow> H t \<noteq> H token"
    and "Validate cfg H now' token w2 = (Inr res, w3)"
  shows "(\<exists>res. r = Inr res \<and> r_kind res = KindExpired) \<and> r_kind res = KindNotFound"
proof -
  have v: "r = Inr \<lparr>r_kind = KindExpired, r_user = None, r_expires_at = zero_time, r_renewed = False\<rparr> \<and>
      wdb w1 = without_session (H token) (wdb w)"
    using assms(1-4) by (auto simp: Validate_def validate_row_def Let_def query_nofault exec_nofault
        delete_session_def without_session_def ignoreM_def retM_def)
  then have "absent (H token) (wdb w1)" by (simp add: absent_without)
  then have "absent (H token) (wdb w2)"
    using gone.run_inv [OF assms(5), of "H token"] assms(6) by blast
  with v show ?thesis using assms(7) Validate_absent_result by auto
qed

text \<open>
  The session a token stands for at an instant, if any; the periodic purge does not change it at
  any later instant.
\<close>

definition live_join :: "gotime \<Rightarrow> bytes \<Rightarrow> db \<Rightarrow> (session_row \<times> user_row) option" where
  "live_join now h d =
     (case session_join_user h d of
        None \<Rightarrow> None
      | Some (s, u) \<Rightarrow> if u_disabled u \<or> s_expires_at s \<le> now then None else Some (s, u))"

lemma purge_keeps_live_join:
  assumes "unique_on s_id_hash (sessions d)" and "t \<le> now" and "users d' = users d"
    and "sessions d' = sql_delete (\<lambda>s. s_expires_at s \<le> t) (sessions d)"
  shows "live_join now h d' = live_join now h d"
  using sql_row_delete_unique [OF assms(1)] assms(2-4)
  by (auto simp: live_join_def session_join_user_def split: option.splits)

end
