(* ===== verification/Config.thy ===== *)
theory Config
  imports Go_Strings Session
begin

text \<open>
  Start-up configuration (\<open>internal/config/config.go\<close>). The environment is a function from names
  to values (empty when unset), \<open>url.Parse\<close> a parameter. An error keeps the variable and the value
  it complains about and drops the prose. \<open>BrandConfig.validate\<close> ranges over Go maps: the order of
  each range is an argument. Durations wrap at 64 bits, as \<open>time.Duration\<close> arithmetic does. Shown:
  what a configuration that was accepted guarantees, in production and everywhere.
\<close>

subsection \<open>URLs\<close>

record url =
  Scheme :: string
  Host :: string
  has_User :: bool
  Path :: string
  EscapedPath :: string
  RawQuery :: string
  Fragment :: string
  url_Query :: "string \<Rightarrow> string"

type_synonym url_parser = "string \<Rightarrow> url option"

definition Origin :: "url_parser \<Rightarrow> string \<Rightarrow> string" where
  "Origin Parse rawURL =
     (if rawURL = [] then []
      else case Parse rawURL of
        None \<Rightarrow> []
      | Some u \<Rightarrow> if Scheme u = [] \<or> Host u = [] then [] else Scheme u @ ''://'' @ Host u)"

subsection \<open>The configuration\<close>

record brand =
  LogoURL :: string
  PrimaryColor :: string
  PageBG :: string
  FontURL :: string

record oauth_config =
  ClientID :: string
  ClientSecret :: string
  RedirectURI :: string

record apple_config =
  apple_ClientID :: string
  TeamID :: string
  KeyID :: string
  PrivateKey :: string
  apple_RedirectURI :: string

record config =
  Env :: string
  ProjectSlug :: string
  ProjectDisplayName :: string
  DatabaseURL :: string
  BaseURL :: string
  ListenAddr :: string
  CookieName :: string
  CookieSecure :: bool
  CookieDomain :: string
  SessionLifetime :: duration
  SessionMaxLifetime :: duration
  c_RollingRenewalThreshold :: duration
  ServiceToken :: string
  AdminAPIKey :: string
  TrustProxy :: bool
  AuditStrict :: bool
  AuditRetention :: duration
  RedirectOrigins :: "string list"
  SignupPolicy :: string
  Google :: oauth_config
  GitHub :: oauth_config
  Apple :: apple_config
  EmailProvider :: string
  EmailFrom :: string
  EmailAPIKey :: string
  EmailOutboxKeys :: string
  ResendWebhookSecret :: string
  ThemeCSSURL :: string
  Brand :: brand
  OIDCEnabled :: bool

definition SignupPublic :: string where "SignupPublic = ''public''"
definition SignupDisabled :: string where "SignupDisabled = ''disabled''"
definition EnvDevelopment :: string where "EnvDevelopment = ''development''"
definition EnvProduction :: string where "EnvProduction = ''production''"
definition defaultSessionMaxLifetimeDays :: int where "defaultSessionMaxLifetimeDays = 90"
definition productionSecretMinLen :: nat where "productionSecretMinLen = 32"

definition productionSSLModes :: "string list" where
  "productionSSLModes = [''require'', ''verify-ca'', ''verify-full'']"

definition oauth_Enabled :: "oauth_config \<Rightarrow> bool" where
  "oauth_Enabled p \<longleftrightarrow> ClientID p \<noteq> [] \<and> ClientSecret p \<noteq> [] \<and> RedirectURI p \<noteq> []"

definition apple_Enabled :: "apple_config \<Rightarrow> bool" where
  "apple_Enabled a \<longleftrightarrow> apple_ClientID a \<noteq> [] \<and> TeamID a \<noteq> [] \<and> KeyID a \<noteq> [] \<and> PrivateKey a \<noteq> []
     \<and> apple_RedirectURI a \<noteq> []"

definition brand_Active :: "brand \<Rightarrow> bool" where
  "brand_Active b \<longleftrightarrow> LogoURL b \<noteq> [] \<or> PrimaryColor b \<noteq> [] \<or> PageBG b \<noteq> [] \<or> FontURL b \<noteq> []"

subsection \<open>Reading variables\<close>

type_synonym environ = "string \<Rightarrow> string"

definition getenv :: "environ \<Rightarrow> string \<Rightarrow> string \<Rightarrow> string" where
  "getenv env key dflt = (let v = TrimSpace (env key) in if v \<noteq> [] then v else dflt)"

definition getbool :: "environ \<Rightarrow> string \<Rightarrow> bool \<Rightarrow> bool" where
  "getbool env key dflt =
     (let v = TrimSpace (env key) in
      if v = [] then dflt else case ParseBool v of None \<Rightarrow> dflt | Some b \<Rightarrow> b)"

text \<open>A value and whether it was malformed.\<close>

definition getint :: "environ \<Rightarrow> string \<Rightarrow> int \<Rightarrow> int \<times> bool" where
  "getint env key dflt =
     (let v = TrimSpace (env key) in
      if v = [] then (dflt, False)
      else case Atoi v of None \<Rightarrow> (dflt, True) | Some n \<Rightarrow> (n, False))"

definition days :: "int \<Rightarrow> duration" where
  "days n = wrap64 (wrap64 (n * 24) * Hour)"

definition minutes :: "int \<Rightarrow> duration" where
  "minutes n = wrap64 (n * Minute)"

subsection \<open>Errors\<close>

datatype problem =
    NotAnInteger string
  | InsecureBaseURL string
  | InsecureCookie
  | SecretRequired string
  | SecretTooShort string nat
  | SecretsEqual
  | UnknownMailProvider string
  | MailKeyRequired
  | UndeliverableSender string
  | OutboxKeysRequired
  | WebhookSecretRequired
  | PartialOAuth string "string list" "string list"
  | SSLModeRequired
  | WeakSSLMode string
  | NonPositive string

datatype config_err =
    BadEnv string
  | NotAnOrigin string
  | NotBareOrigin string
  | BadSignup string
  | BadSlug string
  | BadCSSValue string string
  | BadBrandURL string string
  | DatabaseURLRequired
  | CapBelowLifetime duration duration
  | ProductionProblems "problem list"

subsection \<open>Validation\<close>

fun parse_origins :: "url_parser \<Rightarrow> string list \<Rightarrow> config_err + string list" where
  "parse_origins Parse [] = Inr []"
| "parse_origins Parse (raw # raws) =
     (let entry = TrimSpace raw in
      if entry = [] then parse_origins Parse raws
      else case Parse entry of
        None \<Rightarrow> Inl (NotAnOrigin entry)
      | Some u \<Rightarrow>
          if (Scheme u \<noteq> ''http'' \<and> Scheme u \<noteq> ''https'') \<or> Host u = [] then Inl (NotAnOrigin entry)
          else if has_User u \<or> (Path u \<noteq> [] \<and> Path u \<noteq> ''/'') \<or> RawQuery u \<noteq> [] \<or> Fragment u \<noteq> []
          then Inl (NotBareOrigin entry)
          else (case parse_origins Parse raws of
              Inl e \<Rightarrow> Inl e
            | Inr os \<Rightarrow> Inr ((Scheme u @ ''://'' @ ToLower (Host u)) # os)))"

definition parseRedirectOrigins :: "url_parser \<Rightarrow> string \<Rightarrow> config_err + string list" where
  "parseRedirectOrigins Parse raw = parse_origins Parse (Split CHR '','' raw)"

definition is_lower_alnum :: "char \<Rightarrow> bool" where
  "is_lower_alnum c \<longleftrightarrow> is_digit c \<or> (let n = (of_char c :: nat) in 97 \<le> n \<and> n \<le> 122)"

text \<open>\<open>^[a-z0-9](?:[a-z0-9-]{0,62}[a-z0-9])?$\<close>\<close>

definition projectSlugRe :: "string \<Rightarrow> bool" where
  "projectSlugRe s \<longleftrightarrow> s \<noteq> [] \<and> length s \<le> 64 \<and> is_lower_alnum (hd s) \<and> is_lower_alnum (last s)
     \<and> list_all (\<lambda>c. is_lower_alnum c \<or> c = CHR ''-'') s"

text \<open>\<open>^[A-Za-z0-9#(),.%\s-]+$\<close>; the class \<open>\s\<close> of RE2 has no vertical tab.\<close>

definition css_char :: "char \<Rightarrow> bool" where
  "css_char c \<longleftrightarrow> is_lower_alnum (lower_char c) \<or> List.member (''#(),.% -'' @ [CHR 0x09, CHR 0x0A, CHR 0x0C, CHR 0x0D]) c"

definition cssValueRe :: "string \<Rightarrow> bool" where
  "cssValueRe s \<longleftrightarrow> s \<noteq> [] \<and> list_all css_char s"

fun first_error :: "config_err option list \<Rightarrow> config_err option" where
  "first_error [] = None"
| "first_error (None # es) = first_error es"
| "first_error (Some e # es) = Some e"

definition check_css :: "string \<times> string \<Rightarrow> config_err option" where
  "check_css nv = (if snd nv \<noteq> [] \<and> \<not> cssValueRe (snd nv) then Some (BadCSSValue (fst nv) (snd nv)) else None)"

definition check_url :: "url_parser \<Rightarrow> string \<times> string \<Rightarrow> config_err option" where
  "check_url Parse nv =
     (if snd nv = [] then None
      else case Parse (snd nv) of
        None \<Rightarrow> Some (BadBrandURL (fst nv) (snd nv))
      | Some u \<Rightarrow> if (Scheme u \<noteq> ''http'' \<and> Scheme u \<noteq> ''https'') \<or> Host u = []
                   then Some (BadBrandURL (fst nv) (snd nv)) else None)"

text \<open>Ranging over a map of two entries: in either order.\<close>

definition ranged :: "bool \<Rightarrow> 'a \<Rightarrow> 'a \<Rightarrow> 'a list" where
  "ranged swapped a b = (if swapped then [b, a] else [a, b])"

definition brand_validate :: "url_parser \<Rightarrow> bool \<times> bool \<Rightarrow> brand \<Rightarrow> config_err option" where
  "brand_validate Parse order b =
     first_error
      (map check_css (ranged (fst order) (''SESAMO_BRAND_PRIMARY_COLOR'', PrimaryColor b) (''SESAMO_BRAND_PAGE_BG'', PageBG b))
       @ map (check_url Parse) (ranged (snd order) (''SESAMO_BRAND_LOGO_URL'', LogoURL b) (''SESAMO_BRAND_FONT_URL'', FontURL b)))"

definition checkOAuthBlock :: "string \<Rightarrow> (string \<times> string) list \<Rightarrow> problem option" where
  "checkOAuthBlock provider fs =
     (let missing = map fst (filter (\<lambda>f. snd f = []) fs);
          set_fields = map fst (filter (\<lambda>f. snd f \<noteq> []) fs)
      in if set_fields = [] \<or> missing = [] then None else Some (PartialOAuth provider set_fields missing))"

definition sslmode_pairs :: "string \<Rightarrow> string list" where
  "sslmode_pairs dsn = map (\<lambda>p. fst (snd (Cut CHR ''='' p)))
     (filter (\<lambda>p. snd (snd (Cut CHR ''='' p)) \<and> fst (Cut CHR ''='' p) = ''sslmode'') (Fields dsn))"

definition dsnSSLMode :: "url_parser \<Rightarrow> environ \<Rightarrow> string \<Rightarrow> string" where
  "dsnSSLMode Parse env dsn =
     (let fallback = TrimSpace (env ''PGSSLMODE'') in
      if HasPrefix dsn ''postgres://'' \<or> HasPrefix dsn ''postgresql://'' then
        (case Parse dsn of
           None \<Rightarrow> fallback
         | Some u \<Rightarrow> (let mode = TrimSpace (url_Query u ''sslmode'') in if mode \<noteq> [] then mode else fallback))
      else case sslmode_pairs dsn of
        [] \<Rightarrow> fallback
      | v # _ \<Rightarrow> TrimSpace v)"

definition check_secret :: "string \<times> string \<Rightarrow> problem list" where
  "check_secret f =
     (if snd f = [] then [SecretRequired (fst f)]
      else if length (snd f) < productionSecretMinLen then [SecretTooShort (fst f) (length (snd f))]
      else [])"

definition unless :: "bool \<Rightarrow> problem \<Rightarrow> problem list" where
  "unless ok p = (if ok then [] else [p])"

definition oauth_fields :: "string \<Rightarrow> oauth_config \<Rightarrow> (string \<times> string) list" where
  "oauth_fields name p =
     [(''SESAMO_'' @ name @ ''_CLIENT_ID'', ClientID p), (''SESAMO_'' @ name @ ''_CLIENT_SECRET'', ClientSecret p),
      (''SESAMO_'' @ name @ ''_REDIRECT_URI'', RedirectURI p)]"

definition apple_fields :: "apple_config \<Rightarrow> (string \<times> string) list" where
  "apple_fields a =
     [(''SESAMO_APPLE_CLIENT_ID'', apple_ClientID a), (''SESAMO_APPLE_TEAM_ID'', TeamID a),
      (''SESAMO_APPLE_KEY_ID'', KeyID a), (''SESAMO_APPLE_PRIVATE_KEY'', PrivateKey a),
      (''SESAMO_APPLE_REDIRECT_URI'', apple_RedirectURI a)]"

definition appendNonNil :: "problem list \<Rightarrow> problem option list \<Rightarrow> problem list" where
  "appendNonNil dst errs = dst @ List.map_filter id errs"

definition validateProduction :: "url_parser \<Rightarrow> environ \<Rightarrow> problem list \<Rightarrow> config \<Rightarrow> problem list" where
  "validateProduction Parse env intErrs c =
     (let general = intErrs
        @ unless (HasPrefix (BaseURL c) ''https://'') (InsecureBaseURL (BaseURL c))
        @ unless (CookieSecure c) InsecureCookie
        @ check_secret (''SESAMO_SERVICE_TOKEN'', ServiceToken c)
        @ check_secret (''SESAMO_ADMIN_API_KEY'', AdminAPIKey c)
        @ unless (ServiceToken c = [] \<or> ServiceToken c \<noteq> AdminAPIKey c) SecretsEqual
        @ unless (EmailProvider c = ''resend'' \<or> EmailProvider c = ''postmark'') (UnknownMailProvider (EmailProvider c))
        @ unless (EmailAPIKey c \<noteq> []) MailKeyRequired
        @ unless (EmailFrom c \<noteq> [] \<and> \<not> Contains (ToLower (EmailFrom c)) ''localhost'') (UndeliverableSender (EmailFrom c))
        @ unless (EmailOutboxKeys c \<noteq> []) OutboxKeysRequired
        @ unless (EmailProvider c \<noteq> ''resend'' \<or> ResendWebhookSecret c \<noteq> []) WebhookSecretRequired;
        mode = dsnSSLMode Parse env (DatabaseURL c)
      in appendNonNil general
           [checkOAuthBlock ''google'' (oauth_fields ''GOOGLE'' (Google c)),
            checkOAuthBlock ''github'' (oauth_fields ''GITHUB'' (GitHub c)),
            checkOAuthBlock ''apple'' (apple_fields (Apple c))]
         @ (if mode = [] then [SSLModeRequired]
            else unless (List.member productionSSLModes mode) (WeakSSLMode mode))
         @ unless (0 < SessionLifetime c) (NonPositive ''SESAMO_SESSION_LIFETIME_DAYS'')
         @ unless (0 < c_RollingRenewalThreshold c) (NonPositive ''SESAMO_ROLLING_RENEWAL_THRESHOLD_MINUTES'')
         @ unless (0 < SessionMaxLifetime c) (NonPositive ''SESAMO_SESSION_MAX_LIFETIME_DAYS''))"

subsection \<open>Loading\<close>

definition env_oauth :: "environ \<Rightarrow> string \<Rightarrow> oauth_config" where
  "env_oauth env name =
     \<lparr>ClientID = getenv env (''SESAMO_'' @ name @ ''_CLIENT_ID'') [],
      ClientSecret = getenv env (''SESAMO_'' @ name @ ''_CLIENT_SECRET'') [],
      RedirectURI = getenv env (''SESAMO_'' @ name @ ''_REDIRECT_URI'') []\<rparr>"

definition env_apple :: "environ \<Rightarrow> apple_config" where
  "env_apple env =
     \<lparr>apple_ClientID = getenv env ''SESAMO_APPLE_CLIENT_ID'' [], TeamID = getenv env ''SESAMO_APPLE_TEAM_ID'' [],
      KeyID = getenv env ''SESAMO_APPLE_KEY_ID'' [], PrivateKey = getenv env ''SESAMO_APPLE_PRIVATE_KEY'' [],
      apple_RedirectURI = getenv env ''SESAMO_APPLE_REDIRECT_URI'' []\<rparr>"

definition env_brand :: "environ \<Rightarrow> brand" where
  "env_brand env =
     \<lparr>LogoURL = getenv env ''SESAMO_BRAND_LOGO_URL'' [], PrimaryColor = getenv env ''SESAMO_BRAND_PRIMARY_COLOR'' [],
      PageBG = getenv env ''SESAMO_BRAND_PAGE_BG'' [], FontURL = getenv env ''SESAMO_BRAND_FONT_URL'' []\<rparr>"

text \<open>The literal at the top of \<open>load\<close>; durations and origins are filled in afterwards.\<close>

definition env_config :: "environ \<Rightarrow> config" where
  "env_config env =
     \<lparr>Env = getenv env ''SESAMO_ENV'' EnvDevelopment,
      ProjectSlug = getenv env ''SESAMO_PROJECT_SLUG'' ''sesamo'',
      ProjectDisplayName = getenv env ''SESAMO_PROJECT_DISPLAY_NAME'' (CHR ''S'' # CHR 0xC3 # CHR 0xA9 # ''samo''),
      DatabaseURL = getenv env ''SESAMO_DATABASE_URL'' [],
      BaseURL = getenv env ''SESAMO_BASE_URL'' ''http://localhost:7777'',
      ListenAddr = getenv env ''SESAMO_LISTEN_ADDR'' '':7777'',
      CookieName = getenv env ''SESAMO_COOKIE_NAME'' ''sid'',
      CookieSecure = getbool env ''SESAMO_COOKIE_SECURE'' False,
      CookieDomain = getenv env ''SESAMO_COOKIE_DOMAIN'' [],
      SessionLifetime = 0, SessionMaxLifetime = 0, c_RollingRenewalThreshold = 0,
      ServiceToken = getenv env ''SESAMO_SERVICE_TOKEN'' [],
      AdminAPIKey = getenv env ''SESAMO_ADMIN_API_KEY'' [],
      TrustProxy = getbool env ''SESAMO_TRUST_PROXY'' False,
      AuditStrict = getbool env ''SESAMO_AUDIT_STRICT'' False,
      AuditRetention = 0, RedirectOrigins = [],
      SignupPolicy = getenv env ''SESAMO_SIGNUP'' SignupPublic,
      Google = env_oauth env ''GOOGLE'', GitHub = env_oauth env ''GITHUB'', Apple = env_apple env,
      EmailProvider = getenv env ''SESAMO_EMAIL_PROVIDER'' ''log'',
      EmailFrom = getenv env ''SESAMO_EMAIL_FROM'' ''auth@localhost'',
      EmailAPIKey = getenv env ''SESAMO_EMAIL_API_KEY'' [],
      EmailOutboxKeys = getenv env ''SESAMO_EMAIL_OUTBOX_KEYS'' [],
      ResendWebhookSecret = getenv env ''SESAMO_RESEND_WEBHOOK_SECRET'' [],
      ThemeCSSURL = getenv env ''SESAMO_THEME_CSS_URL'' [],
      Brand = env_brand env,
      OIDCEnabled = getbool env ''SESAMO_OIDC_ENABLED'' False\<rparr>"

definition int_problem :: "string \<Rightarrow> int \<times> bool \<Rightarrow> problem list" where
  "int_problem key r = (if snd r then [NotAnInteger key] else [])"

text \<open>The integer variables: the durations they give and the parse failures.\<close>

definition with_durations :: "environ \<Rightarrow> config \<Rightarrow> config \<times> problem list" where
  "with_durations env c =
     (let prod = (Env c = EnvProduction);
          life = getint env ''SESAMO_SESSION_LIFETIME_DAYS'' 30;
          mins = getint env ''SESAMO_ROLLING_RENEWAL_THRESHOLD_MINUTES'' 15;
          cap = getint env ''SESAMO_SESSION_MAX_LIFETIME_DAYS'' defaultSessionMaxLifetimeDays;
          maxDays = (if \<not> prod \<and> fst cap \<le> 0 then defaultSessionMaxLifetimeDays else fst cap);
          rd = fst (getint env ''SESAMO_AUDIT_RETENTION_DAYS'' 0)
      in (c\<lparr>SessionLifetime := days (fst life), c_RollingRenewalThreshold := minutes (fst mins),
            SessionMaxLifetime := days maxDays, AuditRetention := (if 0 < rd then days rd else 0)\<rparr>,
          int_problem ''SESAMO_SESSION_LIFETIME_DAYS'' life
          @ int_problem ''SESAMO_ROLLING_RENEWAL_THRESHOLD_MINUTES'' mins
          @ int_problem ''SESAMO_SESSION_MAX_LIFETIME_DAYS'' cap))"

text \<open>The checks after the origins are parsed, in the order of \<open>load\<close>.\<close>

definition check_config :: "url_parser \<Rightarrow> bool \<times> bool \<Rightarrow> environ \<Rightarrow> bool \<Rightarrow> problem list \<Rightarrow> config
    \<Rightarrow> config_err + config" where
  "check_config Parse order env requireDatabase intErrs c =
     (if SignupPolicy c \<noteq> SignupPublic \<and> SignupPolicy c \<noteq> SignupDisabled then Inl (BadSignup (SignupPolicy c))
      else if \<not> projectSlugRe (ProjectSlug c) then Inl (BadSlug (ProjectSlug c))
      else case brand_validate Parse order (Brand c) of
        Some e \<Rightarrow> Inl e
      | None \<Rightarrow>
          if requireDatabase \<and> DatabaseURL c = [] then Inl DatabaseURLRequired
          else if SessionMaxLifetime c < SessionLifetime c
            then Inl (CapBelowLifetime (SessionMaxLifetime c) (SessionLifetime c))
          else if Env c = EnvProduction \<and> validateProduction Parse env intErrs c \<noteq> []
            then Inl (ProductionProblems (validateProduction Parse env intErrs c))
          else Inr c)"

definition load :: "url_parser \<Rightarrow> bool \<times> bool \<Rightarrow> environ \<Rightarrow> bool \<Rightarrow> config_err + config" where
  "load Parse order env requireDatabase =
     (let c0 = env_config env in
      if Env c0 \<noteq> EnvDevelopment \<and> Env c0 \<noteq> EnvProduction then Inl (BadEnv (Env c0))
      else case parseRedirectOrigins Parse (env ''SESAMO_REDIRECT_ORIGINS'') of
        Inl e \<Rightarrow> Inl e
      | Inr origins \<Rightarrow>
          let (c1, intErrs) = with_durations env c0
          in check_config Parse order env requireDatabase intErrs (c1\<lparr>RedirectOrigins := origins\<rparr>))"

text \<open>\<open>session.NewStore\<close> receives these three durations.\<close>

definition session_config_of :: "config \<Rightarrow> session_config" where
  "session_config_of c = \<lparr>Lifetime = SessionLifetime c, RollingRenewalThreshold = c_RollingRenewalThreshold c,
     MaxLifetime = SessionMaxLifetime c\<rparr>"

subsection \<open>What an accepted configuration guarantees\<close>

lemma check_config_accepts:
  assumes "check_config Parse order env requireDatabase intErrs c = Inr c'"
  shows "c' = c" and "SessionLifetime c \<le> SessionMaxLifetime c" and "brand_validate Parse order (Brand c) = None"
    and "Env c = EnvProduction \<Longrightarrow> validateProduction Parse env intErrs c = []"
    and "requireDatabase \<Longrightarrow> DatabaseURL c \<noteq> []"
  using assms by (simp_all add: check_config_def split: if_splits option.splits)

lemma load_accepts:
  assumes "load Parse order env requireDatabase = Inr c"
  obtains intErrs where "check_config Parse order env requireDatabase intErrs c = Inr c"
    and "parseRedirectOrigins Parse (env ''SESAMO_REDIRECT_ORIGINS'') = Inr (RedirectOrigins c)"
    and "intErrs = snd (with_durations env (env_config env))"
proof -
  obtain c1 intErrs where d: "with_durations env (env_config env) = (c1, intErrs)" by fastforce
  with assms obtain origins where os: "parseRedirectOrigins Parse (env ''SESAMO_REDIRECT_ORIGINS'') = Inr origins"
    and k: "check_config Parse order env requireDatabase intErrs (c1\<lparr>RedirectOrigins := origins\<rparr>) = Inr c"
    by (simp add: load_def Let_def split: if_splits sum.splits)
  have c: "c = c1\<lparr>RedirectOrigins := origins\<rparr>" by (rule check_config_accepts(1) [OF k])
  show thesis using k os d by (intro that) (simp_all add: c)
qed

lemma unless_Nil [simp]: "unless ok p = [] \<longleftrightarrow> ok"
  by (simp add: unless_def)

lemma check_secret_Nil [simp]: "check_secret f = [] \<longleftrightarrow> productionSecretMinLen \<le> length (snd f)"
  by (auto simp: check_secret_def productionSecretMinLen_def)

lemma checkOAuthBlock_None:
  "checkOAuthBlock provider fs = None \<longleftrightarrow> list_all (\<lambda>f. snd f = []) fs \<or> list_all (\<lambda>f. snd f \<noteq> []) fs"
  by (auto simp: checkOAuthBlock_def Let_def filter_empty_conv list_all_iff)

lemma appendNonNil_Nil [simp]: "appendNonNil dst es = [] \<longleftrightarrow> dst = [] \<and> list_all (\<lambda>e. e = None) es"
  by (induction es) (auto simp: appendNonNil_def map_filter_simps split: option.splits)

text \<open>A provider block is either complete, and then registered, or absent.\<close>

definition oauth_absent :: "oauth_config \<Rightarrow> bool" where
  "oauth_absent p \<longleftrightarrow> ClientID p = [] \<and> ClientSecret p = [] \<and> RedirectURI p = []"

lemma oauth_block: "checkOAuthBlock n (oauth_fields m p) = None \<longleftrightarrow> oauth_absent p \<or> oauth_Enabled p"
  by (simp add: checkOAuthBlock_None oauth_fields_def oauth_absent_def oauth_Enabled_def)

definition apple_absent :: "apple_config \<Rightarrow> bool" where
  "apple_absent a \<longleftrightarrow> apple_ClientID a = [] \<and> TeamID a = [] \<and> KeyID a = [] \<and> PrivateKey a = [] \<and> apple_RedirectURI a = []"

lemma apple_block: "checkOAuthBlock n (apple_fields a) = None \<longleftrightarrow> apple_absent a \<or> apple_Enabled a"
  by (simp add: checkOAuthBlock_None apple_fields_def apple_absent_def apple_Enabled_def)

text \<open>Exact durations: days are what they say up to 106751 days and wrap beyond.\<close>

lemma days_exact: "\<bar>n\<bar> \<le> 106751 \<Longrightarrow> days n = n * 24 * Hour"
  by (simp add: days_def Hour_def wrap64_id)

lemma days_wraps: "days 213504 = 1526290448384"
  by (simp add: days_def Hour_def wrap64_def)

lemma parse_origins_http:
  "parse_origins Parse raws = Inr os \<Longrightarrow> x \<in> set os \<Longrightarrow> HasPrefix x ''http://'' \<or> HasPrefix x ''https://''"
  by (induction raws arbitrary: os)
    (auto simp: Let_def HasPrefix_def split: if_splits option.splits sum.splits)

lemma validateProduction_Nil:
  assumes "validateProduction Parse env intErrs c = []"
  shows "intErrs = []" and "HasPrefix (BaseURL c) ''https://''" and "CookieSecure c"
    and "productionSecretMinLen \<le> length (ServiceToken c)" and "productionSecretMinLen \<le> length (AdminAPIKey c)"
    and "ServiceToken c \<noteq> AdminAPIKey c" and "EmailProvider c = ''resend'' \<or> EmailProvider c = ''postmark''"
    and "EmailOutboxKeys c \<noteq> []" and "EmailProvider c = ''resend'' \<Longrightarrow> ResendWebhookSecret c \<noteq> []"
    and "oauth_absent (Google c) \<or> oauth_Enabled (Google c)" and "oauth_absent (GitHub c) \<or> oauth_Enabled (GitHub c)"
    and "apple_absent (Apple c) \<or> apple_Enabled (Apple c)"
    and "dsnSSLMode Parse env (DatabaseURL c) \<in> set productionSSLModes"
    and "0 < SessionLifetime c" and "0 < c_RollingRenewalThreshold c" and "0 < SessionMaxLifetime c"
    and "EmailAPIKey c \<noteq> []" and "EmailFrom c \<noteq> []" and "\<not> Contains (ToLower (EmailFrom c)) ''localhost''"
  using assms
  by (simp_all add: validateProduction_def Let_def oauth_block apple_block productionSecretMinLen_def split: if_splits)
    auto

text \<open>A complete production environment, for a concrete instance.\<close>

definition sample_environ :: environ where
  "sample_environ = (\<lambda>_. [])(
     ''SESAMO_ENV'' := ''production'', ''SESAMO_DATABASE_URL'' := ''host=db sslmode=require'',
     ''SESAMO_BASE_URL'' := ''https://auth.example'', ''SESAMO_COOKIE_SECURE'' := ''true'',
     ''SESAMO_SERVICE_TOKEN'' := ''0123456789abcdef0123456789abcdef'',
     ''SESAMO_ADMIN_API_KEY'' := ''fedcba9876543210fedcba9876543210'',
     ''SESAMO_EMAIL_PROVIDER'' := ''postmark'', ''SESAMO_EMAIL_API_KEY'' := ''k'',
     ''SESAMO_EMAIL_FROM'' := ''auth@example'', ''SESAMO_EMAIL_OUTBOX_KEYS'' := ''k1:AAAA'')"

text \<open>The integer settings that are reported when they do not parse.\<close>

definition int_settings_parse :: "environ \<Rightarrow> bool" where
  "int_settings_parse env \<longleftrightarrow> (\<forall>key \<in> {''SESAMO_SESSION_LIFETIME_DAYS'', ''SESAMO_ROLLING_RENEWAL_THRESHOLD_MINUTES'',
     ''SESAMO_SESSION_MAX_LIFETIME_DAYS''}. TrimSpace (env key) = [] \<or> Atoi (TrimSpace (env key)) \<noteq> None)"

text \<open>
  A server that starts in production meets every requirement on production: its cookies are
  secure and its base URL is https, both bearer secrets are long and differ, mail goes
  through a real provider with its key, from a sender that can deliver, with a webhook secret
  where the provider signs events, queued mail is encrypted, the database connection is
  encrypted, every OAuth provider is either complete or absent, the integer settings parse,
  and its session durations meet the requirements of the session store, so that the
  cap on the age of a session is in force.
\<close>

lemma production_config_is_safe:
  assumes "load Parse order env requireDatabase = Inr c" and "Env c = EnvProduction"
  shows "cap_configured (session_config_of c) \<and> 0 < Lifetime (session_config_of c)
    \<and> CookieSecure c \<and> HasPrefix (BaseURL c) ''https://''
    \<and> 32 \<le> length (ServiceToken c) \<and> 32 \<le> length (AdminAPIKey c) \<and> ServiceToken c \<noteq> AdminAPIKey c
    \<and> EmailOutboxKeys c \<noteq> [] \<and> dsnSSLMode Parse env (DatabaseURL c) \<in> set productionSSLModes
    \<and> (oauth_absent (Google c) \<or> oauth_Enabled (Google c)) \<and> (oauth_absent (GitHub c) \<or> oauth_Enabled (GitHub c))
    \<and> (apple_absent (Apple c) \<or> apple_Enabled (Apple c))
    \<and> EmailProvider c \<in> {''resend'', ''postmark''} \<and> EmailAPIKey c \<noteq> []
    \<and> EmailFrom c \<noteq> [] \<and> \<not> Contains (ToLower (EmailFrom c)) ''localhost''
    \<and> (EmailProvider c = ''resend'' \<longrightarrow> ResendWebhookSecret c \<noteq> [])
    \<and> 0 < RollingRenewalThreshold (session_config_of c) \<and> int_settings_parse env \<and> (requireDatabase \<longrightarrow> DatabaseURL c \<noteq> [])"
proof -
  obtain intErrs where k: "check_config Parse order env requireDatabase intErrs c = Inr c"
    and ie: "intErrs = snd (with_durations env (env_config env))"
    by (rule load_accepts [OF assms(1)])
  note v = validateProduction_Nil [OF check_config_accepts(4) [OF k assms(2)]]
  have cap: "cap_configured (session_config_of c)"
    using v(16) check_config_accepts(2) [OF k] by (simp add: cap_configured_def session_config_of_def)
  have ints: "int_settings_parse env" using v(1) unfolding ie
    by (auto simp: with_durations_def Let_def int_problem_def int_settings_parse_def getint_def split: if_splits option.splits)
  have mail: "EmailProvider c \<in> {''resend'', ''postmark''}" using v(7) by auto
  show ?thesis using v cap ints mail check_config_accepts(5) [OF k] by (simp add: session_config_of_def productionSecretMinLen_def)
qed

lemma production_config_is_safe_sample:
  "\<exists>c. load (\<lambda>_. None) (False, False) sample_environ True = Inr c \<and> Env c = EnvProduction
     \<and> cap_configured (session_config_of c) \<and> SessionMaxLifetime c = 90 * 24 * Hour"
proof -
  have "case load (\<lambda>_. None) (False, False) sample_environ True of Inl e \<Rightarrow> False
      | Inr c \<Rightarrow> Env c = EnvProduction \<and> SessionMaxLifetime c = 90 * 24 * Hour" by code_simp
  then obtain c where c: "load (\<lambda>_. None) (False, False) sample_environ True = Inr c" "Env c = EnvProduction"
    "SessionMaxLifetime c = 90 * 24 * Hour" by (auto split: sum.splits)
  with production_config_is_safe [OF c(1,2)] show ?thesis by auto
qed

end
