(* ===== verification/Crypto.thy ===== *)
theory Crypto
  imports Go_Strings
begin

text \<open>
  Tokens, identifiers and passwords (\<open>internal/crypto/\<close>). Random bytes are arguments; Argon2id
  (\<open>idkey\<close>: password, salt, time, memory, threads, key length) and bcrypt (\<open>bcrypt\<close>: hash, password;
  no answer is an error other than a mismatch) are parameters, being third-party code. Shown: the
  shape of tokens and UUIDs, and that a password verifies against its own hash and against no
  other password that Argon2id tells apart.
\<close>

unbundle bit_operations_syntax

subsection \<open>Tokens (\<open>crypto.go\<close>)\<close>

definition TokenBytes :: nat where "TokenBytes = 32"

definition GenerateToken :: "bytes \<Rightarrow> string" where
  "GenerateToken rnd = EncodeToString RawURLEncoding rnd"

definition GenerateOAuthState :: "bytes \<Rightarrow> string" where
  "GenerateOAuthState rnd = EncodeToString RawURLEncoding rnd"

definition SafeEqual :: "bytes \<Rightarrow> bytes \<Rightarrow> bool" where
  "SafeEqual a b \<longleftrightarrow> length a = length b \<and> fold (OR) (map2 (XOR) a b) 0 = 0"

subsection \<open>Time-ordered identifiers (\<open>uuid.go\<close>)\<close>

definition hex_digit :: "nat \<Rightarrow> char" where
  "hex_digit n = (if n < 10 then char_of (48 + n) else char_of (87 + n))"

definition hex_byte :: "byte \<Rightarrow> string" where
  "hex_byte b = [hex_digit (unat b div 16), hex_digit (unat b mod 16)]"

definition hex :: "bytes \<Rightarrow> string" where
  "hex bs = concat (map hex_byte bs)"

definition formatUUID :: "bytes \<Rightarrow> string" where
  "formatUUID b = hex (take 4 b) @ ''-'' @ hex (take 2 (drop 4 b)) @ ''-'' @ hex (take 2 (drop 6 b)) @ ''-''
     @ hex (take 2 (drop 8 b)) @ ''-'' @ hex (take 6 (drop 10 b))"

text \<open>The low 48 bits of the milliseconds, big endian, then ten random bytes with version and variant set.\<close>

definition ms_bytes :: "64 word \<Rightarrow> bytes" where
  "ms_bytes ms = map (\<lambda>i. ucast (drop_bit (8 * i) ms)) [5, 4, 3, 2, 1, 0]"

definition UUIDv7 :: "64 word \<Rightarrow> bytes \<Rightarrow> string" where
  "UUIDv7 ms rnd =
     formatUUID (ms_bytes ms @ [(rnd ! 0 AND 0x0f) OR 0x70, rnd ! 1, (rnd ! 2 AND 0x3f) OR 0x80] @ drop 3 rnd)"

subsection \<open>Passwords (\<open>password.go\<close>)\<close>

type_synonym idkey_fn = "bytes \<Rightarrow> bytes \<Rightarrow> nat \<Rightarrow> nat \<Rightarrow> nat \<Rightarrow> nat \<Rightarrow> bytes"

definition argonMemory :: nat where "argonMemory = 64 * 1024"
definition argonTime :: nat where "argonTime = 1"
definition argonThreads :: nat where "argonThreads = 4"
definition argonKeyLen :: nat where "argonKeyLen = 32"
definition argonVersion :: int where "argonVersion = 19"

definition HashPassword :: "idkey_fn \<Rightarrow> bytes \<Rightarrow> string \<Rightarrow> string" where
  "HashPassword idkey salt password =
     ''$argon2id$v='' @ Itoa argonVersion @ ''$m='' @ Itoa (int argonMemory) @ '',t='' @ Itoa (int argonTime) @ '',p=''
     @ Itoa (int argonThreads) @ ''$'' @ EncodeToString RawStdEncoding salt @ ''$''
     @ EncodeToString RawStdEncoding (idkey (bytes_of password) salt argonTime argonMemory argonThreads argonKeyLen)"

text \<open>\<open>Sscanf\<close> with \<open>%d\<close>: a literal, then a number up to the first character that is no digit.\<close>

definition scan_lit :: "string \<Rightarrow> string \<Rightarrow> string option" where
  "scan_lit p s = (if HasPrefix s p then Some (drop (length p) s) else None)"

definition scan_uint :: "nat \<Rightarrow> string \<Rightarrow> (nat \<times> string) option" where
  "scan_uint bits s =
     (let t = dropWhile is_space s; ds = takeWhile is_digit t; v = nat (digits_value ds)
      in if ds = [] \<or> 2 ^ bits \<le> v then None else Some (v, dropWhile is_digit t))"

definition scan_int :: "string \<Rightarrow> int option" where
  "scan_int s =
     (let t = dropWhile is_space s;
          neg = (t \<noteq> [] \<and> hd t = CHR ''-'');
          u = (if t \<noteq> [] \<and> (hd t = CHR ''-'' \<or> hd t = CHR ''+'') then tl t else t);
          ds = takeWhile is_digit u; v = (if neg then - digits_value ds else digits_value ds)
      in if ds = [] \<or> v < - (2 ^ 63) \<or> 2 ^ 63 \<le> v then None else Some v)"

definition scan_params :: "string \<Rightarrow> (nat \<times> nat \<times> nat) option" where
  "scan_params s =
     (case scan_lit ''m='' s of None \<Rightarrow> None | Some s1 \<Rightarrow>
      (case scan_uint 32 s1 of None \<Rightarrow> None | Some (m, s2) \<Rightarrow>
      (case scan_lit '',t='' s2 of None \<Rightarrow> None | Some s3 \<Rightarrow>
      (case scan_uint 32 s3 of None \<Rightarrow> None | Some (t, s4) \<Rightarrow>
      (case scan_lit '',p='' s4 of None \<Rightarrow> None | Some s5 \<Rightarrow>
      (case scan_uint 8 s5 of None \<Rightarrow> None | Some (p, _) \<Rightarrow> Some (m, t, p)))))))"

text \<open>\<open>None\<close> is an error: a malformed hash is neither a match nor a mismatch.\<close>

definition verifyArgon2id :: "idkey_fn \<Rightarrow> string \<Rightarrow> string \<Rightarrow> bool option" where
  "verifyArgon2id idkey password phc =
     (let parts = Split CHR ''$'' phc in
      if length parts \<noteq> 6 then None
      else case scan_lit ''v='' (parts ! 2) of None \<Rightarrow> None | Some v \<Rightarrow>
        (case scan_int v of None \<Rightarrow> None | Some version \<Rightarrow>
         if version \<noteq> argonVersion then None
         else (case scan_params (parts ! 3) of None \<Rightarrow> None | Some (m, t, p) \<Rightarrow>
           (case DecodeString RawStdEncoding (parts ! 4) of None \<Rightarrow> None | Some salt \<Rightarrow>
           (case DecodeString RawStdEncoding (parts ! 5) of None \<Rightarrow> None | Some want \<Rightarrow>
             Some (SafeEqual (idkey (bytes_of password) salt t m p (length want)) want))))))"

record verification =
  v_ok :: bool
  v_needsRehash :: bool

definition VerifyPassword :: "idkey_fn \<Rightarrow> (string \<Rightarrow> string \<Rightarrow> bool option) \<Rightarrow> string \<Rightarrow> string
    \<Rightarrow> verification option" where
  "VerifyPassword idkey bcrypt password phc =
     (if HasPrefix phc ''$argon2id$'' then
        map_option (\<lambda>ok. \<lparr>v_ok = ok, v_needsRehash = False\<rparr>) (verifyArgon2id idkey password phc)
      else if HasPrefix phc ''$2a$'' \<or> HasPrefix phc ''$2b$'' \<or> HasPrefix phc ''$2y$'' then
        (case bcrypt phc password of
           None \<Rightarrow> None
         | Some False \<Rightarrow> Some \<lparr>v_ok = False, v_needsRehash = False\<rparr>
         | Some True \<Rightarrow> Some \<lparr>v_ok = True, v_needsRehash = True\<rparr>)
      else None)"

definition dummyArgonHash :: string where
  "dummyArgonHash = ''$argon2id$v=19$m=65536,t=1,p=4$AAAAAAAAAAAAAAAAAAAAAA$'' @ ''R6dQ4F1mQ8m0d3o0r0kE2v0c0Xq7yQ1mYrJ8t8a0aA''"

subsection \<open>Comparison\<close>

lemma word_or_zero: "a OR b = 0 \<longleftrightarrow> a = 0 \<and> b = 0" for a b :: byte
  by (auto simp: bit_eq_iff bit_or_iff)

lemma fold_or_zero: "fold (OR) xs a = 0 \<longleftrightarrow> a = 0 \<and> (\<forall>x \<in> set xs. x = 0)" for a :: byte
  by (induction xs arbitrary: a) (auto simp: word_or_zero)

lemma word_xor_zero: "a XOR b = 0 \<longleftrightarrow> a = b" for a b :: byte
  by (auto simp: bit_eq_iff bit_xor_iff)

lemma map2_xor_zero: "length a = length b \<Longrightarrow> (\<forall>x \<in> set (map2 (XOR) a b). x = 0) \<longleftrightarrow> a = b" for a b :: bytes
  by (induction a b rule: list_induct2) (auto simp: word_xor_zero)

lemma SafeEqual_iff [simp]: "SafeEqual a b \<longleftrightarrow> a = b"
  using map2_xor_zero [of a b] by (auto simp: SafeEqual_def fold_or_zero)

lemma bytes_of_eq_iff: "SafeEqual (bytes_of a) (bytes_of b) \<longleftrightarrow> a = b"
  by simp

subsection \<open>Shapes\<close>

lemma GenerateToken_length: "length rnd = TokenBytes \<Longrightarrow> length (GenerateToken rnd) = 43"
  by (simp add: GenerateToken_def EncodeToString_def encode_gen_length_raw TokenBytes_def)

lemma GenerateToken_inj: "GenerateToken a = GenerateToken b \<Longrightarrow> a = b"
  unfolding GenerateToken_def by (metis Decode_Encode option.inject)

lemma hex_length [simp]: "length (hex bs) = 2 * length bs"
  by (induction bs) (simp_all add: hex_def hex_byte_def)

lemma UUIDv7_length: "length rnd = 10 \<Longrightarrow> length (UUIDv7 ms rnd) = 36"
  by (simp add: UUIDv7_def formatUUID_def ms_bytes_def)

lemma hex_digit_inj: "i < 16 \<Longrightarrow> j < 16 \<Longrightarrow> hex_digit i = hex_digit j \<longleftrightarrow> i = j"
proof
  assume ij: "i < 16" "j < 16" "hex_digit i = hex_digit j"
  have v: "(of_char (hex_digit n) :: nat) = (if n < 10 then 48 + n else 87 + n)" if "n < 16" for n
    using that by (simp add: hex_digit_def of_char_of)
  from ij(3) have "(of_char (hex_digit i) :: nat) = of_char (hex_digit j)" by simp
  with v [OF ij(1)] v [OF ij(2)] show "i = j" by (auto split: if_splits)
qed simp

subsection \<open>A hash reads back\<close>

lemma enc_table_std: "i < 64 \<Longrightarrow> enc_table RawStdEncoding i \<noteq> CHR ''$''"
proof -
  assume i: "i < 64"
  have "dec_table RawStdEncoding CHR ''$'' = None" by (simp add: dec_char_def)
  with b64.dec_enc [OF i, of RawStdEncoding] show ?thesis by (metis option.distinct(1))
qed

lemma b64_no_dollar: "CHR ''$'' \<notin> set (EncodeToString RawStdEncoding bs)"
proof
  assume d: "CHR ''$'' \<in> set (EncodeToString RawStdEncoding bs)"
  have "CHR ''$'' \<in> enc_table RawStdEncoding ` {..<64} \<union> (if False then {CHR ''=''} else {})"
    by (rule subsetD [OF encode_gen_set]) (use d in \<open>simp only: EncodeToString_def padded.simps\<close>)
  then obtain i where "i < 64" and i: "CHR ''$'' = enc_table RawStdEncoding i" by (auto simp del: enc_table.simps)
  from enc_table_std [OF this(1)] i show False by metis
qed

lemma HashPassword_parts:
  "Split CHR ''$'' (HashPassword idkey salt password) =
     [[], ''argon2id'', ''v=19'', ''m=65536,t=1,p=4'', EncodeToString RawStdEncoding salt,
      EncodeToString RawStdEncoding (idkey (bytes_of password) salt 1 65536 4 32)]"
proof -
  let ?s = "EncodeToString RawStdEncoding salt"
  let ?h = "EncodeToString RawStdEncoding (idkey (bytes_of password) salt 1 65536 4 32)"
  have i: "Itoa argonVersion = ''19''" "Itoa (int argonMemory) = ''65536''" "Itoa (int argonTime) = ''1''"
    "Itoa (int argonThreads) = ''4''"
    by (simp_all add: Itoa_def nat_string.simps argonVersion_def argonMemory_def argonTime_def argonThreads_def char_of_def bit_Suc_0_iff)
  have "HashPassword idkey salt password = Join CHR ''$'' [[], ''argon2id'', ''v=19'', ''m=65536,t=1,p=4'', ?s, ?h]"
    by (simp add: HashPassword_def i) (simp add: argonTime_def argonMemory_def argonThreads_def argonKeyLen_def)
  then show ?thesis by (simp only:) (rule Split_Join, simp_all add: b64_no_dollar)
qed

lemma scan_sample:
  "scan_lit ''v='' ''v=19'' = Some ''19''" "scan_int ''19'' = Some argonVersion"
  "scan_params ''m=65536,t=1,p=4'' = Some (65536, 1, 4)"
  by (simp_all add: scan_params_def scan_lit_def HasPrefix_def scan_uint_def scan_int_def digits_value_def
      is_digit_def is_space_def argonVersion_def Let_def)

text \<open>
  C35. Passwords verify. Hashing a password and verifying it succeeds, without asking for a new
  hash, whatever the salt; verifying another password against that hash succeeds exactly if
  Argon2id maps both to the same key, and never ends in an error.
\<close>

theorem VerifyPassword_HashPassword:
  assumes "\<forall>pw s t m p n. length (idkey pw s t m p n) = n"
  shows "VerifyPassword idkey bcrypt password (HashPassword idkey salt chosen) =
    Some \<lparr>v_ok = (idkey (bytes_of password) salt 1 65536 4 32 = idkey (bytes_of chosen) salt 1 65536 4 32),
          v_needsRehash = False\<rparr>"
proof -
  have "HasPrefix (HashPassword idkey salt chosen) ''$argon2id$''"
    by (simp add: HasPrefix_def HashPassword_def)
  then show ?thesis using assms
    by (simp add: VerifyPassword_def verifyArgon2id_def HashPassword_parts scan_sample Let_def)
qed

theorem VerifyPassword_HashPassword_witness:
  "(\<forall>pw s t m p n. length ((\<lambda>pw s t m p n. take n (pw @ replicate n 0)) pw s t m p n :: bytes) = n) \<and>
   VerifyPassword (\<lambda>pw s t m p n. take n (pw @ replicate n 0)) (\<lambda>_ _. None) ''secret''
     (HashPassword (\<lambda>pw s t m p n. take n (pw @ replicate n 0)) [1, 2] ''secret'') =
   Some \<lparr>v_ok = True, v_needsRehash = False\<rparr>"
proof -
  let ?k = "\<lambda>pw s t m p n. take n (pw @ replicate n 0) :: bytes"
  have k: "\<forall>pw s t m p n. length (?k pw s t m p n) = n" by (simp add: min_def)
  from VerifyPassword_HashPassword [of ?k "\<lambda>_ _. None" "''secret''" "[1, 2]" "''secret''"] k show ?thesis by simp
qed

end
