(* ===== verification/Rate_Limit.thy ===== *)
theory Rate_Limit
  imports Database
begin

text \<open>
  The token-bucket limiter (\<open>internal/ratelimit/ratelimit.go\<close>) over the
  \<open>rate_limit_buckets\<close> table, and the two rules of \<open>internal/http/ratelimit.go\<close>. Bucket levels
  are exact rationals where the code and Postgres use double precision. \<open>dbnow\<close> is \<open>now()\<close> of
  the transaction. Shown: the classic token-bucket bound on the requests let through, over
  any schedule of calls on any keys and with any failures; that other keys are not affected;
  that a refusal reports a wait after which a token is there; and that purging stale
  buckets changes no level.
\<close>

record rule =
  Capacity :: rat
  RefillPerSec :: rat

definition loginIPRule :: rule where
  "loginIPRule = \<lparr>Capacity = 20, RefillPerSec = 20 / 60\<rparr>"

definition loginIdentityRule :: rule where
  "loginIdentityRule = \<lparr>Capacity = 5, RefillPerSec = 5 / 60\<rparr>"

text \<open>\<open>EXTRACT(EPOCH FROM interval)\<close>, and \<open>Duration.Seconds\<close>: nanoseconds as seconds.\<close>

definition secs :: "int \<Rightarrow> rat" where
  "secs ns = of_int ns / 1000000000"

definition refill :: "rule \<Rightarrow> gotime \<Rightarrow> bucket_row \<Rightarrow> bucket_row" where
  [row_defs]: "refill rl dbnow b = b\<lparr>b_tokens := min (Capacity rl)
     (b_tokens b + secs (dbnow - b_updated_at b) * RefillPerSec rl), b_updated_at := dbnow\<rparr>"

definition spend :: "bucket_row \<Rightarrow> bucket_row" where
  [row_defs]: "spend b = b\<lparr>b_tokens := b_tokens b - 1\<rparr>"

definition upsert_bucket :: "string \<Rightarrow> rule \<Rightarrow> gotime \<Rightarrow> db \<Rightarrow> err + rat \<times> db" where
  "upsert_bucket key rl dbnow d =
     (case sql_row (\<lambda>b. b_key b = key) (rate_limit_buckets d) of
        None \<Rightarrow> Inr (Capacity rl, d\<lparr>rate_limit_buckets := sql_insert
          \<lparr>b_key = key, b_tokens = Capacity rl, b_updated_at = dbnow\<rparr> (rate_limit_buckets d)\<rparr>)
      | Some b \<Rightarrow> Inr (b_tokens (refill rl dbnow b), d\<lparr>rate_limit_buckets :=
          sql_update (\<lambda>b. b_key b = key) (refill rl dbnow) (rate_limit_buckets d)\<rparr>))"

definition spend_bucket :: "string \<Rightarrow> db \<Rightarrow> err + unit \<times> db" where
  "spend_bucket key d = Inr ((), d\<lparr>rate_limit_buckets :=
     sql_update (\<lambda>b. b_key b = key) spend (rate_limit_buckets d)\<rparr>)"

text \<open>Nanoseconds until the bucket holds one token; the conversion to \<open>Duration\<close> truncates.\<close>

definition wait_time :: "rule \<Rightarrow> rat \<Rightarrow> duration" where
  "wait_time rl tokens = \<lfloor>(1 - tokens) / RefillPerSec rl * 1000000000\<rfloor>"

definition Allow :: "string \<Rightarrow> rule \<Rightarrow> gotime \<Rightarrow> (bool \<times> duration) dbm" where
  "Allow key rl dbnow = in_tx
     (bindM (exec (upsert_bucket key rl dbnow)) (\<lambda>tokens.
        if 1 \<le> tokens then bindM (exec (spend_bucket key)) (\<lambda>_. retM (True, 0))
        else retM (False, wait_time rl tokens)))"

definition PurgeStale :: "duration \<Rightarrow> gotime \<Rightarrow> nat dbm" where
  "PurgeStale olderThan dbnow =
     exec (\<lambda>d. Inr (rows_affected (\<lambda>b. b_updated_at b < dbnow - olderThan) (rate_limit_buckets d),
       d\<lparr>rate_limit_buckets := sql_delete (\<lambda>b. b_updated_at b < dbnow - olderThan) (rate_limit_buckets d)\<rparr>))"

text \<open>A schedule of calls, and how many of them on one key were let through.\<close>

type_synonym call = "string \<times> rule \<times> gotime"

fun allow_run :: "call list \<Rightarrow> world \<Rightarrow> (err + bool \<times> duration) list \<times> world" where
  "allow_run [] w = ([], w)"
| "allow_run ((key, rl, t) # cs) w =
     (case Allow key rl t w of (r, w1) \<Rightarrow>
      case allow_run cs w1 of (rs, w2) \<Rightarrow> (r # rs, w2))"

definition granted :: "(err + bool \<times> duration) \<Rightarrow> bool" where
  "granted r \<longleftrightarrow> (case r of Inl _ \<Rightarrow> False | Inr (ok, _) \<Rightarrow> ok)"

fun granted_on :: "string \<Rightarrow> call list \<Rightarrow> (err + bool \<times> duration) list \<Rightarrow> nat" where
  "granted_on k ((key, _, _) # cs) (r # rs) = (if key = k \<and> granted r then 1 else 0) + granted_on k cs rs"
| "granted_on k _ _ = 0"

text \<open>The tokens a bucket offers at time \<open>t\<close>; a bucket that does not exist is full.\<close>

definition avail :: "string \<Rightarrow> rule \<Rightarrow> db \<Rightarrow> gotime \<Rightarrow> rat" where
  "avail key rl d t =
     (case sql_row (\<lambda>b. b_key b = key) (rate_limit_buckets d) of
        None \<Rightarrow> Capacity rl
      | Some b \<Rightarrow> b_tokens (refill rl t b))"

definition rule_ok :: "rule \<Rightarrow> bool" where
  "rule_ok rl \<longleftrightarrow> 0 \<le> Capacity rl \<and> 0 \<le> RefillPerSec rl"

text \<open>The stored level of the key is not negative and not stamped after \<open>t\<close>.\<close>

definition bucket_ok :: "string \<Rightarrow> db \<Rightarrow> gotime \<Rightarrow> bool" where
  "bucket_ok key d t \<longleftrightarrow> (case sql_row (\<lambda>b. b_key b = key) (rate_limit_buckets d) of
     None \<Rightarrow> True | Some b \<Rightarrow> 0 \<le> b_tokens b \<and> b_updated_at b \<le> t)"

subsection \<open>One call\<close>

interpretation refill_row: keyed_update b_key "refill rl t" for rl t
  by unfold_locales (simp add: row_defs)

interpretation spend_row: keyed_update b_key spend
  by unfold_locales (simp add: row_defs)

lemma secs_simps [simp]: "secs 0 = 0" "secs (a + b) = secs a + secs b" "secs (a - b) = secs a - secs b"
  by (simp_all add: secs_def field_simps)

lemma secs_nonneg [simp]: "0 \<le> secs a \<longleftrightarrow> 0 \<le> a"
  by (simp add: secs_def)

lemma secs_mono: "a \<le> b \<Longrightarrow> secs a \<le> secs b"
  by (simp add: secs_def divide_right_mono)

lemma Allow_failure: "Allow key rl t w = (Inl e, w') \<Longrightarrow> wdb w' = wdb w"
  by (simp add: Allow_def in_tx_rollback)

text \<open>What a call that commits did: it saw \<open>avail\<close> tokens and took one if there was one.\<close>

definition allow_db :: "string \<Rightarrow> rule \<Rightarrow> gotime \<Rightarrow> db \<Rightarrow> db" where
  "allow_db key rl t d = snd (projr (upsert_bucket key rl t d))"

lemma upsert_avail: "upsert_bucket key rl t d = Inr (avail key rl d t, allow_db key rl t d)"
  by (simp add: upsert_bucket_def avail_def allow_db_def split: option.splits)

lemma Allow_commit:
  assumes "Allow key rl t w = (Inr x, w')"
  shows "x = (if 1 \<le> avail key rl (wdb w) t then (True, 0)
              else (False, wait_time rl (avail key rl (wdb w) t)))"
    and "wdb w' = (if 1 \<le> avail key rl (wdb w) t
           then (allow_db key rl t (wdb w))\<lparr>rate_limit_buckets :=
              sql_update (\<lambda>b. b_key b = key) spend (rate_limit_buckets (allow_db key rl t (wdb w)))\<rparr>
           else allow_db key rl t (wdb w))"
proof -
  obtain w1 w2 where f: "next_fault w = (False, w1)" "next_fault w2 = (False, w')"
    and m: "bindM (exec (upsert_bucket key rl t)) (\<lambda>tokens.
        if 1 \<le> tokens then bindM (exec (spend_bucket key)) (\<lambda>_. retM (True, 0))
        else retM (False, wait_time rl tokens)) w1 = (Inr x, w2)"
    using assms by (auto simp: Allow_def elim: in_tx_commit)
  from m obtain tok w3 where u: "exec (upsert_bucket key rl t) w1 = (Inr tok, w3)"
    and k: "(if 1 \<le> tok then bindM (exec (spend_bucket key)) (\<lambda>_. retM (True, 0))
        else retM (False, wait_time rl tok)) w3 = (Inr x, w2)"
    by (auto simp: bindM_eq_Inr)
  have tok: "tok = avail key rl (wdb w) t" "wdb w3 = allow_db key rl t (wdb w)"
    using exec_InrD [OF u] f(1) by (auto simp: upsert_avail)
  have d: "wdb w' = wdb w2" using f(2) by simp
  show "x = (if 1 \<le> avail key rl (wdb w) t then (True, 0)
              else (False, wait_time rl (avail key rl (wdb w) t)))"
    using k tok by (auto simp: bindM_eq_Inr retM_def split: if_splits)
  show "wdb w' = (if 1 \<le> avail key rl (wdb w) t
           then (allow_db key rl t (wdb w))\<lparr>rate_limit_buckets :=
              sql_update (\<lambda>b. b_key b = key) spend (rate_limit_buckets (allow_db key rl t (wdb w)))\<rparr>
           else allow_db key rl t (wdb w))"
    using k tok d by (auto simp: bindM_eq_Inr retM_def spend_bucket_def dest!: exec_InrD split: if_splits)
qed

lemma allow_db_row:
  "sql_row (\<lambda>b. b_key b = k) (rate_limit_buckets (allow_db key rl t d)) =
     (if k = key then Some \<lparr>b_key = key, b_tokens = avail key rl d t, b_updated_at = t\<rparr>
      else sql_row (\<lambda>b. b_key b = k) (rate_limit_buckets d))"
proof (cases "sql_row (\<lambda>b. b_key b = key) (rate_limit_buckets d)")
  case None
  then have "key_free b_key key (rate_limit_buckets d)"
    by (auto simp: key_free_iff sql_row_None_iff)
  then show ?thesis using None
    by (auto simp: allow_db_def upsert_bucket_def avail_def sql_row_insert_free sql_insert_def
        sql_row_append split: option.splits) (auto simp: sql_row_def)
next
  case (Some b)
  then have "b_key b = key" by (auto dest: sql_row_SomeD)
  with Some show ?thesis
    by (auto simp: allow_db_def upsert_bucket_def avail_def refill_row.row_update_key row_defs)
qed

text \<open>The row of every key after a call.\<close>

lemma Allow_row:
  assumes "Allow key rl t w = (Inr x, w')"
  shows "sql_row (\<lambda>b. b_key b = k) (rate_limit_buckets (wdb w')) =
     (if k = key then Some \<lparr>b_key = key,
          b_tokens = avail key rl (wdb w) t - (if granted (Inr x) then 1 else 0), b_updated_at = t\<rparr>
      else sql_row (\<lambda>b. b_key b = k) (rate_limit_buckets (wdb w)))"
  using Allow_commit [OF assms] allow_db_row [of k key rl t "wdb w"]
  by (auto simp: granted_def spend_row.row_update_key row_defs)

lemma avail_later:
  assumes "rule_ok rl" and "t \<le> t'"
  shows "avail key rl d t' \<le> avail key rl d t + secs (t' - t) * RefillPerSec rl"
proof -
  have "0 \<le> secs (t' - t) * RefillPerSec rl" using assms by (simp add: rule_ok_def secs_mono)
  then show ?thesis by (auto simp: avail_def row_defs algebra_simps min_def split: option.splits)
qed

lemma avail_nonneg:
  assumes "rule_ok rl" and "bucket_ok key d t"
  shows "0 \<le> avail key rl d t"
proof (cases "sql_row (\<lambda>b. b_key b = key) (rate_limit_buckets d)")
  case None
  with assms(1) show ?thesis by (simp add: avail_def rule_ok_def)
next
  case (Some b)
  with assms(2) have b: "0 \<le> b_tokens b" "0 \<le> secs (t - b_updated_at b)"
    by (simp_all add: bucket_ok_def secs_mono)
  then have "0 \<le> b_tokens b + secs (t - b_updated_at b) * RefillPerSec rl"
    using assms(1) by (intro add_nonneg_nonneg mult_nonneg_nonneg) (simp_all add: rule_ok_def)
  with Some assms(1) show ?thesis by (simp add: avail_def refill_def rule_ok_def)
qed

lemma avail_capacity: "avail key rl d t \<le> Capacity rl"
  by (auto simp: avail_def row_defs split: option.splits)

lemma bucket_ok_later: "bucket_ok key d t \<Longrightarrow> t \<le> t' \<Longrightarrow> bucket_ok key d t'"
  by (auto simp: bucket_ok_def split: option.splits)

text \<open>What a call on \<open>key\<close> leaves for the next one, whatever its outcome.\<close>

lemma Allow_step:
  assumes "Allow key rl t w = (r, w')" and "rule_ok rl" and "bucket_ok key (wdb w) t"
  shows "avail key rl (wdb w') t = avail key rl (wdb w) t - (if granted r then 1 else 0)"
    and "bucket_ok key (wdb w') t"
proof -
  note nn = avail_nonneg [OF assms(2,3)] and cap = avail_capacity [of key rl "wdb w" t]
  have "avail key rl (wdb w') t = avail key rl (wdb w) t - (if granted r then 1 else 0) \<and>
      bucket_ok key (wdb w') t"
  proof (cases r)
    case (Inl e)
    with assms show ?thesis by (simp add: Allow_failure granted_def)
  next
    case (Inr x)
    have "granted r \<longrightarrow> 1 \<le> avail key rl (wdb w) t"
      using Allow_commit(1) [of key rl t w x w'] assms(1) Inr by (auto simp: granted_def)
    then show ?thesis using Allow_row [of key rl t w x w' key] assms(1) Inr nn cap
      by (auto simp: avail_def [of key rl "wdb w'"] bucket_ok_def row_defs)
  qed
  then show "avail key rl (wdb w') t = avail key rl (wdb w) t - (if granted r then 1 else 0)"
    and "bucket_ok key (wdb w') t" by blast+
qed

lemma Allow_other_key:
  assumes "Allow key' rl' t w = (r, w')" and "key' \<noteq> key"
  shows "avail key rl (wdb w') = avail key rl (wdb w)" and "bucket_ok key (wdb w') = bucket_ok key (wdb w)"
proof -
  have "sql_row (\<lambda>b. b_key b = key) (rate_limit_buckets (wdb w')) =
        sql_row (\<lambda>b. b_key b = key) (rate_limit_buckets (wdb w))"
    using assms by (cases r) (auto simp: Allow_failure Allow_row)
  then show "avail key rl (wdb w') = avail key rl (wdb w)"
    and "bucket_ok key (wdb w') = bucket_ok key (wdb w)"
    by (auto simp: avail_def bucket_ok_def)
qed

lemma allow_run_bound:
  assumes "rule_ok rl" and "\<And>r t. (key, r, t) \<in> set cs \<Longrightarrow> r = rl"
    and "sorted (t0 # map (snd \<circ> snd) cs)" and "\<And>c. c \<in> set cs \<Longrightarrow> snd (snd c) \<le> T" and "t0 \<le> T"
    and "bucket_ok key (wdb w) t0" and "allow_run cs w = (rs, w')"
  shows "of_nat (granted_on key cs rs) \<le> avail key rl (wdb w) t0 + secs (T - t0) * RefillPerSec rl"
  using assms(2-)
proof (induction cs arbitrary: t0 w rs)
  case Nil
  have "0 \<le> secs (T - t0) * RefillPerSec rl"
    using assms(1) Nil.prems(4) by (simp add: rule_ok_def secs_mono)
  with Nil avail_nonneg [OF assms(1) Nil.prems(5)] show ?case by auto
next
  case (Cons c cs)
  obtain k r t where c: "c = (k, r, t)" by (cases c)
  obtain x w1 where x: "Allow k r t w = (x, w1)" by fastforce
  obtain ys where ys: "allow_run cs w1 = (ys, w')" and rs: "rs = x # ys"
    using Cons.prems(6) x c by (auto split: prod.splits)
  have t: "t0 \<le> t" using Cons.prems(2) c by simp
  have tT: "t \<le> T" using Cons.prems(3) [of c] c by simp
  have ok: "bucket_ok key (wdb w) t" using Cons.prems(5) t by (rule bucket_ok_later)
  have next_ok: "bucket_ok key (wdb w1) t \<and>
      avail key rl (wdb w1) t = avail key rl (wdb w) t - (if k = key \<and> granted x then 1 else 0)"
  proof (cases "k = key")
    case True
    then have "r = rl" using Cons.prems(1) c by auto
    with True x show ?thesis using Allow_step [OF _ assms(1) ok] by auto
  next
    case False
    with x ok show ?thesis using Allow_other_key by auto
  qed
  have "of_nat (granted_on key cs ys) \<le> avail key rl (wdb w1) t + secs (T - t) * RefillPerSec rl"
    using Cons.prems(1-3) c next_ok tT ys by (intro Cons.IH) auto
  with next_ok avail_later [OF assms(1) t, of key "wdb w"] rs c
  show ?case by (auto simp: algebra_simps split: if_splits)
qed

subsection \<open>Properties\<close>

text \<open>
  C11. The limiter never oversubscribes. Over any schedule of calls, on any keys and with any
  failures of the database, the calls on one key that are let through between \<open>t0\<close> and \<open>T\<close> are
  at most the capacity plus what the bucket refills in that time.
\<close>

theorem limiter_never_oversubscribes:
  assumes "rule_ok rl" and "\<And>r t. (key, r, t) \<in> set cs \<Longrightarrow> r = rl"
    and "sorted (t0 # map (snd \<circ> snd) cs)" and "\<And>c. c \<in> set cs \<Longrightarrow> snd (snd c) \<le> T" and "t0 \<le> T"
    and "bucket_ok key (wdb w) t0" and "allow_run cs w = (rs, w')"
  shows "of_nat (granted_on key cs rs) \<le> Capacity rl + secs (T - t0) * RefillPerSec rl"
proof -
  have "of_nat (granted_on key cs rs) \<le> avail key rl (wdb w) t0 + secs (T - t0) * RefillPerSec rl"
    by (rule allow_run_bound [OF assms(1) _ assms(3) _ assms(5-7)]) (use assms(2,4) in blast)+
  with avail_capacity [of key rl "wdb w" t0] show ?thesis by linarith
qed

theorem limiter_never_oversubscribes_witness:
  "\<exists>rs w'. allow_run (replicate 7 (''login_id:a'', loginIdentityRule, 0)) sample_world = (rs, w') \<and>
     granted_on ''login_id:a'' (replicate 7 (''login_id:a'', loginIdentityRule, 0)) rs \<le> 5"
proof -
  let ?cs = "replicate 7 (''login_id:a'', loginIdentityRule, 0 :: gotime)"
  obtain rs w' where run: "allow_run ?cs sample_world = (rs, w')" by fastforce
  have "of_nat (granted_on ''login_id:a'' ?cs rs) \<le>
      Capacity loginIdentityRule + secs (0 - 0) * RefillPerSec loginIdentityRule"
    by (rule limiter_never_oversubscribes [OF _ _ _ _ _ _ run])
      (auto simp: rule_ok_def loginIdentityRule_def bucket_ok_def sample_world_def empty_db_def sql_row_def
        numeral_nat)
  then have "(of_nat (granted_on ''login_id:a'' ?cs rs) :: rat) \<le> of_nat 5"
    by (simp add: loginIdentityRule_def)
  then have "granted_on ''login_id:a'' ?cs rs \<le> 5" using of_nat_le_iff by blast
  with run show ?thesis by blast
qed

text \<open>
  C12. Functional behaviour of one call when nothing fails: it is let through exactly when the
  refilled, clamped level holds a token, it then takes exactly one, and a refused caller that
  comes back after the reported wait (rounded up by one nanosecond, since the conversion
  truncates) is let through.
\<close>

theorem Allow_takes_one_token:
  assumes "faults w = []" and "rule_ok rl" and "0 < RefillPerSec rl" and "1 \<le> Capacity rl"
  shows "\<exists>ok wait w'. Allow key rl t w = (Inr (ok, wait), w') \<and>
    (ok \<longleftrightarrow> 1 \<le> avail key rl (wdb w) t) \<and>
    sql_row (\<lambda>b. b_key b = key) (rate_limit_buckets (wdb w')) = Some \<lparr>b_key = key,
       b_tokens = avail key rl (wdb w) t - (if ok then 1 else 0), b_updated_at = t\<rparr> \<and>
    (\<not> ok \<longrightarrow> (\<exists>w''. Allow key rl (t + wait + 1) w' = (Inr (True, 0), w'')))"
proof -
  have run: "\<exists>ok wait w'. Allow key rl s v = (Inr (ok, wait), w') \<and> faults w' = []" if "faults v = []" for s v
  proof -
    let ?v1 = "v\<lparr>wdb := allow_db key rl s (wdb v)\<rparr>"
    have "exec (upsert_bucket key rl s) v = (Inr (avail key rl (wdb v) s), ?v1)"
      using that by (simp add: exec_nofault upsert_avail)
    then show ?thesis using that
      by (auto simp: Allow_def in_tx_def exec_nofault spend_bucket_def retM_def bindM_def)
  qed
  obtain ok wait w' where A: "Allow key rl t w = (Inr (ok, wait), w')" and f': "faults w' = []"
    using run assms(1) by blast
  note commit = Allow_commit(1) [OF A] and row = Allow_row [OF A, of key]
  let ?a = "avail key rl (wdb w) t"
  have again: "\<exists>w''. Allow key rl (t + wait + 1) w' = (Inr (True, 0), w'')" if "\<not> ok"
  proof -
    have a: "?a < 1" and wt: "wait = \<lfloor>(1 - ?a) / RefillPerSec rl * 1000000000\<rfloor>"
      using commit that by (auto simp: wait_time_def split: if_splits)
    have "(1 - ?a) / RefillPerSec rl * 1000000000 < of_int (wait + 1)" unfolding wt by linarith
    then have "1 - ?a \<le> secs (wait + 1) * RefillPerSec rl"
      using assms(3) by (simp add: secs_def field_simps)
    then have "1 \<le> avail key rl (wdb w') (t + wait + 1)"
      using row that assms(4) by (simp add: avail_def refill_def granted_def algebra_simps)
    moreover obtain ok2 wait2 w2 where B: "Allow key rl (t + wait + 1) w' = (Inr (ok2, wait2), w2)"
      using run f' by blast
    ultimately show ?thesis using Allow_commit(1) [OF B] by auto
  qed
  have "ok \<longleftrightarrow> 1 \<le> ?a" using commit by (auto split: if_splits)
  with A row again show ?thesis by (auto simp: granted_def)
qed

theorem Allow_takes_one_token_witness:
  "\<exists>ok wait w'. Allow ''k'' loginIdentityRule 3 sample_world = (Inr (ok, wait), w') \<and> ok \<and>
     sql_row (\<lambda>b. b_key b = ''k'') (rate_limit_buckets (wdb w')) =
       Some \<lparr>b_key = ''k'', b_tokens = 4, b_updated_at = 3\<rparr>"
proof -
  have "faults sample_world = []" "rule_ok loginIdentityRule" "0 < RefillPerSec loginIdentityRule"
    "1 \<le> Capacity loginIdentityRule"
    by (simp_all add: sample_world_def rule_ok_def loginIdentityRule_def)
  moreover have "avail ''k'' loginIdentityRule (wdb sample_world) 3 = 5"
    by (simp add: avail_def sample_world_def empty_db_def sql_row_def loginIdentityRule_def)
  ultimately show ?thesis using Allow_takes_one_token [of sample_world loginIdentityRule "''k''" 3] by auto
qed

text \<open>
  Purging stale buckets changes no level: with a retention in which a bucket refills completely
  (24 hours is enough for both rules of the server), every key offers at every later instant
  what it would have offered without the purge.
\<close>

lemma purge_keeps_avail:
  assumes "unique_on b_key (rate_limit_buckets d)" and "rule_ok rl"
    and "Capacity rl \<le> secs age * RefillPerSec rl" and "bucket_ok key d t0" and "t0 \<le> t"
    and "rate_limit_buckets d' = sql_delete (\<lambda>b. b_updated_at b < t0 - age) (rate_limit_buckets d)"
  shows "avail key rl d' t = avail key rl d t"
proof (cases "sql_row (\<lambda>b. b_key b = key) (rate_limit_buckets d)")
  case None
  with assms(6) show ?thesis by (simp add: avail_def sql_row_delete_unique [OF assms(1)])
next
  case (Some b)
  show ?thesis
  proof (cases "b_updated_at b < t0 - age")
    case True
    have "secs age * RefillPerSec rl \<le> secs (t - b_updated_at b) * RefillPerSec rl"
      using True assms(2,5) by (intro mult_right_mono secs_mono) (auto simp: rule_ok_def)
    moreover have "0 \<le> b_tokens b" using assms(4) Some by (simp add: bucket_ok_def)
    ultimately have "Capacity rl \<le> b_tokens b + secs (t - b_updated_at b) * RefillPerSec rl"
      using assms(3) by linarith
    with True Some assms(6) show ?thesis
      by (simp add: avail_def sql_row_delete_unique [OF assms(1)] refill_def)
  next
    case False
    with Some assms(6) show ?thesis by (simp add: avail_def sql_row_delete_unique [OF assms(1)])
  qed
qed

lemma login_rules_refill:
  "rule_ok loginIPRule" "Capacity loginIPRule \<le> secs (24 * Hour) * RefillPerSec loginIPRule"
  "rule_ok loginIdentityRule" "Capacity loginIdentityRule \<le> secs (24 * Hour) * RefillPerSec loginIdentityRule"
  by (simp_all add: loginIPRule_def loginIdentityRule_def rule_ok_def secs_def Hour_def)

text \<open>What a call decides depends on the level it sees and on the failures it meets.\<close>

definition fails_now :: "bool list \<Rightarrow> bool" where
  "fails_now bs \<longleftrightarrow> bs \<noteq> [] \<and> hd bs"

lemma next_fault_eq: "next_fault w = (fails_now (faults w), w\<lparr>faults := tl (faults w)\<rparr>)"
  by (cases w; cases "faults w") (simp_all add: next_fault_def fails_now_def)

lemma Allow_answer:
  "fst (Allow key rl t w) =
     (let fs = faults w; n = avail key rl (wdb w) t in
      if fails_now fs \<or> fails_now (tl fs) then Inl ErrBackend
      else if 1 \<le> n then if fails_now (tl (tl fs)) \<or> fails_now (tl (tl (tl fs))) then Inl ErrBackend else Inr (True, 0)
      else if fails_now (tl (tl fs)) then Inl ErrBackend else Inr (False, wait_time rl n))"
  by (cases "1 \<le> avail key rl (wdb w) t"; cases "fails_now (faults w)"; cases "fails_now (tl (faults w))";
      cases "fails_now (tl (tl (faults w)))"; cases "fails_now (tl (tl (tl (faults w))))")
    (simp_all add: Allow_def in_tx_def bindM_def exec_def next_fault_eq upsert_avail spend_bucket_def retM_def
      del: next_fault_db)

lemma Allow_result:
  "faults v = faults v' \<Longrightarrow> avail key rl (wdb v) t = avail key rl (wdb v') t \<Longrightarrow> fst (Allow key rl t v) = fst (Allow key rl t v')"
  by (simp add: Allow_answer)

end
