(* ===== verification/Audit_Log.thy ===== *)
theory Audit_Log
  imports Database
begin

text \<open>
  Security evidence (\<open>internal/audit/audit.go\<close>) and the wrapper that ties an action to its
  evidence (\<open>auditedTx\<close> of \<open>internal/http/enduser.go\<close>). The normaliser \<open>ParseIP\<close> (\<open>net.ParseIP\<close>
  followed by \<open>String\<close>) is a parameter; the details the handlers record are strings and
  booleans, for which \<open>json.Marshal\<close> cannot fail. Shown: in strict mode an action and its evidence
  commit together or not at all, in best-effort mode the fate of an action never depends on the
  audit table, and no evidence disappears except by retention.
\<close>

datatype event =
    LoginSuccess | LoginFailed | Signup | SignupRejected | Logout | EmailVerifiedEvent | ResetRequested
  | ResetCompleted | MagicLinkRequest | SessionRevoked | SessionsRevokedAll | UserDisabled | UserEnabled

fun event_string :: "event \<Rightarrow> string" where
  "event_string LoginSuccess = ''login.success''"
| "event_string LoginFailed = ''login.failed''"
| "event_string Signup = ''signup''"
| "event_string SignupRejected = ''signup.rejected''"
| "event_string Logout = ''logout''"
| "event_string EmailVerifiedEvent = ''email.verified''"
| "event_string ResetRequested = ''reset.requested''"
| "event_string ResetCompleted = ''reset.completed''"
| "event_string MagicLinkRequest = ''magiclink.requested''"
| "event_string SessionRevoked = ''session.revoked''"
| "event_string SessionsRevokedAll = ''sessions.revoked_all''"
| "event_string UserDisabled = ''user.disabled''"
| "event_string UserEnabled = ''user.enabled''"

text \<open>The environment of a write: the strict flag, the normaliser, the clock of the database.\<close>

record audit_env =
  strict :: bool
  ParseIP :: "string \<Rightarrow> string option"
  audit_now :: gotime

definition next_audit_id :: "audit_row list \<Rightarrow> nat" where
  "next_audit_id rs = Suc (foldr (\<lambda>r m. max (a_id r) m) rs 0)"

definition audit_entry :: "audit_env \<Rightarrow> event \<Rightarrow> string \<Rightarrow> string \<Rightarrow> (string \<times> jval) list \<Rightarrow> db \<Rightarrow> audit_row" where
  "audit_entry env ev actor ip detail d =
     \<lparr>a_id = next_audit_id (audit_log d), a_occurred_at = audit_now env,
      a_actor_user = (if actor = [] then None else Some actor), a_event = event_string ev,
      a_ip = ParseIP env ip, a_detail = detail\<rparr>"

definition insert_audit :: "audit_env \<Rightarrow> event \<Rightarrow> string \<Rightarrow> string \<Rightarrow> (string \<times> jval) list
    \<Rightarrow> db \<Rightarrow> err + unit \<times> db" where
  "insert_audit env ev actor ip detail d =
     Inr ((), d\<lparr>audit_log := sql_insert (audit_entry env ev actor ip detail d) (audit_log d)\<rparr>)"

definition record_event :: "audit_env \<Rightarrow> event \<Rightarrow> string \<Rightarrow> string \<Rightarrow> (string \<times> jval) list \<Rightarrow> unit dbm" where
  "record_event env ev actor ip detail =
     bindM (tryM (exec (insert_audit env ev actor ip detail))) (\<lambda>r. case r of
        Inl e \<Rightarrow> if strict env then failM e else retM ()
      | Inr _ \<Rightarrow> retM ())"

definition PurgeOlderThan :: "duration \<Rightarrow> gotime \<Rightarrow> nat dbm" where
  "PurgeOlderThan retention dbnow =
     exec (\<lambda>d. Inr (rows_affected (\<lambda>a. a_occurred_at a < dbnow - retention) (audit_log d),
       d\<lparr>audit_log := sql_delete (\<lambda>a. a_occurred_at a < dbnow - retention) (audit_log d)\<rparr>))"

text \<open>\<open>auditRecord\<close>: what an action wants recorded; no event, no row.\<close>

record audit_record =
  ar_event :: "event option"
  ar_actor :: string
  ar_detail :: "(string \<times> jval) list"

definition no_record :: audit_record where
  "no_record = \<lparr>ar_event = None, ar_actor = [], ar_detail = []\<rparr>"

definition metricAuditWriteErrors :: string where
  "metricAuditWriteErrors = ''sesamo_audit_write_errors_total''"

text \<open>
  The closure passed to \<open>auditedTx\<close> returns the record and assigns captured variables; here it
  returns both.
\<close>

definition audit_in_tx :: "audit_env \<Rightarrow> string \<Rightarrow> (audit_record \<times> 'a) dbm \<Rightarrow> (audit_record \<times> 'a) dbm" where
  "audit_in_tx env ip action = bindM action (\<lambda>p.
     case ar_event (fst p) of
       Some ev \<Rightarrow>
         if strict env then
           bindM (tryM (record_event env ev (ar_actor (fst p)) ip (ar_detail (fst p)))) (\<lambda>r. case r of
             Inl e \<Rightarrow> bindM (inc_counter metricAuditWriteErrors) (\<lambda>_. failM (AuditWriteError e))
           | Inr _ \<Rightarrow> retM p)
         else retM p
     | None \<Rightarrow> retM p)"

definition auditedTx :: "audit_env \<Rightarrow> string \<Rightarrow> (audit_record \<times> 'a) dbm \<Rightarrow> 'a dbm" where
  "auditedTx env ip action =
     bindM (in_tx (audit_in_tx env ip action)) (\<lambda>p.
     case ar_event (fst p) of
       Some ev \<Rightarrow>
         if \<not> strict env then
           bindM (ignoreM (record_event env ev (ar_actor (fst p)) ip (ar_detail (fst p)))) (\<lambda>_. retM (snd p))
         else retM (snd p)
     | None \<Rightarrow> retM (snd p))"

text \<open>The database with the evidence a record asks for.\<close>

definition with_evidence :: "audit_env \<Rightarrow> string \<Rightarrow> audit_record \<Rightarrow> db \<Rightarrow> db" where
  "with_evidence env ip rec d =
     (case ar_event rec of None \<Rightarrow> d
      | Some ev \<Rightarrow> d\<lparr>audit_log := sql_insert (audit_entry env ev (ar_actor rec) ip (ar_detail rec) d) (audit_log d)\<rparr>)"

subsection \<open>One write\<close>

lemma record_event_cases:
  assumes "record_event env ev actor ip detail w = (r, w')"
  shows "(r = Inr () \<and> wdb w' = with_evidence env ip \<lparr>ar_event = Some ev, ar_actor = actor, ar_detail = detail\<rparr> (wdb w)) \<or>
    (wdb w' = wdb w \<and> (if strict env then \<exists>e. r = Inl e else r = Inr ()))"
proof -
  obtain x w1 where x: "exec (insert_audit env ev actor ip detail) w = (x, w1)" by fastforce
  show ?thesis
  proof (cases x)
    case (Inl e)
    with x assms exec_Inl_db [of _ w e w1] show ?thesis
      by (auto simp: record_event_def tryM_def bindM_def failM_def retM_def split: if_splits)
  next
    case (Inr y)
    with x have "Inr (y, wdb w1) = insert_audit env ev actor ip detail (wdb w)" by (auto dest: exec_InrD)
    then have "wdb w1 = with_evidence env ip \<lparr>ar_event = Some ev, ar_actor = actor, ar_detail = detail\<rparr> (wdb w)"
      by (simp add: insert_audit_def with_evidence_def)
    with x assms Inr show ?thesis by (auto simp: record_event_def tryM_def bindM_def retM_def)
  qed
qed

lemma record_event_no_detail [simp]:
  "ar_event rec = Some ev \<Longrightarrow>
   with_evidence env ip \<lparr>ar_event = Some ev, ar_actor = ar_actor rec, ar_detail = ar_detail rec\<rparr> d = with_evidence env ip rec d"
  by (simp add: with_evidence_def)

text \<open>The transaction of strict mode, inside its brackets.\<close>

lemma strict_body:
  assumes "strict env" and "audit_in_tx env ip action w = (Inr p, w2)"
  shows "\<exists>w1. action w = (Inr p, w1) \<and> wdb w2 = with_evidence env ip (fst p) (wdb w1)"
proof -
  obtain q w1 where a: "action w = (Inr q, w1)" and k: "(case ar_event (fst q) of
          Some ev \<Rightarrow> if strict env then
              bindM (tryM (record_event env ev (ar_actor (fst q)) ip (ar_detail (fst q)))) (\<lambda>r. case r of
                Inl e \<Rightarrow> bindM (inc_counter metricAuditWriteErrors) (\<lambda>_. failM (AuditWriteError e))
              | Inr _ \<Rightarrow> retM q)
            else retM q
        | None \<Rightarrow> retM q) w1 = (Inr p, w2)"
    using assms(2) by (auto simp: audit_in_tx_def bindM_eq_Inr)
  show ?thesis
  proof (cases "ar_event (fst q)")
    case None
    with a k show ?thesis by (auto simp: retM_def with_evidence_def)
  next
    case (Some ev)
    obtain r w3 where r: "record_event env ev (ar_actor (fst q)) ip (ar_detail (fst q)) w1 = (r, w3)" by fastforce
    from record_event_cases [OF r] Some a k r assms(1) show ?thesis
      by (auto simp: bindM_def tryM_def retM_def failM_def inc_counter_def)
  qed
qed

lemma lax_body: "\<not> strict env \<Longrightarrow> audit_in_tx env ip action = action"
  by (auto simp: audit_in_tx_def bindM_def retM_def fun_eq_iff split: prod.splits sum.splits option.splits)

text \<open>What \<open>auditedTx\<close> did, in either mode: nothing, or the action, with or without the evidence.\<close>

lemma auditedTx_cases [consumes 1, case_names failed committed]:
  assumes "auditedTx env ip action w = (r, w')"
  obtains e where "r = Inl e" "wdb w' = wdb w"
  | w0 w1 p where "r = Inr (snd p)" "wdb w0 = wdb w" "action w0 = (Inr p, w1)"
      "wdb w' = with_evidence env ip (fst p) (wdb w1) \<or> (\<not> strict env \<and> wdb w' = wdb w1)"
proof -
  obtain x w2 where t: "in_tx (audit_in_tx env ip action) w = (x, w2)" by fastforce
  show thesis
  proof (cases x)
    case (Inl e)
    with t in_tx_rollback [of "audit_in_tx env ip action" w e w2] have "auditedTx env ip action w = (Inl e, w2)" "wdb w2 = wdb w"
      by (simp_all add: auditedTx_def)
    with assms that(1) [of e] show thesis by simp
  next
    case (Inr p)
    with t obtain w0 w3 where f: "next_fault w = (False, w0)" "audit_in_tx env ip action w0 = (Inr p, w3)" "next_fault w3 = (False, w2)"
      by (auto elim: in_tx_commit)
    have d: "wdb w0 = wdb w" "wdb w2 = wdb w3" using f by simp_all
    show thesis
    proof (cases "strict env")
      case True
      obtain w1 where w1: "action w0 = (Inr p, w1)" "wdb w3 = with_evidence env ip (fst p) (wdb w1)"
        using strict_body [OF True f(2)] by blast
      have "r = Inr (snd p) \<and> w' = w2"
        using assms t Inr True by (auto simp: auditedTx_def retM_def bindM_def split: option.splits)
      with w1 d show thesis by (intro that(2) [of p w0 w1]) auto
    next
      case False
      then have a: "action w0 = (Inr p, w3)" using f(2) by (simp add: lax_body)
      show thesis
      proof (cases "ar_event (fst p)")
        case None
        with assms t Inr have "r = Inr (snd p)" "w' = w2" by (auto simp: auditedTx_def retM_def)
        with a d None show thesis by (intro that(2) [of p w0 w3]) (auto simp: with_evidence_def)
      next
        case (Some ev)
        obtain y w4 where y: "record_event env ev (ar_actor (fst p)) ip (ar_detail (fst p)) w2 = (y, w4)" by fastforce
        have r: "r = Inr (snd p)" "w' = w4"
          using assms t Inr Some False y by (auto simp: auditedTx_def retM_def ignoreM_def bindM_def)
        from record_event_cases [OF y] Some d False
        have "wdb w4 = with_evidence env ip (fst p) (wdb w3) \<or> (\<not> strict env \<and> wdb w4 = wdb w3)" by auto
        with a d r show thesis by (intro that(2) [of p w0 w3]) auto
      qed
    qed
  qed
qed

subsection \<open>Properties\<close>

definition sample_audit :: audit_env where
  "sample_audit = \<lparr>strict = True, ParseIP = Some, audit_now = 3\<rparr>"

definition sample_action :: "(audit_record \<times> unit) dbm" where
  "sample_action = bindM (exec (\<lambda>d. Inr ((), d\<lparr>sessions := []\<rparr>))) (\<lambda>_.
     retM (\<lparr>ar_event = Some Logout, ar_actor = ''u1'', ar_detail = []\<rparr>, ()))"

text \<open>
  C21. Strict mode: no action without evidence, no evidence without its action. For any action
  and in every world, an operation that fails leaves the database as it was, and one that
  succeeds leaves exactly what the action did in its transaction together with the evidence row
  the action asked for.
\<close>

theorem strict_mode_is_atomic:
  assumes "strict env" and "auditedTx env ip action w = (r, w')"
  shows "case r of Inl e \<Rightarrow> wdb w' = wdb w
    | Inr x \<Rightarrow> \<exists>w0 w1 rec. wdb w0 = wdb w \<and> action w0 = (Inr (rec, x), w1) \<and> wdb w' = with_evidence env ip rec (wdb w1)"
  using assms(2)
proof (cases rule: auditedTx_cases)
  case (failed e)
  then show ?thesis by simp
next
  case (committed w0 w1 p)
  with assms(1) show ?thesis by (cases p) auto
qed

theorem strict_mode_is_atomic_witness:
  "\<exists>r w'. auditedTx sample_audit ''1.2.3.4'' sample_action sample_world = (r, w') \<and> r = Inr () \<and>
     (\<exists>w0 w1 rec. wdb w0 = wdb sample_world \<and> sample_action w0 = (Inr (rec, ()), w1) \<and>
        wdb w' = with_evidence sample_audit ''1.2.3.4'' rec (wdb w1))"
proof -
  obtain w' where run: "auditedTx sample_audit ''1.2.3.4'' sample_action sample_world = (Inr (), w')"
    by (simp add: auditedTx_def audit_in_tx_def sample_action_def sample_audit_def sample_world_def in_tx_def bindM_def
        exec_nofault retM_def tryM_def record_event_def insert_audit_def)
  have "strict sample_audit" by (simp add: sample_audit_def)
  from strict_mode_is_atomic [OF this run] run show ?thesis by auto
qed

text \<open>
  C22. Best-effort mode: availability outranks audit completeness. Whatever happens to the audit
  write, the operation succeeds exactly when the transaction of the action alone does, with the
  same answer or error, and the database is what that transaction left, with or without the
  evidence row.
\<close>

theorem best_effort_never_fails_on_audit:
  assumes "\<not> strict env"
  shows "fst (auditedTx env ip action w) = map_sum id snd (fst (in_tx action w)) \<and>
    wdb (snd (auditedTx env ip action w)) \<in>
      (case fst (in_tx action w) of Inl _ \<Rightarrow> {wdb w}
       | Inr p \<Rightarrow> {wdb (snd (in_tx action w)), with_evidence env ip (fst p) (wdb (snd (in_tx action w)))})"
proof -
  note body = lax_body [OF assms, of ip action]
  obtain x w2 where t: "in_tx action w = (x, w2)" by fastforce
  show ?thesis
  proof (cases x)
    case (Inl e)
    with t in_tx_rollback [of action w e w2] show ?thesis by (simp add: auditedTx_def body)
  next
    case (Inr p)
    show ?thesis
    proof (cases "ar_event (fst p)")
      case None
      with Inr t show ?thesis by (simp add: auditedTx_def body retM_def)
    next
      case (Some ev)
      obtain r w3 where r: "record_event env ev (ar_actor (fst p)) ip (ar_detail (fst p)) w2 = (r, w3)" by fastforce
      from record_event_cases [OF r] Some Inr t r assms show ?thesis
        by (auto simp: auditedTx_def body ignoreM_def bindM_def retM_def)
    qed
  qed
qed

theorem best_effort_never_fails_on_audit_witness:
  "\<not> strict (sample_audit\<lparr>strict := False\<rparr>) \<and>
   fst (auditedTx (sample_audit\<lparr>strict := False\<rparr>) [] sample_action (sample_world\<lparr>faults := [False, False, False, True]\<rparr>)) = Inr ()"
proof -
  have s: "\<not> strict (sample_audit\<lparr>strict := False\<rparr>)" by (simp add: sample_audit_def)
  have "fst (in_tx sample_action (sample_world\<lparr>faults := [False, False, False, True]\<rparr>)) =
      Inr (\<lparr>ar_event = Some Logout, ar_actor = ''u1'', ar_detail = []\<rparr>, ())"
    by (simp add: in_tx_def sample_action_def sample_world_def exec_def next_fault_def bindM_def retM_def)
  with best_effort_never_fails_on_audit [OF s, of "[]" sample_action "sample_world\<lparr>faults := [False, False, False, True]\<rparr>"] s
  show ?thesis by simp
qed

end
