(* ===== verification/Users.thy ===== *)
theory Users
  imports Session
begin

text \<open>
  The account store (\<open>internal/user/\<close>): password accounts, OAuth resolution, the kill switch and
  the bulk import, with the chunked replay of \<open>cmd/sesamo/import.go\<close>. Fresh identifiers
  (\<open>crypto.UUIDv7\<close>) and the clock of the database are arguments; an address is compared without
  regard to case, as the \<open>CITEXT\<close> column does. Shown: every operation keeps the constraints of
  the schema, what \<open>UpsertByOAuth\<close> resolves on every branch, that the signup policy and
  the kill switch hold, and that an import is idempotent, keeps stored accounts as they are and
  accounts for every row whatever fails.
\<close>

record oauth_profile =
  p_Provider :: string
  p_Sub :: string
  p_Email :: string
  p_EmailVerified :: bool
  p_Name :: "string option"
  p_PictureURL :: "string option"

record upsert_result =
  res_UserID :: string
  res_IsNew :: bool

record credential =
  cr_UserID :: string
  cr_Hash :: string
  cr_HasPassword :: bool
  cr_Disabled :: bool

definition zero_credential :: credential where
  "zero_credential = \<lparr>cr_UserID = [], cr_Hash = [], cr_HasPassword = False, cr_Disabled = False\<rparr>"

text \<open>The columns of a new row that the statement leaves to their defaults are filled here.\<close>

definition new_user :: "string \<Rightarrow> string \<Rightarrow> bool \<Rightarrow> string option \<Rightarrow> string option \<Rightarrow> string option
    \<Rightarrow> gotime \<Rightarrow> user_row" where
  "new_user uid email verified ph name pic dbnow =
     \<lparr>u_id = uid, u_email = email, u_email_verified = verified, u_password_hash = ph, u_name = name,
      u_picture_url = pic, u_created_at = dbnow, u_updated_at = dbnow, u_metadata = ''{}'',
      u_disabled = False\<rparr>"

definition email_key :: "user_row \<Rightarrow> string" where
  "email_key u = ToLower (u_email u)"

definition insert_user :: "user_row \<Rightarrow> db \<Rightarrow> err + unit \<times> db" where
  "insert_user u d =
     (if \<not> key_free u_id (u_id u) (users d) \<or> \<not> key_free email_key (email_key u) (users d)
      then Inl ErrUniqueViolation
      else Inr ((), d\<lparr>users := sql_insert u (users d)\<rparr>))"

definition by_email :: "string \<Rightarrow> db \<Rightarrow> user_row option" where
  "by_email email d = sql_row (\<lambda>u. citext_eq (u_email u) email) (users d)"

definition by_id :: "string \<Rightarrow> db \<Rightarrow> user_row option" where
  "by_id uid d = sql_row (\<lambda>u. u_id u = uid) (users d)"

subsection \<open>Password accounts (\<open>password.go\<close>)\<close>

definition createWithPassword :: "string \<Rightarrow> string \<Rightarrow> string \<Rightarrow> gotime \<Rightarrow> unit dbm" where
  "createWithPassword uid email passwordHash dbnow =
     exec (insert_user (new_user uid email False (Some passwordHash) None None dbnow))"

definition PasswordCredential :: "string \<Rightarrow> credential dbm" where
  "PasswordCredential email = query (\<lambda>d. case by_email email d of
       None \<Rightarrow> zero_credential
     | Some u \<Rightarrow> (case u_password_hash u of
         None \<Rightarrow> zero_credential\<lparr>cr_UserID := u_id u, cr_Disabled := u_disabled u\<rparr>
       | Some ph \<Rightarrow> \<lparr>cr_UserID = u_id u, cr_Hash = ph, cr_HasPassword = True,
                     cr_Disabled = u_disabled u\<rparr>))"

definition update_user :: "string \<Rightarrow> (user_row \<Rightarrow> user_row) \<Rightarrow> unit dbm" where
  "update_user uid f =
     exec (\<lambda>d. Inr ((), d\<lparr>users := sql_update (\<lambda>u. u_id u = uid) f (users d)\<rparr>))"

definition put_password :: "string \<Rightarrow> gotime \<Rightarrow> user_row \<Rightarrow> user_row" where
  [row_defs]: "put_password ph dbnow u = u\<lparr>u_password_hash := Some ph, u_updated_at := dbnow\<rparr>"

definition put_verified :: "gotime \<Rightarrow> user_row \<Rightarrow> user_row" where
  [row_defs]: "put_verified dbnow u = u\<lparr>u_email_verified := True, u_updated_at := dbnow\<rparr>"

definition put_disabled :: "bool \<Rightarrow> gotime \<Rightarrow> user_row \<Rightarrow> user_row" where
  [row_defs]: "put_disabled b dbnow u = u\<lparr>u_updated_at := dbnow, u_disabled := b\<rparr>"

definition put_profile :: "oauth_profile \<Rightarrow> gotime \<Rightarrow> user_row \<Rightarrow> user_row" where
  [row_defs]: "put_profile p dbnow u =
     u\<lparr>u_name := p_Name p, u_picture_url := p_PictureURL p, u_updated_at := dbnow\<rparr>"

definition setPassword :: "string \<Rightarrow> string \<Rightarrow> gotime \<Rightarrow> unit dbm" where
  "setPassword uid passwordHash dbnow = update_user uid (put_password passwordHash dbnow)"

definition markEmailVerified :: "string \<Rightarrow> gotime \<Rightarrow> unit dbm" where
  "markEmailVerified uid dbnow = update_user uid (put_verified dbnow)"

definition setDisabled :: "string \<Rightarrow> bool \<Rightarrow> gotime \<Rightarrow> unit dbm" where
  "setDisabled uid disabled dbnow = update_user uid (put_disabled disabled dbnow)"

definition DisabledTx :: "string \<Rightarrow> bool dbm" where
  "DisabledTx uid = exec (\<lambda>d. case by_id uid d of
       None \<Rightarrow> Inl ErrNoRows
     | Some u \<Rightarrow> Inr (u_disabled u, d))"

subsection \<open>OAuth resolution and lookups (\<open>store.go\<close>)\<close>

definition identity_owner :: "string \<Rightarrow> string \<Rightarrow> db \<Rightarrow> user_row option" where
  "identity_owner provider sub d =
     (case sql_row (\<lambda>i. i_provider i = provider \<and> i_provider_sub i = sub) (identities d) of
        None \<Rightarrow> None
      | Some i \<Rightarrow> by_id (i_user_id i) d)"

definition insert_identity :: "identity_row \<Rightarrow> db \<Rightarrow> err + unit \<times> db" where
  "insert_identity i d =
     (if \<not> key_free i_id (i_id i) (identities d) \<or>
         \<not> key_free (\<lambda>i. (i_provider i, i_provider_sub i)) (i_provider i, i_provider_sub i) (identities d)
      then Inl ErrUniqueViolation
      else if \<not> user_exists d (i_user_id i) then Inl ErrForeignKey
      else Inr ((), d\<lparr>identities := sql_insert i (identities d)\<rparr>))"

text \<open>The last part of \<open>UpsertByOAuth\<close>: link the identity to the account found or created.\<close>

definition link_identity :: "string \<Rightarrow> oauth_profile \<Rightarrow> gotime \<Rightarrow> string \<Rightarrow> bool \<Rightarrow> upsert_result dbm" where
  "link_identity iid p dbnow uid isNew =
     bindM (exec (insert_identity \<lparr>i_id = iid, i_user_id = uid, i_provider = p_Provider p,
        i_provider_sub = p_Sub p, i_created_at = dbnow\<rparr>)) (\<lambda>_.
     retM \<lparr>res_UserID = uid, res_IsNew = isNew\<rparr>)"

definition UpsertByOAuth :: "string \<Rightarrow> string \<Rightarrow> gotime \<Rightarrow> oauth_profile \<Rightarrow> bool \<Rightarrow> upsert_result dbm" where
  "UpsertByOAuth uid iid dbnow p allowCreate = in_tx
     (bindM (query (identity_owner (p_Provider p) (p_Sub p))) (\<lambda>owner. case owner of
        Some u \<Rightarrow>
          if u_disabled u then failM ErrUserDisabled
          else bindM (update_user (u_id u) (put_profile p dbnow)) (\<lambda>_.
               retM \<lparr>res_UserID = u_id u, res_IsNew = False\<rparr>)
      | None \<Rightarrow>
          bindM (query (by_email (p_Email p))) (\<lambda>found. case found of
            None \<Rightarrow>
              if \<not> allowCreate then failM ErrSignupDisabled
              else bindM (exec (insert_user (new_user uid (p_Email p) (p_EmailVerified p) None
                     (p_Name p) (p_PictureURL p) dbnow))) (\<lambda>_.
                   link_identity iid p dbnow uid True)
          | Some u \<Rightarrow>
              if u_disabled u then failM ErrUserDisabled
              else link_identity iid p dbnow (u_id u) False)))"

definition ByID :: "string \<Rightarrow> user dbm" where
  "ByID uid = exec (\<lambda>d. case by_id uid d of None \<Rightarrow> Inl ErrNoRows | Some u \<Rightarrow> Inr (user_of_row u, d))"

definition ByEmail :: "string \<Rightarrow> user option dbm" where
  "ByEmail email = query (\<lambda>d. map_option user_of_row (by_email email d))"

subsection \<open>Import (\<open>import.go\<close> and \<open>cmd/sesamo/import.go\<close>)\<close>

record import_record =
  im_Email :: string
  im_EmailVerified :: bool
  im_PasswordHash :: string
  im_Name :: "string option"

datatype import_outcome = ImportCreated | ImportSkipped

text \<open>\<open>ON CONFLICT (email) DO NOTHING\<close>: only a taken address is skipped.\<close>

definition import_stmt :: "string \<Rightarrow> gotime \<Rightarrow> import_record \<Rightarrow> db \<Rightarrow> err + import_outcome \<times> db" where
  "import_stmt uid dbnow rec d =
     (let u = new_user uid (im_Email rec) (im_EmailVerified rec) (Some (im_PasswordHash rec))
                (im_Name rec) None dbnow
      in if \<not> key_free email_key (email_key u) (users d) then Inr (ImportSkipped, d)
         else if \<not> key_free u_id uid (users d) then Inl ErrUniqueViolation
         else Inr (ImportCreated, d\<lparr>users := sql_insert u (users d)\<rparr>))"

definition Import :: "string \<Rightarrow> gotime \<Rightarrow> import_record \<Rightarrow> import_outcome dbm" where
  "Import uid dbnow rec = exec (import_stmt uid dbnow rec)"

fun import_all :: "gotime \<Rightarrow> (string \<times> import_record) list \<Rightarrow> nat \<Rightarrow> nat dbm" where
  "import_all dbnow [] created = retM created"
| "import_all dbnow ((uid, rec) # recs) created =
     bindM (exec (import_stmt uid dbnow rec)) (\<lambda>oc.
       import_all dbnow recs (if oc = ImportCreated then created + 1 else created))"

definition ImportBatch :: "gotime \<Rightarrow> (string \<times> import_record) list \<Rightarrow> nat dbm" where
  "ImportBatch dbnow recs = in_tx (import_all dbnow recs 0)"

record tally =
  n_created :: nat
  n_skipped :: nat
  n_failed :: nat

definition tally_total :: "tally \<Rightarrow> nat" where
  "tally_total t = n_created t + n_skipped t + n_failed t"

text \<open>
  A pending row with the identifier drawn for the batch and the one drawn if it is replayed.
\<close>

type_synonym pending_row = "string \<times> string \<times> import_record"

fun replay :: "gotime \<Rightarrow> pending_row list \<Rightarrow> tally \<Rightarrow> tally dbm" where
  "replay dbnow [] t = retM t"
| "replay dbnow ((_, uid, rec) # ps) t =
     bindM (tryM (Import uid dbnow rec)) (\<lambda>oc. case oc of
        Inl e \<Rightarrow> replay dbnow ps (t\<lparr>n_failed := n_failed t + 1\<rparr>)
      | Inr ImportCreated \<Rightarrow> replay dbnow ps (t\<lparr>n_created := n_created t + 1\<rparr>)
      | Inr ImportSkipped \<Rightarrow> replay dbnow ps (t\<lparr>n_skipped := n_skipped t + 1\<rparr>))"

definition flush :: "gotime \<Rightarrow> pending_row list \<Rightarrow> tally \<Rightarrow> tally dbm" where
  "flush dbnow pending t =
     (if pending = [] then retM t
      else bindM (tryM (ImportBatch dbnow (map (\<lambda>(a, b, rec). (a, rec)) pending))) (\<lambda>r. case r of
        Inr n \<Rightarrow> retM (t\<lparr>n_created := n_created t + n, n_skipped := n_skipped t + (length pending - n)\<rparr>)
      | Inl e \<Rightarrow> replay dbnow pending t))"

definition importChunkSize :: nat where "importChunkSize = 500"

text \<open>
  A line of the export after trimming and decoding: an empty line, a line that does not decode,
  or a record (with the two spellings of the hash).
\<close>

record auth0Record =
  a0_Email :: string
  a0_EmailVerified :: bool
  a0_PasswordHash :: string
  a0_PasswordHash2 :: string
  a0_Name :: "string option"

definition hash :: "auth0Record \<Rightarrow> string" where
  "hash r = (if a0_PasswordHash r \<noteq> [] then a0_PasswordHash r else a0_PasswordHash2 r)"

datatype line = Blank | Malformed | Record string string auth0Record

fun import_lines :: "gotime \<Rightarrow> line list \<Rightarrow> pending_row list \<Rightarrow> tally \<Rightarrow> tally dbm" where
  "import_lines dbnow [] pending t = flush dbnow pending t"
| "import_lines dbnow (Blank # ls) pending t = import_lines dbnow ls pending t"
| "import_lines dbnow (Malformed # ls) pending t =
     import_lines dbnow ls pending (t\<lparr>n_failed := n_failed t + 1\<rparr>)"
| "import_lines dbnow (Record uid1 uid2 r # ls) pending t =
     (if a0_Email r = [] then import_lines dbnow ls pending (t\<lparr>n_failed := n_failed t + 1\<rparr>)
      else
        let pending' = pending @ [(uid1, uid2, \<lparr>im_Email = a0_Email r,
              im_EmailVerified = a0_EmailVerified r, im_PasswordHash = hash r, im_Name = a0_Name r\<rparr>)]
        in if importChunkSize \<le> length pending'
           then bindM (flush dbnow pending' t) (\<lambda>t'. import_lines dbnow ls [] t')
           else import_lines dbnow ls pending' t)"

definition runImport :: "gotime \<Rightarrow> line list \<Rightarrow> (nat \<times> tally) dbm" where
  "runImport dbnow ls = bindM (import_lines dbnow ls [] \<lparr>n_created = 0, n_skipped = 0, n_failed = 0\<rparr>)
     (\<lambda>t. retM (if n_failed t > 0 then 1 else 0, t))"

subsection \<open>The constraints of the schema\<close>

lemma email_key_unique: "unique_on (\<lambda>u. ToLower (u_email u)) us \<longleftrightarrow> unique_on email_key us"
  by (simp add: email_key_def [abs_def])

lemma by_id_SomeD: "by_id uid d = Some u \<Longrightarrow> u \<in> set (users d) \<and> u_id u = uid"
  by (auto simp: by_id_def dest: sql_row_SomeD)

lemma by_email_SomeD: "by_email e d = Some u \<Longrightarrow> u \<in> set (users d) \<and> citext_eq (u_email u) e"
  by (auto simp: by_email_def dest: sql_row_SomeD)

lemma user_exists_iff: "user_exists d uid \<longleftrightarrow> uid \<in> u_id ` set (users d)"
  by (auto simp: user_exists_def list_ex_iff)

lemma by_id_None_iff: "by_id uid d = None \<longleftrightarrow> key_free u_id uid (users d)"
  by (auto simp: by_id_def sql_row_None_iff key_free_iff)

lemma by_email_None_iff: "by_email e d = None \<longleftrightarrow> key_free email_key (ToLower e) (users d)"
  by (simp add: by_email_def sql_row_None_iff key_free_def list_all_iff citext_eq_def email_key_def)

lemma db_ok_insert_user:
  assumes "insert_user u d = Inr (x, d')" and "db_ok d"
  shows "db_ok d'"
  using assms by (auto simp: insert_user_def db_ok_def email_key_unique split: if_splits)

lemma db_ok_insert_identity:
  assumes "insert_identity i d = Inr (x, d')" and "db_ok d"
  shows "db_ok d'"
  using assms by (auto simp: insert_identity_def db_ok_def user_exists_iff split: if_splits)

lemma db_ok_import:
  assumes "import_stmt uid dbnow rec d = Inr (x, d')" and "db_ok d"
  shows "db_ok d'"
  using assms
  by (auto simp: import_stmt_def Let_def db_ok_def email_key_unique new_user_def split: if_splits)

text \<open>An \<open>UPDATE\<close> of an account that changes neither its identifier nor its address.\<close>

locale account_update = keyed_update u_id f for f :: "user_row \<Rightarrow> user_row" +
  assumes email_kept: "u_email (f u) = u_email u"
begin

lemma emails_kept: "map email_key (sql_update p f us) = map email_key us"
  by (induction us) (auto simp: sql_update_def email_key_def email_kept)

lemma ids_kept: "u_id ` set (sql_update p f us) = u_id ` set us"
  using keys_kept [of p us] by (metis list.set_map)

lemma update_user_keeps_db_ok: "keeps db_ok (update_user uid f)"
proof -
  have "unique_on email_key (sql_update p f us)" if "unique_on email_key us" for p us
    using that by (simp add: unique_on_def emails_kept)
  then show ?thesis
    by (auto simp: update_user_def db_ok_def unique_kept email_key_unique ids_kept intro!: keeps_exec)
qed

end

interpretation put_password_row: account_update "put_password ph dbnow" for ph dbnow
  by unfold_locales (simp_all add: row_defs)

interpretation put_verified_row: account_update "put_verified dbnow" for dbnow
  by unfold_locales (simp_all add: row_defs)

interpretation put_disabled_row: account_update "put_disabled b dbnow" for b dbnow
  by unfold_locales (simp_all add: row_defs)

interpretation put_profile_row: account_update "put_profile p dbnow" for p dbnow
  by unfold_locales (simp_all add: row_defs)

lemma link_identity_keeps: "keeps db_ok (link_identity iid p dbnow uid isNew)"
  by (auto simp: link_identity_def intro!: keeps_exec dest: db_ok_insert_identity)

lemma insert_user_keeps: "keeps db_ok (exec (insert_user u))"
  by (auto intro!: keeps_exec dest: db_ok_insert_user)

lemma UpsertByOAuth_keeps: "keeps db_ok (UpsertByOAuth uid iid dbnow p allowCreate)"
  by (auto simp: UpsertByOAuth_def intro!: link_identity_keeps insert_user_keeps
      put_profile_row.update_user_keeps_db_ok)

lemma import_all_keeps: "keeps db_ok (import_all dbnow recs n)"
  by (induction recs arbitrary: n) (auto intro!: keeps_exec dest: db_ok_import)

subsection \<open>Resolution of an OAuth profile\<close>

lemma link_identity_cases:
  assumes "link_identity iid p dbnow k isNew w = (Inr res, w')"
  shows "res = \<lparr>res_UserID = k, res_IsNew = isNew\<rparr>" and "users (wdb w') = users (wdb w)"
    and "user_exists (wdb w) k"
    and "identities (wdb w') = sql_insert \<lparr>i_id = iid, i_user_id = k, i_provider = p_Provider p,
        i_provider_sub = p_Sub p, i_created_at = dbnow\<rparr> (identities (wdb w))"
    and "key_free (\<lambda>i. (i_provider i, i_provider_sub i)) (p_Provider p, p_Sub p) (identities (wdb w))"
  using assms by (auto simp: link_identity_def bindM_eq_Inr retM_def insert_identity_def
      dest!: exec_InrD split: if_splits)

lemma linked_owner:
  assumes "link_identity iid p dbnow k isNew w = (Inr res, w')"
  shows "identity_owner (p_Provider p) (p_Sub p) (wdb w') = by_id k (wdb w)"
proof -
  note l = link_identity_cases [OF assms]
  have "sql_row (\<lambda>i. (i_provider i, i_provider_sub i) = (p_Provider p, p_Sub p)) (identities (wdb w')) =
     Some \<lparr>i_id = iid, i_user_id = k, i_provider = p_Provider p,
        i_provider_sub = p_Sub p, i_created_at = dbnow\<rparr>"
    using l(5) unfolding l(4) by (rule sql_row_insert_free) simp
  then show ?thesis using l(2) by (simp add: identity_owner_def by_id_def)
qed

lemma by_id_insert_user:
  assumes "insert_user u d = Inr (x, d')"
  shows "by_id k d' = (if k = u_id u then Some u else by_id k d)"
proof -
  have free: "key_free u_id (u_id u) (users d)" and d': "users d' = sql_insert u (users d)"
    using assms by (auto simp: insert_user_def split: if_splits)
  show ?thesis
  proof (cases "k = u_id u")
    case True
    with free d' show ?thesis by (simp add: by_id_def sql_row_insert_free)
  next
    case False
    with d' show ?thesis
      by (auto simp: by_id_def sql_insert_def sql_row_append sql_row_def [of _ "[u]"] split: option.splits)
  qed
qed

lemma identity_free:
  assumes "db_ok d" and "identity_owner provider sub d = None"
  shows "key_free (\<lambda>i. (i_provider i, i_provider_sub i)) (provider, sub) (identities d)"
proof -
  have "sql_row (\<lambda>i. i_provider i = provider \<and> i_provider_sub i = sub) (identities d) = None"
  proof (rule ccontr)
    assume "sql_row (\<lambda>i. i_provider i = provider \<and> i_provider_sub i = sub) (identities d) \<noteq> None"
    then obtain i where i: "sql_row (\<lambda>i. i_provider i = provider \<and> i_provider_sub i = sub) (identities d) = Some i"
      by blast
    then have "i_user_id i \<in> u_id ` set (users d)"
      using assms(1) by (simp add: db_ok_def) (meson sql_row_SomeD)
    with assms(2) i show False by (simp add: identity_owner_def by_id_None_iff key_free_iff)
  qed
  then show ?thesis by (simp add: key_free_def list_all_iff sql_row_None_iff)
qed

text \<open>The three ways a transaction of \<open>UpsertByOAuth\<close> succeeds.\<close>

lemma UpsertByOAuth_cases [consumes 1, case_names known linked created]:
  assumes "UpsertByOAuth uid iid dbnow p allowCreate w = (Inr res, w')"
  obtains u where "identity_owner (p_Provider p) (p_Sub p) (wdb w) = Some u" "\<not> u_disabled u"
      "res = \<lparr>res_UserID = u_id u, res_IsNew = False\<rparr>"
      "wdb w' = (wdb w)\<lparr>users := sql_update (\<lambda>x. u_id x = u_id u) (put_profile p dbnow) (users (wdb w))\<rparr>"
  | u w1 w2 where "identity_owner (p_Provider p) (p_Sub p) (wdb w) = None" "by_email (p_Email p) (wdb w) = Some u"
      "\<not> u_disabled u" "wdb w1 = wdb w" "wdb w2 = wdb w'"
      "link_identity iid p dbnow (u_id u) False w1 = (Inr res, w2)"
  | w1 w2 where "identity_owner (p_Provider p) (p_Sub p) (wdb w) = None" "by_email (p_Email p) (wdb w) = None"
      "allowCreate" "insert_user (new_user uid (p_Email p) (p_EmailVerified p) None
          (p_Name p) (p_PictureURL p) dbnow) (wdb w) = Inr ((), wdb w1)" "wdb w2 = wdb w'"
      "link_identity iid p dbnow uid True w1 = (Inr res, w2)"
proof -
  let ?own = "identity_owner (p_Provider p) (p_Sub p)" and ?em = "by_email (p_Email p)"
  let ?body = "\<lambda>owner. case owner of
        Some u \<Rightarrow>
          if u_disabled u then failM ErrUserDisabled
          else bindM (update_user (u_id u) (put_profile p dbnow)) (\<lambda>_.
               retM \<lparr>res_UserID = u_id u, res_IsNew = False\<rparr>)
      | None \<Rightarrow>
          bindM (query ?em) (\<lambda>found. case found of
            None \<Rightarrow>
              if \<not> allowCreate then failM ErrSignupDisabled
              else bindM (exec (insert_user (new_user uid (p_Email p) (p_EmailVerified p) None
                     (p_Name p) (p_PictureURL p) dbnow))) (\<lambda>_. link_identity iid p dbnow uid True)
          | Some u \<Rightarrow>
              if u_disabled u then failM ErrUserDisabled else link_identity iid p dbnow (u_id u) False)"
  obtain w0 w9 where f: "next_fault w = (False, w0)" "next_fault w9 = (False, w')"
    and m: "bindM (query ?own) ?body w0 = (Inr res, w9)"
    using assms by (auto simp: UpsertByOAuth_def elim: in_tx_commit)
  have d0: "wdb w0 = wdb w" and d9: "wdb w9 = wdb w'" using f by simp_all
  obtain owner w1 where q: "query ?own w0 = (Inr owner, w1)" and b: "?body owner w1 = (Inr res, w9)"
    using m by (auto simp: bindM_eq_Inr)
  have owner: "owner = ?own (wdb w)" and d1: "wdb w1 = wdb w" using query_eq_Inr [OF q] d0 by simp_all
  show thesis
  proof (cases owner)
    case (Some u)
    with b have "\<not> u_disabled u" and "res = \<lparr>res_UserID = u_id u, res_IsNew = False\<rparr>"
      and "wdb w9 = (wdb w)\<lparr>users := sql_update (\<lambda>x. u_id x = u_id u) (put_profile p dbnow) (users (wdb w))\<rparr>"
      using d1 by (auto simp: bindM_eq_Inr retM_def failM_def update_user_def dest!: exec_InrD split: if_splits)
    with Some owner d9 show thesis by (intro that(1)) auto
  next
    case None
    with b obtain found w2 where q2: "query ?em w1 = (Inr found, w2)"
      and b2: "(case found of
            None \<Rightarrow>
              if \<not> allowCreate then failM ErrSignupDisabled
              else bindM (exec (insert_user (new_user uid (p_Email p) (p_EmailVerified p) None
                     (p_Name p) (p_PictureURL p) dbnow))) (\<lambda>_. link_identity iid p dbnow uid True)
          | Some u \<Rightarrow>
              if u_disabled u then failM ErrUserDisabled else link_identity iid p dbnow (u_id u) False) w2 = (Inr res, w9)"
      by (auto simp: bindM_eq_Inr)
    have found: "found = ?em (wdb w)" and d2: "wdb w2 = wdb w" using query_eq_Inr [OF q2] d1 by simp_all
    show thesis
    proof (cases found)
      case (Some u)
      with b2 have "\<not> u_disabled u" "link_identity iid p dbnow (u_id u) False w2 = (Inr res, w9)"
        by (auto simp: failM_def split: if_splits)
      with None Some owner found d2 d9 show thesis by (intro that(2) [of u w2 w9]) auto
    next
      case found_None: None
      with b2 obtain w3 where "allowCreate" and i: "exec (insert_user (new_user uid (p_Email p) (p_EmailVerified p) None
                     (p_Name p) (p_PictureURL p) dbnow)) w2 = (Inr (), w3)"
        and "link_identity iid p dbnow uid True w3 = (Inr res, w9)"
        by (auto simp: bindM_eq_Inr failM_def split: if_splits)
      with None found_None owner found d2 d9 exec_Inr_db [OF i] show thesis
        by (intro that(3) [of w3 w9]) auto
    qed
  qed
qed

subsection \<open>Imports\<close>

definition imported :: "import_record \<Rightarrow> db \<Rightarrow> bool" where
  "imported rec d \<longleftrightarrow> \<not> key_free email_key (ToLower (im_Email rec)) (users d)"

lemma import_stmt_cases:
  assumes "import_stmt uid dbnow rec d = Inr (x, d')"
  shows "(x = ImportSkipped \<and> d' = d \<and> imported rec d) \<or>
    (x = ImportCreated \<and> imported rec d' \<and> (\<exists>u. d' = d\<lparr>users := users d @ [u]\<rparr>))"
  using assms by (auto simp: import_stmt_def Let_def imported_def email_key_def new_user_def
      sql_insert_def key_free_def split: if_splits)

lemma imported_append: "imported rec d \<Longrightarrow> imported rec (d\<lparr>users := users d @ us\<rparr>)"
  by (simp add: imported_def key_free_def)

lemma import_stmt_imported: "imported rec d \<Longrightarrow> import_stmt uid dbnow rec d = Inr (ImportSkipped, d)"
  by (simp add: import_stmt_def imported_def Let_def email_key_def new_user_def)

text \<open>A batch that runs through appends as many rows as it counts, and all its records are stored.\<close>

lemma import_all_spec:
  assumes "import_all dbnow recs n w = (Inr m, w')"
  shows "\<exists>us. wdb w' = (wdb w)\<lparr>users := users (wdb w) @ us\<rparr> \<and> m = n + length us \<and>
    length us \<le> length recs \<and> (\<forall>rec \<in> snd ` set recs. imported rec (wdb w'))"
  using assms
proof (induction recs arbitrary: n w)
  case Nil
  then show ?case by (auto simp: retM_def intro!: exI [of _ "[]"])
next
  case (Cons a recs)
  obtain uid rec where a: "a = (uid, rec)" by fastforce
  with Cons.prems obtain x w1 where e: "exec (import_stmt uid dbnow rec) w = (Inr x, w1)"
    and k: "import_all dbnow recs (if x = ImportCreated then n + 1 else n) w1 = (Inr m, w')"
    by (auto simp: bindM_eq_Inr)
  obtain us where us: "wdb w' = (wdb w1)\<lparr>users := users (wdb w1) @ us\<rparr>"
    "m = (if x = ImportCreated then n + 1 else n) + length us" "length us \<le> length recs"
    "\<forall>rec \<in> snd ` set recs. imported rec (wdb w')"
    using Cons.IH [OF k] by blast
  have rec: "imported rec (wdb w')" if "imported rec (wdb w1)"
    using imported_append [OF that] us(1) by metis
  from import_stmt_cases [OF exec_Inr_db [OF e]] show ?case
  proof (elim disjE conjE exE)
    assume "x = ImportSkipped" "wdb w1 = wdb w" "imported rec (wdb w)"
    with us rec a show ?thesis by (intro exI [of _ us]) auto
  next
    fix u assume "x = ImportCreated" "imported rec (wdb w1)" "wdb w1 = (wdb w)\<lparr>users := users (wdb w) @ [u]\<rparr>"
    with us rec a show ?thesis by (intro exI [of _ "u # us"]) auto
  qed
qed

lemma import_all_again:
  assumes "faults w = []" and "\<forall>rec \<in> snd ` set recs. imported rec (wdb w)"
  shows "import_all dbnow recs n w = (Inr n, w)"
  using assms(2)
proof (induction recs)
  case (Cons a recs)
  obtain uid rec where a: "a = (uid, rec)" by fastforce
  then have "exec (import_stmt uid dbnow rec) w = (Inr ImportSkipped, w)"
    using assms(1) Cons.prems by (simp add: exec_nofault import_stmt_imported)
  with a Cons show ?case by simp
qed (simp add: retM_def)

lemma ImportBatch_spec:
  assumes "ImportBatch dbnow recs w = (r, w')"
  shows "case r of Inl e \<Rightarrow> wdb w' = wdb w
    | Inr n \<Rightarrow> \<exists>us. wdb w' = (wdb w)\<lparr>users := users (wdb w) @ us\<rparr> \<and> n = length us \<and>
        length us \<le> length recs \<and> (\<forall>rec \<in> snd ` set recs. imported rec (wdb w'))"
proof (cases r)
  case (Inl e)
  with assms show ?thesis by (simp add: ImportBatch_def in_tx_rollback)
next
  case (Inr n)
  with assms obtain w1 w2 where "next_fault w = (False, w1)" "import_all dbnow recs 0 w1 = (Inr n, w2)"
    "next_fault w2 = (False, w')" by (auto simp: ImportBatch_def elim: in_tx_commit)
  with import_all_spec [of dbnow recs 0 w1 n w2] Inr show ?thesis by simp
qed

text \<open>What the replay and the whole import promise about the tally, in every world.\<close>

definition tallied :: "nat \<Rightarrow> tally \<Rightarrow> world \<Rightarrow> (err + tally) \<times> world \<Rightarrow> bool" where
  "tallied k t w out \<longleftrightarrow> (\<exists>t' us. fst out = Inr t' \<and> tally_total t' = tally_total t + k \<and>
     n_created t' = n_created t + length us \<and> wdb (snd out) = (wdb w)\<lparr>users := users (wdb w) @ us\<rparr>)"

lemma tallied_trans:
  assumes "tallied k t w (Inr t1, w1)" and "tallied j t1 w1 out"
  shows "tallied (k + j) t w out"
proof -
  obtain us where 1: "tally_total t1 = tally_total t + k" "n_created t1 = n_created t + length us"
    "wdb w1 = (wdb w)\<lparr>users := users (wdb w) @ us\<rparr>"
    using assms(1) by (auto simp: tallied_def)
  obtain t2 vs where 2: "fst out = Inr t2" "tally_total t2 = tally_total t1 + j"
    "n_created t2 = n_created t1 + length vs" "wdb (snd out) = (wdb w1)\<lparr>users := users (wdb w1) @ vs\<rparr>"
    using assms(2) by (auto simp: tallied_def)
  from 1 2 show ?thesis unfolding tallied_def by (intro exI [of _ t2] exI [of _ "us @ vs"]) simp
qed

lemma tallied_failed: "tallied 1 t w (Inr (t\<lparr>n_failed := n_failed t + 1\<rparr>), w)"
  by (auto simp: tallied_def tally_total_def intro!: exI [of _ "[]"])

lemma replay_tallied: "tallied (length ps) t w (replay dbnow ps t w)"
proof (induction ps arbitrary: t w)
  case Nil
  then show ?case by (auto simp: tallied_def retM_def intro!: exI [of _ "[]"])
next
  case (Cons p ps)
  obtain a uid rec where p: "p = (a, uid, rec)" by (cases p)
  obtain x w1 where x: "Import uid dbnow rec w = (x, w1)" by fastforce
  have "\<exists>t1. replay dbnow (p # ps) t w = replay dbnow ps t1 w1 \<and> tallied 1 t w (Inr t1, w1)"
  proof (cases x)
    case (Inl e)
    then have "wdb w1 = wdb w" using x by (auto simp: Import_def dest: exec_Inl_db)
    with Inl x p tallied_failed [of t w] show ?thesis
      by (auto simp: tryM_def bindM_def tallied_def)
  next
    case (Inr o')
    with x have "import_stmt uid dbnow rec (wdb w) = Inr (o', wdb w1)" by (auto simp: Import_def dest: exec_Inr_db)
    from import_stmt_cases [OF this] show ?thesis
    proof (elim disjE conjE exE)
      assume "o' = ImportSkipped" "wdb w1 = wdb w"
      with x p Inr show ?thesis
        by (intro exI [of _ "t\<lparr>n_skipped := n_skipped t + 1\<rparr>"])
          (auto simp: tryM_def bindM_def tallied_def tally_total_def intro: exI [of _ "[]"])
    next
      fix u assume "o' = ImportCreated" "wdb w1 = (wdb w)\<lparr>users := users (wdb w) @ [u]\<rparr>"
      with x p Inr show ?thesis
        by (intro exI [of _ "t\<lparr>n_created := n_created t + 1\<rparr>"])
          (auto simp: tryM_def bindM_def tallied_def tally_total_def intro: exI [of _ "[u]"])
    qed
  qed
  then show ?case using Cons.IH tallied_trans [of 1 t w _ w1 "length ps"] by fastforce
qed

lemma flush_tallied: "tallied (length ps) t w (flush dbnow ps t w)"
proof (cases "ps = []")
  case True
  then show ?thesis by (auto simp: flush_def tallied_def retM_def intro!: exI [of _ "[]"])
next
  case False
  obtain r w1 where b: "ImportBatch dbnow (map (\<lambda>(a, b, rec). (a, rec)) ps) w = (r, w1)" by fastforce
  show ?thesis
  proof (cases r)
    case (Inl e)
    then have "wdb w1 = wdb w" using ImportBatch_spec [OF b] by simp
    with Inl b False replay_tallied [of ps t w1 dbnow] show ?thesis
      by (simp add: flush_def tryM_def bindM_def tallied_def)
  next
    case (Inr n)
    with ImportBatch_spec [OF b] b False show ?thesis
      by (auto simp: flush_def tryM_def bindM_def tallied_def retM_def tally_total_def)
  qed
qed

definition counted :: "line list \<Rightarrow> nat" where
  "counted ls = length (filter (\<lambda>l. l \<noteq> Blank) ls)"

lemma import_lines_tallied: "tallied (length ps + counted ls) t w (import_lines dbnow ls ps t w)"
proof (induction dbnow ls ps t arbitrary: w rule: import_lines.induct)
  case (1 dbnow pending t)
  then show ?case using flush_tallied by (simp add: counted_def)
next
  case (3 dbnow ls pending t)
  from tallied_trans [OF tallied_failed "3.IH", of w] show ?case by (simp add: counted_def)
next
  case (4 dbnow uid1 uid2 r ls pending t)
  let ?p = "pending @ [(uid1, uid2, \<lparr>im_Email = a0_Email r,
              im_EmailVerified = a0_EmailVerified r, im_PasswordHash = hash r, im_Name = a0_Name r\<rparr>)]"
  consider "a0_Email r = []" | "a0_Email r \<noteq> []" "importChunkSize \<le> length ?p"
    | "a0_Email r \<noteq> []" "\<not> importChunkSize \<le> length ?p" by blast
  then show ?case
  proof cases
    case 1
    from tallied_trans [OF tallied_failed "4.IH"(1) [OF 1], of w] 1 show ?thesis by (simp add: counted_def)
  next
    case 2
    obtain t1 w1 where f: "flush dbnow ?p t w = (Inr t1, w1)"
      using flush_tallied [of ?p t w dbnow] by (auto simp: tallied_def) (metis prod.collapse)
    have "tallied (counted ls) t1 w1 (import_lines dbnow ls [] t1 w1)"
      using "4.IH"(2) [OF 2(1) refl 2(2), of t1 w1] by simp
    with tallied_trans [of "length ?p" t w t1 w1 "counted ls"] flush_tallied [of ?p t w dbnow] f 2
    show ?thesis by (simp add: Let_def counted_def)
  next
    case 3
    from "4.IH"(3) [OF 3(1) refl 3(2), of w] 3 show ?thesis by (simp add: Let_def counted_def)
  qed
qed (simp add: counted_def)

subsection \<open>Properties\<close>

definition sample_profile :: oauth_profile where
  "sample_profile = \<lparr>p_Provider = ''google'', p_Sub = ''s1'', p_Email = ''A@B.c'', p_EmailVerified = True,
     p_Name = None, p_PictureURL = None\<rparr>"

lemma sample_world_ok: "db_ok (wdb sample_world)"
  by (simp add: sample_world_def db_ok_def empty_db_def unique_on_def)

lemma sample_lookups:
  "identity_owner ''google'' ''s1'' (wdb sample_world) = None"
  "by_email ''A@B.c'' (wdb sample_world) = Some sample_user"
proof -
  have "citext_eq ''a@b.c'' ''A@B.c''" by code_simp
  then show "by_email ''A@B.c'' (wdb sample_world) = Some sample_user"
    by (simp add: by_email_def sample_world_def empty_db_def sql_row_def sample_user_def)
qed (simp add: identity_owner_def sample_world_def empty_db_def sql_row_def)

text \<open>What an OAuth login does to the database, whatever fails.\<close>

lemma UpsertByOAuth_outcome:
  assumes "db_ok (wdb w)" and "UpsertByOAuth uid iid dbnow p allowCreate w = (r, w')"
  shows "case r of Inl e \<Rightarrow> wdb w' = wdb w
   | Inr res \<Rightarrow> db_ok (wdb w') \<and>
      (\<exists>u. identity_owner (p_Provider p) (p_Sub p) (wdb w') = Some u \<and> u_id u = res_UserID res \<and> \<not> u_disabled u) \<and>
      (if res_IsNew res
       then allowCreate \<and> identity_owner (p_Provider p) (p_Sub p) (wdb w) = None \<and>
            by_email (p_Email p) (wdb w) = None \<and> by_id (res_UserID res) (wdb w) = None
       else \<exists>u. u_id u = res_UserID res \<and>
            (identity_owner (p_Provider p) (p_Sub p) (wdb w) = Some u \<or>
             identity_owner (p_Provider p) (p_Sub p) (wdb w) = None \<and> by_email (p_Email p) (wdb w) = Some u)) \<and>
      (\<forall>k. k \<noteq> res_UserID res \<longrightarrow> by_id k (wdb w') = by_id k (wdb w))"
proof (cases r)
  case (Inl e)
  with assms(2) show ?thesis by (simp add: UpsertByOAuth_def in_tx_rollback)
next
  case (Inr res)
  have ok: "db_ok (wdb w')" using UpsertByOAuth_keeps assms by (blast dest: keepsD)
  have uniq: "unique_on u_id (users (wdb w))" using assms(1) by (simp add: db_ok_def)
  from assms(2) Inr have "UpsertByOAuth uid iid dbnow p allowCreate w = (Inr res, w')" by simp
  then show ?thesis
  proof (cases rule: UpsertByOAuth_cases)
    case (known u)
    then have "u \<in> set (users (wdb w))"
      by (auto simp: identity_owner_def by_id_def split: option.splits dest!: sql_row_SomeD)
    then have "by_id (u_id u) (wdb w) = Some u" using unique_on_row [OF uniq] by (simp add: by_id_def)
    with known ok Inr show ?thesis
      by (auto simp: identity_owner_def by_id_def put_profile_row.row_update_key row_defs
          split: option.splits dest: sql_row_SomeD)
  next
    case (linked u w1 w2)
    then have "by_id (u_id u) (wdb w) = Some u"
      using uniq by (auto simp: by_id_def dest!: by_email_SomeD unique_on_row)
    with linked ok Inr link_identity_cases [OF linked(6)] linked_owner [OF linked(6)] show ?thesis
      by (auto simp: by_id_def)
  next
    case (created w1 w2)
    note new = by_id_insert_user [OF created(4)]
    have "by_id uid (wdb w) = None"
      using created(4) by (auto simp: by_id_None_iff insert_user_def new_user_def split: if_splits)
    with created ok Inr link_identity_cases [OF created(6)] linked_owner [OF created(6)] new show ?thesis
      by (auto simp: by_id_def new_user_def)
  qed
qed

text \<open>
  The kill switch and the signup policy decide exactly as documented. When nothing fails and
  the drawn identifiers are fresh, a login is refused as disabled if and only if the account
  that owns the identity (or, for an unknown identity, the address) is disabled, refused by
  policy if and only if it would need a new account that is not allowed, and succeeds otherwise.
\<close>

lemma UpsertByOAuth_decides:
  assumes "faults w = []" and "db_ok (wdb w)"
    and "key_free u_id uid (users (wdb w))" and "key_free i_id iid (identities (wdb w))"
  shows "fst (UpsertByOAuth uid iid dbnow p allowCreate w) =
    (case identity_owner (p_Provider p) (p_Sub p) (wdb w) of
       Some u \<Rightarrow> if u_disabled u then Inl ErrUserDisabled else Inr \<lparr>res_UserID = u_id u, res_IsNew = False\<rparr>
     | None \<Rightarrow> (case by_email (p_Email p) (wdb w) of
         Some u \<Rightarrow> if u_disabled u then Inl ErrUserDisabled else Inr \<lparr>res_UserID = u_id u, res_IsNew = False\<rparr>
       | None \<Rightarrow> if allowCreate then Inr \<lparr>res_UserID = uid, res_IsNew = True\<rparr> else Inl ErrSignupDisabled))"
proof (cases "identity_owner (p_Provider p) (p_Sub p) (wdb w)")
  case (Some u)
  with assms(1) show ?thesis
    by (simp add: UpsertByOAuth_def in_tx_def query_nofault exec_nofault update_user_def failM_def retM_def bindM_def)
next
  case None
  have "key_free (\<lambda>i. (i_provider i, i_provider_sub i)) (p_Provider p, p_Sub p) (identities (wdb w))"
    using identity_free [OF assms(2) None] .
  then have link: "fst (link_identity iid p dbnow k b v) = Inr \<lparr>res_UserID = k, res_IsNew = b\<rparr> \<and>
      faults (snd (link_identity iid p dbnow k b v)) = []"
    if "faults v = []" "identities (wdb v) = identities (wdb w)" "user_exists (wdb v) k" for k b v
    using assms(4) that by (simp add: link_identity_def exec_nofault insert_identity_def retM_def bindM_def)
  show ?thesis
  proof (cases "by_email (p_Email p) (wdb w)")
    case (Some u)
    then have "user_exists (wdb w) (u_id u)" by (auto simp: user_exists_iff dest: by_email_SomeD)
    from link [OF assms(1) refl this, of False] None Some assms(1) show ?thesis
      by (auto simp: UpsertByOAuth_def in_tx_def query_nofault bindM_def failM_def split: prod.splits)
  next
    case no_email: None
    let ?u = "new_user uid (p_Email p) (p_EmailVerified p) None (p_Name p) (p_PictureURL p) dbnow"
    let ?v = "w\<lparr>wdb := (wdb w)\<lparr>users := sql_insert ?u (users (wdb w))\<rparr>\<rparr>"
    have "exec (insert_user ?u) w = (Inr (), ?v)"
      using assms(1,3) no_email
      by (simp add: exec_nofault insert_user_def by_email_None_iff email_key_def new_user_def)
    moreover have "user_exists (wdb ?v) uid" by (simp add: user_exists_iff new_user_def)
    ultimately show ?thesis using link [of ?v uid True] None no_email assms(1)
      by (auto simp: UpsertByOAuth_def in_tx_def query_nofault bindM_def failM_def split: prod.splits)
  qed
qed

lemma sample_oauth_decisions:
  "fst (UpsertByOAuth ''u2'' ''i1'' 9 (sample_profile\<lparr>p_Email := ''x''\<rparr>) False sample_world) = Inl ErrSignupDisabled \<and>
   fst (UpsertByOAuth ''u2'' ''i1'' 9 sample_profile False sample_world) =
     Inr \<lparr>res_UserID = ''u1'', res_IsNew = False\<rparr>"
proof -
  have f: "faults sample_world = []" "key_free u_id ''u2'' (users (wdb sample_world))"
    "key_free i_id ''i1'' (identities (wdb sample_world))"
    by (simp_all add: sample_world_def empty_db_def key_free_def sample_user_def)
  have "by_email ''x'' (wdb sample_world) = None"
    by (simp add: by_email_def sample_world_def empty_db_def sql_row_def sample_user_def citext_eq_def ToLower_def)
  moreover have "\<not> u_disabled sample_user" "u_id sample_user = ''u1''" by (simp_all add: sample_user_def)
  ultimately show ?thesis
    using UpsertByOAuth_decides [OF f(1) sample_world_ok f(2,3), of 9 "sample_profile\<lparr>p_Email := ''x''\<rparr>" False]
      UpsertByOAuth_decides [OF f(1) sample_world_ok f(2,3), of 9 sample_profile False]
    by (simp add: sample_profile_def sample_lookups)
qed

text \<open>
  C14. What an OAuth login resolves to. Whatever fails, an error leaves the database as it was;
  on success the identity belongs, afterwards, to the account that was returned, which is not
  disabled; a new account is created only when the policy allows it and neither the identity nor
  the address was known, an existing one is only returned if the identity or the address was its
  own; no other account changes, and the constraints of the schema hold. When nothing fails and the drawn
  identifiers are fresh, a login is refused as disabled if and only if the account that owns the
  identity (or, for an unknown identity, the address) is disabled, refused by policy if and only
  if it would need a new account that is not allowed, and succeeds otherwise.
\<close>

theorem UpsertByOAuth_resolution:
  assumes "db_ok (wdb w)" and "UpsertByOAuth uid iid dbnow p allowCreate w = (r, w')"
  shows "(case r of Inl e \<Rightarrow> wdb w' = wdb w
   | Inr res \<Rightarrow> db_ok (wdb w') \<and>
      (\<exists>u. identity_owner (p_Provider p) (p_Sub p) (wdb w') = Some u \<and> u_id u = res_UserID res \<and> \<not> u_disabled u) \<and>
      (if res_IsNew res
       then allowCreate \<and> identity_owner (p_Provider p) (p_Sub p) (wdb w) = None \<and>
            by_email (p_Email p) (wdb w) = None \<and> by_id (res_UserID res) (wdb w) = None
       else \<exists>u. u_id u = res_UserID res \<and>
            (identity_owner (p_Provider p) (p_Sub p) (wdb w) = Some u \<or>
             identity_owner (p_Provider p) (p_Sub p) (wdb w) = None \<and> by_email (p_Email p) (wdb w) = Some u)) \<and>
      (\<forall>k. k \<noteq> res_UserID res \<longrightarrow> by_id k (wdb w') = by_id k (wdb w))) \<and>
    (faults w = [] \<and> key_free u_id uid (users (wdb w)) \<and> key_free i_id iid (identities (wdb w)) \<longrightarrow> r =
      (case identity_owner (p_Provider p) (p_Sub p) (wdb w) of
       Some u \<Rightarrow> if u_disabled u then Inl ErrUserDisabled else Inr \<lparr>res_UserID = u_id u, res_IsNew = False\<rparr>
     | None \<Rightarrow> (case by_email (p_Email p) (wdb w) of
         Some u \<Rightarrow> if u_disabled u then Inl ErrUserDisabled else Inr \<lparr>res_UserID = u_id u, res_IsNew = False\<rparr>
       | None \<Rightarrow> if allowCreate then Inr \<lparr>res_UserID = uid, res_IsNew = True\<rparr> else Inl ErrSignupDisabled)))"
  using UpsertByOAuth_outcome [OF assms] UpsertByOAuth_decides [OF _ assms(1), of uid iid dbnow p allowCreate] assms(2)
  by (intro conjI impI) simp_all

theorem UpsertByOAuth_resolution_witness:
  "\<exists>res w'. UpsertByOAuth ''u2'' ''i1'' 9 sample_profile False sample_world = (Inr res, w') \<and>
     db_ok (wdb w') \<and> (\<exists>u. identity_owner ''google'' ''s1'' (wdb w') = Some u \<and> u_id u = ''u1'')"
proof -
  have "fst (UpsertByOAuth ''u2'' ''i1'' 9 sample_profile False sample_world) =
      Inr \<lparr>res_UserID = ''u1'', res_IsNew = False\<rparr>" by code_simp
  then obtain w' where run: "UpsertByOAuth ''u2'' ''i1'' 9 sample_profile False sample_world =
      (Inr \<lparr>res_UserID = ''u1'', res_IsNew = False\<rparr>, w')" by (metis prod.collapse)
  from UpsertByOAuth_resolution [OF sample_world_ok run] run show ?thesis
    by (auto simp: sample_profile_def)
qed

text \<open>
  Every operation of the account store keeps the constraints of the schema (unique
  identifiers, addresses unique up to case, one owner per provider identity, no dangling
  reference), whatever fails.
\<close>

lemma account_operations_keep_schema:
  "keeps db_ok (createWithPassword uid email ph dbnow) \<and> keeps db_ok (setPassword uid ph dbnow) \<and>
   keeps db_ok (markEmailVerified uid dbnow) \<and> keeps db_ok (setDisabled uid b dbnow) \<and>
   keeps db_ok (UpsertByOAuth uid iid dbnow p allowCreate) \<and> keeps db_ok (Import uid dbnow rec) \<and>
   keeps db_ok (ImportBatch dbnow recs)"
proof -
  have "keeps db_ok (Import uid dbnow rec)"
    by (auto simp: Import_def intro!: keeps_exec dest: db_ok_import)
  then show ?thesis
    by (simp add: createWithPassword_def setPassword_def markEmailVerified_def setDisabled_def ImportBatch_def
        insert_user_keeps UpsertByOAuth_keeps put_password_row.update_user_keeps_db_ok
        put_verified_row.update_user_keeps_db_ok put_disabled_row.update_user_keeps_db_ok
        keeps_in_tx import_all_keeps)
qed

text \<open>
  C17. Bulk import is all or nothing, adds rows without touching stored accounts, and is
  idempotent: repeating a batch that went through, with any fresh identifiers, creates
  nothing.
\<close>

theorem ImportBatch_is_idempotent:
  assumes "ImportBatch dbnow recs w = (r, w1)"
  shows "case r of Inl e \<Rightarrow> wdb w1 = wdb w
   | Inr n \<Rightarrow> (\<exists>us. wdb w1 = (wdb w)\<lparr>users := users (wdb w) @ us\<rparr> \<and> length us = n) \<and> n \<le> length recs \<and>
      (\<forall>recs' t. faults w1 = [] \<and> map snd recs' = map snd recs \<longrightarrow> ImportBatch t recs' w1 = (Inr 0, w1))"
proof (cases r)
  case (Inl e)
  with ImportBatch_spec [OF assms] show ?thesis by simp
next
  case (Inr n)
  have all: "\<forall>rec \<in> snd ` set recs. imported rec (wdb w1)" using ImportBatch_spec [OF assms] Inr by auto
  have "ImportBatch t recs' w1 = (Inr 0, w1)" if "faults w1 = []" "map snd recs' = map snd recs" for recs' t
  proof -
    have "snd ` set recs' = snd ` set recs" using that(2) by (metis list.set_map)
    then show ?thesis using import_all_again [of w1 recs' t 0] all that(1) by (simp add: ImportBatch_def in_tx_def)
  qed
  with ImportBatch_spec [OF assms] Inr show ?thesis by auto
qed

theorem ImportBatch_is_idempotent_witness:
  "\<exists>w1. ImportBatch 1 [(''u2'', \<lparr>im_Email = ''x'', im_EmailVerified = True, im_PasswordHash = ''$2b'', im_Name = None\<rparr>)]
      sample_world = (Inr 1, w1) \<and>
    ImportBatch 2 [(''u3'', \<lparr>im_Email = ''x'', im_EmailVerified = True, im_PasswordHash = ''$2b'', im_Name = None\<rparr>)] w1
      = (Inr 0, w1)"
proof -
  let ?rec = "\<lparr>im_Email = ''x'', im_EmailVerified = True, im_PasswordHash = ''$2b'', im_Name = None\<rparr>"
  obtain w1 where b: "ImportBatch 1 [(''u2'', ?rec)] sample_world = (Inr 1, w1)" and f: "faults w1 = []"
    by (simp add: ImportBatch_def in_tx_def sample_world_def exec_nofault import_stmt_def Let_def key_free_def
        new_user_def email_key_def ToLower_def lower_char_def empty_db_def sample_user_def retM_def)
  from ImportBatch_is_idempotent [OF b] have
    "\<forall>recs' t. faults w1 = [] \<and> map snd recs' = map snd [(''u2'', ?rec)] \<longrightarrow> ImportBatch t recs' w1 = (Inr 0, w1)"
    by simp
  then have "ImportBatch 2 [(''u3'', ?rec)] w1 = (Inr 0, w1)" using f by simp
  with b show ?thesis by blast
qed

text \<open>
  The import command accounts for every line of the export. In every world (any batch or row
  may fail) it ends, its three counters add up to the number of non-empty lines, the number it
  reports as created is the number of rows it added, stored accounts are untouched, and the exit
  code is 0 exactly when nothing failed.
\<close>

lemma runImport_accounts_for_every_line:
  "\<exists>code t w' us. runImport dbnow ls w = (Inr (code, t), w') \<and>
     tally_total t = counted ls \<and> wdb w' = (wdb w)\<lparr>users := users (wdb w) @ us\<rparr> \<and>
     n_created t = length us \<and> (code = 0 \<longleftrightarrow> n_failed t = 0)"
proof -
  let ?t0 = "\<lparr>n_created = 0, n_skipped = 0, n_failed = 0\<rparr>"
  obtain out w' where o: "import_lines dbnow ls [] ?t0 w = (out, w')" by fastforce
  with import_lines_tallied [of "[]" ls ?t0 w dbnow] obtain t us where
    "out = Inr t" "tally_total t = counted ls" "n_created t = length us"
    "wdb w' = (wdb w)\<lparr>users := users (wdb w) @ us\<rparr>"
    by (auto simp: tallied_def tally_total_def [of ?t0])
  with o show ?thesis by (auto simp: runImport_def retM_def)
qed

end
