(* ===== verification/Http_Guards.thy ===== *)
theory Http_Guards
  imports Config Crypto Rate_Limit Audit_Log Users
begin

text \<open>
  What stands between a request and its handler (\<open>internal/http/\<close>: \<open>errors.go\<close>, \<open>cookies.go\<close>,
  \<open>ratelimit.go\<close>, the bearer guards of \<open>service.go\<close> and \<open>admin.go\<close>, the middleware of \<open>server.go\<close>). A
  request is its form, query, cookies and headers as functions of names (absent values are empty) and
  its raw body (\<open>None\<close> when it cannot be read, as past the body limit);
  a response its status, body, cookies and the headers a client can act on. The texts shown to
  people are constructors of \<open>msg\<close>. \<open>url.Parse\<close> and \<open>net.SplitHostPort\<close> are parameters. Shown:
  a redirect never leaves the allow-list, an unauthorised call has no effect, a failing limiter
  lets everyone through, a CSRF check passes exactly on the double-submitted token.
\<close>

subsection \<open>Requests and responses\<close>

record request =
  form_ok :: bool
  FormValue :: "string \<Rightarrow> string"
  Query :: "string \<Rightarrow> string"
  cookieValue :: "string \<Rightarrow> string"
  Header :: "string \<Rightarrow> string"
  RemoteAddr :: string
  raw_body :: "bytes option"
  PathValue :: string

datatype code =
    codeInvalidCredentials | codeInvalidRequest | codeRateLimited | codeUnauthorized | codeForbidden
  | codeNotFound | codeInternal | codeStateMismatch | codeOAuthFailed | codeCSRFFailed

fun code_string :: "code \<Rightarrow> string" where
  "code_string codeInvalidCredentials = ''invalid_credentials''"
| "code_string codeInvalidRequest = ''invalid_request''"
| "code_string codeRateLimited = ''rate_limited''"
| "code_string codeUnauthorized = ''unauthorized''"
| "code_string codeForbidden = ''forbidden''"
| "code_string codeNotFound = ''not_found''"
| "code_string codeInternal = ''internal_error''"
| "code_string codeStateMismatch = ''state_mismatch''"
| "code_string codeOAuthFailed = ''oauth_failed''"
| "code_string codeCSRFFailed = ''csrf_failed''"

datatype msg =
    MsgInternal | MsgBadForm | MsgCSRF | MsgTooMany | MsgCredentialsRequired | MsgBadCredentials
  | MsgSignupDisabled | MsgSignupFields | MsgResetFields | MsgBadToken | MsgTokenRequired | MsgBadLink
  | MsgEmailRequired | MsgSessionToken | MsgNotConfigured | MsgBadBearer | MsgUserNotFound | MsgBadFlag
  | MsgWebhookOff | MsgBadBody | MsgBadSignature | MsgBadEvent
  | MsgNoProvider | MsgNoCode | MsgBadState | MsgLoginFailed
  | PageCSRF | PageCheckMail | PageBadLink | PageReset | PageVerified

datatype json =
    JString string
  | JBoolean bool
  | JStrings "string list"
  | JObject "(string \<times> string) list"

text \<open>
  \<open>introspectResponse\<close>, and what a response can carry: the values handed to \<open>json.Encode\<close> or to a
  template (neither is modelled further).
\<close>

record introspectResponse =
  Active :: bool
  i_UserID :: string
  i_Email :: string
  i_EmailVerified :: bool
  i_Name :: "string option"
  i_ExpiresAt :: int
  i_Metadata :: "string option"

datatype body =
    ErrorBody code msg
  | JsonBody "(string \<times> json) list"
  | IntrospectBody introspectResponse
  | UserBody user
  | PageBody msg
  | LoginForm "string list" string string
  | ResetRequestForm string
  | ResetConfirmForm string string
  | TextBody string
  | RedirectTo string

record cookie =
  ck_Name :: string
  ck_Value :: string
  ck_Path :: string
  ck_Domain :: string
  ck_Expires :: "gotime option"
  ck_MaxAge :: int
  ck_HttpOnly :: bool
  ck_Secure :: bool
  ck_SameSite :: string

record response =
  status_code :: nat
  resp_body :: body
  resp_cookies :: "cookie list"
  resp_headers :: "(string \<times> string) list"

definition writeError :: "nat \<Rightarrow> code \<Rightarrow> msg \<Rightarrow> response" where
  "writeError st c m = \<lparr>status_code = st, resp_body = ErrorBody c m, resp_cookies = [], resp_headers = []\<rparr>"

definition writeJSON :: "nat \<Rightarrow> body \<Rightarrow> response" where
  "writeJSON st v = \<lparr>status_code = st, resp_body = v, resp_cookies = [], resp_headers = []\<rparr>"

definition renderMessage :: "nat \<Rightarrow> msg \<Rightarrow> response" where
  "renderMessage st m = \<lparr>status_code = st, resp_body = PageBody m, resp_cookies = [], resp_headers = []\<rparr>"

definition redirect :: "string \<Rightarrow> response" where
  "redirect target = \<lparr>status_code = 302, resp_body = RedirectTo target, resp_cookies = [], resp_headers = []\<rparr>"

definition with_cookies :: "cookie list \<Rightarrow> response \<Rightarrow> response" where
  "with_cookies cs r = r\<lparr>resp_cookies := cs @ resp_cookies r\<rparr>"

definition wantsJSON :: "request \<Rightarrow> bool" where
  "wantsJSON r \<longleftrightarrow> Query r ''mode'' = ''json'' \<or> Contains (Header r ''Accept'') ''application/json''"

subsection \<open>Redirect targets (\<open>cookies.go\<close>)\<close>

definition safeInternalPath :: "string \<Rightarrow> string" where
  "safeInternalPath p =
     (if p = [] \<or> p ! 0 \<noteq> CHR ''/'' then ''/''
      else if 2 \<le> length p \<and> (p ! 1 = CHR ''/'' \<or> p ! 1 = CHR 0x5C) then ''/''
      else p)"

definition control_char :: "char \<Rightarrow> bool" where
  "control_char c \<longleftrightarrow> (of_char c :: nat) < 32 \<or> (of_char c :: nat) = 127"

definition safeRedirectTarget :: "url_parser \<Rightarrow> string list \<Rightarrow> string \<Rightarrow> string" where
  "safeRedirectTarget Parse allowedOrigins raw =
     (if raw = [] then ''/''
      else if list_ex control_char raw then ''/''
      else if raw ! 0 = CHR ''/'' then safeInternalPath raw
      else case Parse raw of
        None \<Rightarrow> ''/''
      | Some u \<Rightarrow>
          if (Scheme u \<noteq> ''http'' \<and> Scheme u \<noteq> ''https'') \<or> Host u = [] \<or> has_User u then ''/''
          else
            let origin = Scheme u @ ''://'' @ ToLower (Host u) in
            if List.member allowedOrigins origin
            then origin @ safeInternalPath (EscapedPath u) @ (if RawQuery u \<noteq> [] then CHR ''?'' # RawQuery u else [])
            else ''/'')"

subsection \<open>Cookies and CSRF (\<open>cookies.go\<close>)\<close>

definition cookieCSRF :: string where "cookieCSRF = ''sesamo_csrf''"
definition cookieOAuthState :: string where "cookieOAuthState = ''sesamo_oauth_state''"
definition cookiePKCE :: string where "cookiePKCE = ''sesamo_pkce''"
definition cookiePostLogin :: string where "cookiePostLogin = ''sesamo_post_login''"
definition oauthCookieMaxAge :: int where "oauthCookieMaxAge = 5 * 60"
definition postLoginCookieMaxAge :: int where "postLoginCookieMaxAge = 15 * 60"
definition csrfCookieMaxAge :: int where "csrfCookieMaxAge = 60 * 60"

definition setSessionCookie :: "config \<Rightarrow> string \<Rightarrow> gotime \<Rightarrow> cookie" where
  "setSessionCookie cfg token expires =
     \<lparr>ck_Name = CookieName cfg, ck_Value = token, ck_Path = ''/'', ck_Domain = CookieDomain cfg,
      ck_Expires = Some expires, ck_MaxAge = 0, ck_HttpOnly = True, ck_Secure = CookieSecure cfg, ck_SameSite = ''Lax''\<rparr>"

definition clearSessionCookie :: "config \<Rightarrow> cookie" where
  "clearSessionCookie cfg =
     \<lparr>ck_Name = CookieName cfg, ck_Value = [], ck_Path = ''/'', ck_Domain = CookieDomain cfg,
      ck_Expires = Some 0, ck_MaxAge = - 1, ck_HttpOnly = True, ck_Secure = CookieSecure cfg, ck_SameSite = ''Lax''\<rparr>"

definition setTransientTTL :: "config \<Rightarrow> string \<Rightarrow> string \<Rightarrow> int \<Rightarrow> cookie" where
  "setTransientTTL cfg name v maxAge =
     \<lparr>ck_Name = name, ck_Value = v, ck_Path = ''/'', ck_Domain = [], ck_Expires = None, ck_MaxAge = maxAge,
      ck_HttpOnly = True, ck_Secure = CookieSecure cfg, ck_SameSite = ''Lax''\<rparr>"

definition setTransient :: "config \<Rightarrow> string \<Rightarrow> string \<Rightarrow> cookie" where
  "setTransient cfg name v = setTransientTTL cfg name v oauthCookieMaxAge"

definition clearTransient :: "config \<Rightarrow> string \<Rightarrow> cookie" where
  "clearTransient cfg name =
     \<lparr>ck_Name = name, ck_Value = [], ck_Path = ''/'', ck_Domain = [], ck_Expires = None, ck_MaxAge = - 1,
      ck_HttpOnly = True, ck_Secure = CookieSecure cfg, ck_SameSite = ''Lax''\<rparr>"

definition issueCSRFToken :: "config \<Rightarrow> string \<Rightarrow> cookie" where
  "issueCSRFToken cfg token = setTransientTTL cfg cookieCSRF token csrfCookieMaxAge"

text \<open>The answer that stops the request, if any.\<close>

definition checkCSRF :: "request \<Rightarrow> response option" where
  "checkCSRF r =
     (if \<not> form_ok r then Some (writeError 400 codeInvalidRequest MsgBadForm)
      else
        let cookie = cookieValue r cookieCSRF;
            sent = (if FormValue r ''csrf_token'' = [] then Header r ''X-CSRF-Token'' else FormValue r ''csrf_token'')
        in if cookie \<noteq> [] \<and> sent \<noteq> [] \<and> SafeEqual (bytes_of cookie) (bytes_of sent) then None
           else if wantsJSON r then Some (writeError 403 codeCSRFFailed MsgCSRF)
           else Some (renderMessage 403 PageCSRF))"

definition captureRedirect :: "url_parser \<Rightarrow> config \<Rightarrow> request \<Rightarrow> cookie list" where
  "captureRedirect Parse cfg r =
     (let raw = Query r ''redirect_to'' in
      if raw \<noteq> []
      then [setTransientTTL cfg cookiePostLogin (safeRedirectTarget Parse (RedirectOrigins cfg) raw) postLoginCookieMaxAge]
      else [])"

subsection \<open>Client address, rate limit and audit (\<open>server.go\<close>, \<open>ratelimit.go\<close>)\<close>

definition clientIP :: "bool \<Rightarrow> (string \<Rightarrow> string option) \<Rightarrow> request \<Rightarrow> string" where
  "clientIP trustProxy SplitHost r =
     (if trustProxy \<and> Header r ''X-Forwarded-For'' \<noteq> []
      then TrimSpace (fst (Cut CHR '','' (Header r ''X-Forwarded-For'')))
      else case SplitHost (RemoteAddr r) of Some host \<Rightarrow> host | None \<Rightarrow> RemoteAddr r)"

definition allow :: "string \<Rightarrow> rule \<Rightarrow> gotime \<Rightarrow> response option dbm" where
  "allow key rl dbnow =
     bindM (tryM (Allow key rl dbnow)) (\<lambda>res. case res of
        Inl _ \<Rightarrow> retM None
      | Inr (allowed, retry) \<Rightarrow>
          if \<not> allowed then
            let s = retry div Second; s' = (if s < 1 then 1 else s) in
            retM (Some ((writeError 429 codeRateLimited MsgTooMany)\<lparr>resp_headers := [(''Retry-After'', Itoa s')]\<rparr>))
          else retM None)"

definition checkLoginRate :: "string \<Rightarrow> string \<Rightarrow> gotime \<Rightarrow> gotime \<Rightarrow> response option dbm" where
  "checkLoginRate ip identity dbnow dbnow' =
     bindM (allow (''login_ip:'' @ ip) loginIPRule dbnow) (\<lambda>stop. case stop of
        Some r \<Rightarrow> retM (Some r)
      | None \<Rightarrow> allow (''login_id:'' @ identity) loginIdentityRule dbnow')"

definition recordAudit :: "audit_env \<Rightarrow> string \<Rightarrow> event \<Rightarrow> string \<Rightarrow> (string \<times> jval) list \<Rightarrow> response option dbm" where
  "recordAudit env ip e actorUser detail =
     bindM (tryM (record_event env e actorUser ip detail)) (\<lambda>res. case res of
        Inl _ \<Rightarrow> bindM (inc_counter metricAuditWriteErrors) (\<lambda>_. retM (Some (writeError 500 codeInternal MsgInternal)))
      | Inr _ \<Rightarrow> retM None)"

subsection \<open>Bearer guards (\<open>service.go\<close>, \<open>admin.go\<close>)\<close>

definition bearerToken :: "request \<Rightarrow> string" where
  "bearerToken r =
     (let h = Header r ''Authorization''; p = ''Bearer '' in
      if length h > length p \<and> EqualFold (take (length p) h) p then TrimSpace (drop (length p) h) else [])"

definition requireServiceToken :: "string \<Rightarrow> request \<Rightarrow> response dbm \<Rightarrow> response dbm" where
  "requireServiceToken token r next_handler =
     (if token = [] then retM (writeError 503 codeForbidden MsgNotConfigured)
      else let got = bearerToken r in
        if got = [] \<or> \<not> SafeEqual (bytes_of got) (bytes_of token)
        then retM (writeError 401 codeUnauthorized MsgBadBearer)
        else next_handler)"

definition requireAdminKey :: "string \<Rightarrow> request \<Rightarrow> response dbm \<Rightarrow> response dbm" where
  "requireAdminKey key r next_handler =
     (if key = [] then retM (writeError 503 codeForbidden MsgNotConfigured)
      else let got = bearerToken r in
        if got = [] \<or> \<not> SafeEqual (bytes_of got) (bytes_of key)
        then retM (writeError 401 codeUnauthorized MsgBadBearer)
        else next_handler)"

subsection \<open>Middleware (\<open>server.go\<close>)\<close>

definition validRequestID :: "string \<Rightarrow> string" where
  "validRequestID raw =
     (let s = TrimSpace raw in
      if s = [] \<or> length s > 128 then []
      else if list_ex (\<lambda>c. (of_char c :: nat) < 0x21 \<or> (of_char c :: nat) > 0x7e) s then [] else s)"

definition withRequestID :: "string \<Rightarrow> request \<Rightarrow> string" where
  "withRequestID fresh r =
     (let i = validRequestID (Header r ''X-Request-Id'') in if i = [] then fresh else i)"

definition statusClass :: "nat \<Rightarrow> string" where
  "statusClass st =
     (if 200 \<le> st \<and> st < 300 then ''2xx'' else if 300 \<le> st \<and> st < 400 then ''3xx''
      else if 400 \<le> st \<and> st < 500 then ''4xx'' else if 500 \<le> st \<and> st < 600 then ''5xx'' else ''other'')"

definition securityHeaders :: "string \<Rightarrow> bool \<Rightarrow> (string \<times> string) list" where
  "securityHeaders csp cookieSecure =
     [(''X-Content-Type-Options'', ''nosniff''), (''X-Frame-Options'', ''DENY''),
      (''Referrer-Policy'', ''strict-origin-when-cross-origin''), (''Content-Security-Policy'', csp)]
     @ (if cookieSecure then [(''Strict-Transport-Security'', ''max-age=31536000; includeSubDomains'')] else [])"

definition self_source :: string where
  "self_source = CHR 0x27 # ''self'' @ [CHR 0x27]"

definition none_source :: string where
  "none_source = CHR 0x27 # ''none'' @ [CHR 0x27]"

definition buildCSP :: "url_parser \<Rightarrow> config \<Rightarrow> string" where
  "buildCSP Parse cfg =
     (let logo = Origin Parse (LogoURL (Brand cfg)); fnt = Origin Parse (FontURL (Brand cfg));
          style = ''style-src '' @ self_source @ (if ThemeCSSURL cfg \<noteq> [] then '' '' @ ThemeCSSURL cfg else []);
          img = ''img-src '' @ self_source @ '' data:'' @ (if logo \<noteq> [] then '' '' @ logo else []);
          font = ''font-src '' @ self_source @ (if fnt \<noteq> [] then '' '' @ fnt else [])
      in ''default-src '' @ self_source @ ''; '' @ style @ ''; '' @ img @ ''; '' @ font
         @ ''; form-action '' @ self_source @ ''; frame-ancestors '' @ none_source)"

subsection \<open>Redirects\<close>

text \<open>
  What \<open>safeInternalPath\<close> checks: a leading slash that no second slash or backslash follows. That
  alone does not keep a browser here: a tab between two slashes is not seen.
\<close>

definition internal_path :: "string \<Rightarrow> bool" where
  "internal_path p \<longleftrightarrow> p \<noteq> [] \<and> hd p = CHR ''/'' \<and> (2 \<le> length p \<longrightarrow> p ! 1 \<noteq> CHR ''/'' \<and> p ! 1 \<noteq> CHR 0x5C)"

text \<open>
  How a browser reads a \<open>Location\<close> (WHATWG URL, as far as it decides the host): control characters and
  spaces in front are dropped, tabs and line ends are dropped anywhere, and a backslash is a slash.
  It stays on the host that sent it when what is left begins with one slash and not two.
\<close>

definition browser_reads :: "string \<Rightarrow> string" where
  "browser_reads t =
     map (\<lambda>c. if c = CHR 0x5C then CHR ''/'' else c)
       (filter (\<lambda>c. c \<notin> {CHR 0x09, CHR 0x0A, CHR 0x0D}) (dropWhile (\<lambda>c. (of_char c :: nat) \<le> 32) t))"

definition stays_on_host :: "string \<Rightarrow> bool" where
  "stays_on_host t \<longleftrightarrow> (let b = browser_reads t in
     b \<noteq> [] \<and> hd b = CHR ''/'' \<and> (2 \<le> length b \<longrightarrow> b ! 1 \<noteq> CHR ''/''))"

text \<open>Inside the boundary: on this host, or on a listed origin, whose host ends where the path begins.\<close>

definition within_boundary :: "string list \<Rightarrow> string \<Rightarrow> bool" where
  "within_boundary origins t \<longleftrightarrow> (stays_on_host t \<and> \<not> list_ex control_char t) \<or>
     (\<exists>orig \<in> set origins. \<exists>p q. (\<exists>host. orig = ''http://'' @ host \<or> orig = ''https://'' @ host) \<and>
        internal_path p \<and> (q = [] \<or> hd q = CHR ''?'') \<and> t = orig @ p @ q)"

lemma internal_stays:
  assumes "internal_path t" and "\<not> list_ex control_char t"
  shows "stays_on_host t"
proof -
  obtain c r where t: "t = c # r" using assms(1) by (cases t) (auto simp: internal_path_def)
  then have c: "c = CHR ''/''" using assms(1) by (simp add: internal_path_def)
  have "filter (\<lambda>c. c \<notin> {CHR 0x09, CHR 0x0A, CHR 0x0D}) t = t"
    using assms(2) by (intro filter_True) (auto simp: list_ex_iff control_char_def)
  then have "browser_reads t = map (\<lambda>c. if c = CHR 0x5C then CHR ''/'' else c) t"
    by (simp add: browser_reads_def t c)
  with assms(1) show ?thesis by (cases r) (auto simp: stays_on_host_def internal_path_def t c)
qed

lemma tab_leaves_host: "internal_path [CHR ''/'', CHR 0x09, CHR ''/'', CHR ''e''] \<and> \<not> stays_on_host [CHR ''/'', CHR 0x09, CHR ''/'', CHR ''e'']"
  by code_simp

lemma safeInternalPath_internal: "internal_path (safeInternalPath p)"
  by (auto simp: safeInternalPath_def internal_path_def hd_conv_nth)

lemma safeInternalPath_id: "internal_path p \<Longrightarrow> safeInternalPath p = p"
  by (auto simp: safeInternalPath_def internal_path_def hd_conv_nth)

lemma root_internal: "internal_path ''/''"
  by (simp add: internal_path_def)

text \<open>
  The three things a target can be: the root, an internal path as given, or a listed origin with
  an internal path and the query.
\<close>

lemma safeRedirectTarget_cases [case_names root path listed]:
  obtains "safeRedirectTarget Parse origins raw = ''/''"
  | "safeRedirectTarget Parse origins raw = raw" "internal_path raw" "\<not> list_ex control_char raw"
  | u where "Parse raw = Some u" "Scheme u = ''http'' \<or> Scheme u = ''https''" "\<not> has_User u"
      "Scheme u @ ''://'' @ ToLower (Host u) \<in> set origins"
      "safeRedirectTarget Parse origins raw = (Scheme u @ ''://'' @ ToLower (Host u)) @ safeInternalPath (EscapedPath u)
         @ (if RawQuery u \<noteq> [] then CHR ''?'' # RawQuery u else [])"
proof (cases "raw = [] \<or> list_ex control_char raw")
  case True
  then show ?thesis by (intro that(1)) (auto simp: safeRedirectTarget_def)
next
  case ok: False
  show ?thesis
  proof (cases "raw ! 0 = CHR ''/''")
    case True
    with ok have "safeRedirectTarget Parse origins raw = safeInternalPath raw" by (simp add: safeRedirectTarget_def)
    with ok True that(1,2) show ?thesis
      by (auto simp: safeInternalPath_def internal_path_def hd_conv_nth split: if_splits)
  next
    case abs: False
    with ok have t: "safeRedirectTarget Parse origins raw = (case Parse raw of None \<Rightarrow> ''/''
      | Some u \<Rightarrow>
          if (Scheme u \<noteq> ''http'' \<and> Scheme u \<noteq> ''https'') \<or> Host u = [] \<or> has_User u then ''/''
          else
            let origin = Scheme u @ ''://'' @ ToLower (Host u) in
            if List.member origins origin
            then origin @ safeInternalPath (EscapedPath u) @ (if RawQuery u \<noteq> [] then CHR ''?'' # RawQuery u else [])
            else ''/'')" by (simp add: safeRedirectTarget_def)
    show ?thesis
    proof (cases "Parse raw")
      case None
      with t show ?thesis by (intro that(1)) simp
    next
      case (Some u)
      show ?thesis
      proof (cases "((Scheme u \<noteq> ''http'' \<and> Scheme u \<noteq> ''https'') \<or> Host u = [] \<or> has_User u) \<or>
          Scheme u @ ''://'' @ ToLower (Host u) \<notin> set origins")
        case True
        with t Some show ?thesis by (intro that(1)) (auto simp: Let_def)
      next
        case False
        with t Some show ?thesis by (intro that(3) [of u]) (auto simp: Let_def)
      qed
    qed
  qed
qed

definition sample_url :: url where
  "sample_url = \<lparr>Scheme = ''https'', Host = ''App.example'', has_User = False, Path = ''/home'', EscapedPath = ''/home'',
     RawQuery = ''a=1'', Fragment = [], url_Query = (\<lambda>_. [])\<rparr>"

text \<open>
  C36. No open redirect. Whatever a client asks for, the target of a redirect either has no
  control character and is read by a browser as a path of the host that sent it, or is an allow-listed
  \<open>http\<close> or \<open>https\<close> origin followed by a path and possibly a query; a harmless path is honoured as given, and a
  path that was stored in the post-login cookie passes the second validation unchanged.
\<close>

theorem redirect_never_leaves_allowlist:
  "within_boundary origins (safeRedirectTarget Parse origins raw) \<and>
   (internal_path raw \<longrightarrow> \<not> list_ex control_char raw \<longrightarrow> safeRedirectTarget Parse origins raw = raw) \<and>
   (internal_path (safeRedirectTarget Parse origins raw) \<longrightarrow>
      safeRedirectTarget Parse origins (safeRedirectTarget Parse origins raw) = safeRedirectTarget Parse origins raw)"
proof (intro conjI impI)
  show "within_boundary origins (safeRedirectTarget Parse origins raw)"
  proof (cases Parse origins raw rule: safeRedirectTarget_cases)
    case root
    have "\<not> list_ex control_char ''/''" by (simp add: control_char_def)
    with root show ?thesis using internal_stays [OF root_internal] by (simp add: within_boundary_def)
  next
    case path
    then show ?thesis by (simp add: within_boundary_def internal_stays)
  next
    case (listed u)
    have "(if RawQuery u \<noteq> [] then CHR ''?'' # RawQuery u else []) = [] \<or>
        hd (if RawQuery u \<noteq> [] then CHR ''?'' # RawQuery u else []) = CHR ''?''" by simp
    moreover have "\<exists>host. Scheme u @ ''://'' @ ToLower (Host u) = ''http://'' @ host \<or>
        Scheme u @ ''://'' @ ToLower (Host u) = ''https://'' @ host" using listed(2) by auto
    ultimately show ?thesis unfolding within_boundary_def listed(5)
      using listed(4) safeInternalPath_internal [of "EscapedPath u"] by blast
  qed
  show same: "safeRedirectTarget Parse origins p = p" if "internal_path p" "\<not> list_ex control_char p" for p
    using that by (auto simp: safeRedirectTarget_def safeInternalPath_id internal_path_def hd_conv_nth)
  assume int: "internal_path (safeRedirectTarget Parse origins raw)"
  show "safeRedirectTarget Parse origins (safeRedirectTarget Parse origins raw) = safeRedirectTarget Parse origins raw"
  proof (cases Parse origins raw rule: safeRedirectTarget_cases)
    case root
    then show ?thesis by (simp add: same root_internal control_char_def)
  next
    case path
    then show ?thesis by (simp add: same)
  next
    case (listed u)
    with int show ?thesis by (auto simp: internal_path_def)
  qed
qed

theorem redirect_never_leaves_allowlist_witness:
  "internal_path ''/home'' \<and> \<not> list_ex control_char ''/home'' \<and>
   safeRedirectTarget (\<lambda>_. None) [] ''/home'' = ''/home'' \<and>
   within_boundary [''https://app.example''] (safeRedirectTarget (\<lambda>_. Some sample_url) [''https://app.example''] ''https://App.example/home?a=1'')
   \<and> safeRedirectTarget (\<lambda>_. Some sample_url) [''https://app.example''] ''https://App.example/home?a=1'' = ''https://app.example/home?a=1''
   \<and> safeRedirectTarget (\<lambda>_. Some sample_url) [''https://other.example''] ''https://App.example/home?a=1'' = ''/''"
proof -
  have p: "internal_path ''/home''" "\<not> list_ex control_char ''/home''" by code_simp+
  have "safeRedirectTarget (\<lambda>_. Some sample_url) [''https://app.example''] ''https://App.example/home?a=1'' = ''https://app.example/home?a=1''"
    "safeRedirectTarget (\<lambda>_. Some sample_url) [''https://other.example''] ''https://App.example/home?a=1'' = ''/''"
    by code_simp+
  with p redirect_never_leaves_allowlist [of "[]" "\<lambda>_. None" "''/home''"]
    redirect_never_leaves_allowlist [of "[''https://app.example'']" "\<lambda>_. Some sample_url" "''https://App.example/home?a=1''"]
  show ?thesis by simp
qed

subsection \<open>Guards\<close>

text \<open>
  A bearer guard lets a request through exactly when a key is configured and presented; any other
  request is answered without running the handler.
\<close>

locale bearer_gate =
  fixes gate :: "string \<Rightarrow> request \<Rightarrow> response dbm \<Rightarrow> response dbm"
  assumes opens: "key \<noteq> [] \<Longrightarrow> bearerToken r = key \<Longrightarrow> gate key r h = h"
    and closed: "key = [] \<or> bearerToken r \<noteq> key \<Longrightarrow>
      \<exists>resp. gate key r h = retM resp \<and> (status_code resp = 401 \<or> status_code resp = 503)"
begin

lemma refused_has_no_effect:
  assumes "key = [] \<or> bearerToken r \<noteq> key"
  shows "snd (gate key r h w) = w"
  using closed [OF assms, of h] by (auto simp: retM_def)

lemma effect_needs_key: "snd (gate key r h w) \<noteq> w \<Longrightarrow> key \<noteq> [] \<and> bearerToken r = key"
  using refused_has_no_effect by blast

lemma gate_keeps: "keeps P h \<Longrightarrow> keeps P (gate key r h)"
  using opens [of key r h] closed [of key r h] by (cases "key \<noteq> [] \<and> bearerToken r = key") auto

lemma success_needs_key:
  assumes "gate key r h w = (Inr resp, w')" and "status_code resp = 200"
  shows "key \<noteq> [] \<and> bearerToken r = key"
  using assms closed [of key r h] by (cases "key \<noteq> [] \<and> bearerToken r = key") (auto simp: retM_def)

end

interpretation service_gate: bearer_gate requireServiceToken
  by unfold_locales (auto simp: requireServiceToken_def Let_def bytes_of_eq_iff writeError_def)

interpretation admin_gate: bearer_gate requireAdminKey
  by unfold_locales (auto simp: requireAdminKey_def Let_def bytes_of_eq_iff writeError_def)

text \<open>A form is processed exactly when it was readable and both halves of the pair agree.\<close>

lemma checkCSRF_passes_iff:
  "checkCSRF r = None \<longleftrightarrow> form_ok r \<and> cookieValue r cookieCSRF \<noteq> [] \<and>
     cookieValue r cookieCSRF =
       (if FormValue r ''csrf_token'' = [] then Header r ''X-CSRF-Token'' else FormValue r ''csrf_token'')"
  by (auto simp: checkCSRF_def Let_def bytes_of_eq_iff)

lemma allow_keeps: "(\<And>k rl t. keeps P (Allow k rl t)) \<Longrightarrow> keeps P (allow key rl dbnow)"
  by (auto simp: allow_def Let_def)

lemma checkLoginRate_keeps: "(\<And>k rl t. keeps P (Allow k rl t)) \<Longrightarrow> keeps P (checkLoginRate ip i t t')"
  by (auto simp: checkLoginRate_def intro!: allow_keeps)

text \<open>\<open>allow\<close> always answers: a limiter that fails lets the request through.\<close>

lemma allow_run:
  assumes "allow key rl t w = (r, w')"
  shows "\<exists>x. Allow key rl t w = (x, w') \<and> (\<exists>resp. r = Inr resp \<and> (resp = None \<longleftrightarrow> x \<notin> {Inr (False, d) | d. True}))"
proof -
  obtain x w1 where x: "Allow key rl t w = (x, w1)" by fastforce
  show ?thesis
  proof (cases x)
    case (Inl e)
    with assms x show ?thesis by (auto simp: allow_def tryM_def retM_def bindM_def)
  next
    case (Inr y)
    with assms x show ?thesis
      by (cases y) (auto simp: allow_def tryM_def retM_def bindM_def Let_def split: if_splits)
  qed
qed

lemma allow_other_key:
  assumes "allow key' rl' t w = (r, w')" and "key' \<noteq> key"
  shows "avail key rl (wdb w') = avail key rl (wdb w)"
proof -
  obtain x where "Allow key' rl' t w = (x, w')" using allow_run [OF assms(1)] by blast
  then show ?thesis using assms(2) by (rule Allow_other_key(1))
qed

lemma checkLoginRate_other_identity:
  assumes "checkLoginRate ip a t1 t2 w = (r, w')" and "a \<noteq> b"
  shows "avail (''login_id:'' @ b) rl (wdb w') = avail (''login_id:'' @ b) rl (wdb w)"
proof -
  obtain s w1 where s: "allow (''login_ip:'' @ ip) loginIPRule t1 w = (s, w1)" by fastforce
  have ip: "avail (''login_id:'' @ b) rl (wdb w1) = avail (''login_id:'' @ b) rl (wdb w)"
    by (rule allow_other_key [OF s]) simp
  obtain y w2 where y: "allow (''login_id:'' @ a) loginIdentityRule t2 w1 = (y, w2)" by fastforce
  have "avail (''login_id:'' @ b) rl (wdb w2) = avail (''login_id:'' @ b) rl (wdb w1)"
    by (rule allow_other_key [OF y]) (simp add: assms(2))
  with ip s y assms(1) show ?thesis
    using allow_run [OF s] by (auto simp: checkLoginRate_def bindM_def retM_def split: option.splits)
qed

text \<open>
  C20. The per-account limit is a limit per spelling. The bucket is keyed by the address as typed,
  while accounts are found without regard to case: two spellings of one address name the same
  account, yet attempts under one are never charged to the other.
\<close>

theorem identity_limit_is_per_spelling:
  assumes "citext_eq a b" and "a \<noteq> b" and "checkLoginRate ip a t1 t2 w = (r, w')"
  shows "PasswordCredential a v = PasswordCredential b v \<and> ByEmail a v = ByEmail b v \<and>
    avail (''login_id:'' @ b) loginIdentityRule (wdb w') t = avail (''login_id:'' @ b) loginIdentityRule (wdb w) t"
proof -
  have "by_email a = by_email b" using assms(1) by (auto simp: by_email_def citext_eq_def fun_eq_iff)
  with checkLoginRate_other_identity [OF assms(3,2)] show ?thesis
    by (simp add: PasswordCredential_def ByEmail_def)
qed

theorem identity_limit_is_per_spelling_witness:
  "citext_eq ''a@b.c'' ''A@b.c'' \<and> ''a@b.c'' \<noteq> ''A@b.c'' \<and>
   (\<exists>r w'. checkLoginRate ''10.0.0.1'' ''a@b.c'' 5 5 sample_world = (r, w') \<and>
      PasswordCredential ''a@b.c'' w' = PasswordCredential ''A@b.c'' w' \<and>
      avail (''login_id:'' @ ''A@b.c'') loginIdentityRule (wdb w') 5 = 5)"
proof -
  have c: "citext_eq ''a@b.c'' ''A@b.c''" "''a@b.c'' \<noteq> ''A@b.c''" by code_simp+
  obtain r w' where run: "checkLoginRate ''10.0.0.1'' ''a@b.c'' 5 5 sample_world = (r, w')" by fastforce
  have "avail (''login_id:'' @ ''A@b.c'') loginIdentityRule (wdb sample_world) 5 = 5"
    by (simp add: avail_def sample_world_def empty_db_def sql_row_def loginIdentityRule_def)
  with identity_limit_is_per_spelling [OF c run, of w' 5] run c show ?thesis by auto
qed

end
