(* ===== verification/Keyring.thy ===== *)
theory Keyring
  imports Go_Strings Database
begin

text \<open>
  Encryption of queued payloads at rest (\<open>internal/email/keyring.go\<close>). AES-256-GCM is the pair
  of parameters \<open>seal\<close> and \<open>open\<close> (key, nonce, text, associated data); the one law the code
  relies on, that a sealed text opens to itself under the same key, nonce and data, is the
  locale \<open>aead\<close>. Key material is a list of bytes and the random nonce an argument. Shown: what a
  specification parses to, that a payload survives a rotation as long as its key is kept, and
  that an operator may paste a key in any of the four base64 spellings.
\<close>

datatype keyring_err = ErrEmptyKeyring | ErrKeyringEntry | ErrKeySize | ErrDuplicateKeyID

record keyring =
  activeID :: string
  aeads :: "(string \<times> bytes) list"

definition nonceSize :: nat where "nonceSize = 12"
definition keySize :: nat where "keySize = 32"

text \<open>The first of the four decoders that accepts the text decides.\<close>

fun first_decoding :: "encoding list \<Rightarrow> string \<Rightarrow> bytes option" where
  "first_decoding [] s = None"
| "first_decoding (e # es) s = (case DecodeString e s of Some k \<Rightarrow> Some k | None \<Rightarrow> first_decoding es s)"

definition decodeKey :: "string \<Rightarrow> keyring_err + bytes" where
  "decodeKey encoded =
     (case first_decoding [StdEncoding, RawStdEncoding, URLEncoding, RawURLEncoding] encoded of
        Some key \<Rightarrow> if length key \<noteq> keySize then Inl ErrKeySize else Inr key
      | None \<Rightarrow> Inl ErrKeyringEntry)"

fun parse_entries :: "string list \<Rightarrow> keyring \<Rightarrow> keyring_err + keyring" where
  "parse_entries [] kr = Inr kr"
| "parse_entries (raw # rest) kr =
     (let entry = TrimSpace raw in
      if entry = [] then Inl ErrKeyringEntry
      else case Cut CHR '':'' entry of (i, e, ok) \<Rightarrow>
        let kid = TrimSpace i; encoded = TrimSpace e in
        if \<not> ok \<or> kid = [] \<or> encoded = [] then Inl ErrKeyringEntry
        else case decodeKey encoded of
          Inl err \<Rightarrow> Inl err
        | Inr key \<Rightarrow>
            if map_of (aeads kr) kid \<noteq> None then Inl ErrDuplicateKeyID
            else parse_entries rest
              \<lparr>activeID = (if activeID kr = [] then kid else activeID kr), aeads = aeads kr @ [(kid, key)]\<rparr>)"

definition ParseKeyring :: "string \<Rightarrow> keyring_err + keyring" where
  "ParseKeyring spec =
     (let s = TrimSpace spec in
      if s = [] then Inl ErrEmptyKeyring
      else parse_entries (Split CHR '','' s) \<lparr>activeID = [], aeads = []\<rparr>)"

definition NewEphemeralKeyring :: "bytes \<Rightarrow> keyring" where
  "NewEphemeralKeyring key = \<lparr>activeID = ''ephemeral'', aeads = [(''ephemeral'', key)]\<rparr>"

type_synonym seal_fn = "bytes \<Rightarrow> bytes \<Rightarrow> bytes \<Rightarrow> bytes \<Rightarrow> bytes"
type_synonym open_fn = "bytes \<Rightarrow> bytes \<Rightarrow> bytes \<Rightarrow> bytes \<Rightarrow> bytes option"

definition Encrypt :: "seal_fn \<Rightarrow> keyring \<Rightarrow> bytes \<Rightarrow> bytes \<Rightarrow> bytes \<Rightarrow> err + string \<times> bytes \<times> bytes" where
  "Encrypt seal k nonce plaintext aad =
     (case map_of (aeads k) (activeID k) of
        None \<Rightarrow> Inl ErrUnknownKeyID
      | Some key \<Rightarrow> Inr (activeID k, nonce, seal key nonce plaintext aad))"

definition Decrypt :: "open_fn \<Rightarrow> keyring \<Rightarrow> string \<Rightarrow> bytes \<Rightarrow> bytes \<Rightarrow> bytes \<Rightarrow> err + bytes" where
  "Decrypt opn k keyID nonce ciphertext aad =
     (case map_of (aeads k) keyID of
        None \<Rightarrow> Inl ErrUnknownKeyID
      | Some key \<Rightarrow>
          if length nonce \<noteq> nonceSize then Inl ErrPayloadAuth
          else case opn key nonce ciphertext aad of None \<Rightarrow> Inl ErrPayloadAuth | Some p \<Rightarrow> Inr p)"

definition payloadAAD :: "string \<Rightarrow> string \<Rightarrow> string \<Rightarrow> bytes" where
  "payloadAAD i provider purpose = bytes_of (i @ ''|'' @ provider @ ''|'' @ purpose)"

subsection \<open>Interface: authenticated encryption\<close>

text \<open>What the code relies on of AES-GCM.\<close>

locale aead =
  fixes seal :: seal_fn and opn :: open_fn
  assumes open_seal: "opn key nonce (seal key nonce p a) a = Some p"
begin

lemma Decrypt_Encrypt:
  assumes "Encrypt seal k nonce p a = Inr (kid, n, c)" and "length nonce = nonceSize"
    and "map_of (aeads k') kid = map_of (aeads k) kid"
  shows "Decrypt opn k' kid n c a = Inr p"
  using assms by (auto simp: Encrypt_def Decrypt_def open_seal split: option.splits)

end

text \<open>
  A concrete pair with the law, and one that also tells associated data apart: the data is
  prepended to the text and checked on opening.
\<close>

definition toy_seal :: seal_fn where
  "toy_seal key nonce p a = of_nat (length a) # a @ p"

definition toy_open :: open_fn where
  "toy_open key nonce c a = (if take (Suc (length a)) c = of_nat (length a) # a then Some (drop (Suc (length a)) c) else None)"

interpretation toy: aead toy_seal toy_open
  by unfold_locales (simp add: toy_seal_def toy_open_def)

subsection \<open>The associated data names the row\<close>

lemma payloadAAD_inj:
  assumes "payloadAAD i pr pu = payloadAAD i' pr' pu'"
    and "CHR ''|'' \<notin> set i" "CHR ''|'' \<notin> set i'" "CHR ''|'' \<notin> set pr" "CHR ''|'' \<notin> set pr'"
  shows "i = i' \<and> pr = pr' \<and> pu = pu'"
  using assms by (simp add: payloadAAD_def sep_append_inj)

subsection \<open>Keys in any spelling\<close>

text \<open>Two alphabets agree on every character both accept.\<close>

lemma dec_table_agree: "dec_table e c = Some i \<Longrightarrow> dec_table e' c = Some j \<Longrightarrow> i = j"
  by (cases e; cases e') (auto simp: dec_char_def Let_def split: if_splits)

lemma dec_table_pad: "dec_table e CHR ''='' = None"
  by (rule b64.dec_pad)

lemma decode_quanta_agree:
  assumes "decode_quanta (dec_table e) pad s = Some x" and "decode_quanta (dec_table e') pad' s = Some y"
  shows "x = y"
  using assms
proof (induction "dec_table e" pad s arbitrary: x y rule: decode_quanta.induct)
  case (3 pad a b)
  then show ?case by (auto split: option.splits if_splits dest: dec_table_agree)
next
  case (4 pad a b c)
  then show ?case by (auto split: option.splits if_splits dest: dec_table_agree)
next
  case (5 pad a b c d r)
  note p1 = "5.prems"(1) and p2 = "5.prems"(2)
  obtain i j where ij: "dec_table e a = Some i" "dec_table e b = Some j"
    using p1 by (auto split: option.splits)
  obtain i' j' where ij': "dec_table e' a = Some i'" "dec_table e' b = Some j'"
    using p2 by (auto split: option.splits)
  have eq: "i' = i" "j' = j" using ij ij' dec_table_agree by blast+
  show ?case
  proof (cases "dec_table e c")
    case None
    then have "c = CHR ''=''" "x = take 1 (byte3 i j 0 0)" using p1 ij by (auto split: if_splits)
    with p2 ij' eq show ?thesis by (auto simp: dec_table_pad split: if_splits)
  next
    case (Some k)
    then have "c \<noteq> CHR ''=''" by (auto simp: dec_table_pad)
    then obtain k' where k': "dec_table e' c = Some k'" using p2 ij' by (auto split: option.splits if_splits)
    have "k' = k" using Some k' dec_table_agree by blast
    show ?thesis
    proof (cases "dec_table e d")
      case None
      then have "d = CHR ''=''" "x = take 2 (byte3 i j k 0)" using p1 ij Some by (auto split: if_splits)
      with p2 ij' k' eq \<open>k' = k\<close> show ?thesis by (auto simp: dec_table_pad split: if_splits)
    next
      case d: (Some l)
      then have "d \<noteq> CHR ''=''" by (auto simp: dec_table_pad)
      then obtain l' where l': "dec_table e' d = Some l'" using p2 ij' k' by (auto split: option.splits if_splits)
      have "l' = l" using d l' dec_table_agree by blast
      obtain u where u: "decode_quanta (dec_table e) pad r = Some u" "x = byte3 i j k l @ u"
        using p1 ij Some d by auto
      obtain v where v: "decode_quanta (dec_table e') pad' r = Some v" "y = byte3 i j k l @ v"
        using p2 ij' k' l' eq \<open>k' = k\<close> \<open>l' = l\<close> by auto
      have "u = v" using "5.hyps" [OF _ _ _ Some d u(1) v(1)] ij by auto
      with u v show ?thesis by simp
    qed
  qed
qed auto

lemma Decode_agree: "DecodeString e s = Some x \<Longrightarrow> DecodeString e' s = Some y \<Longrightarrow> x = y"
  by (auto simp: DecodeString_def decode_gen_def dest: decode_quanta_agree)

lemma first_decoding_any:
  "e \<in> set es \<Longrightarrow> DecodeString e s = Some k \<Longrightarrow> first_decoding es s = Some k"
  by (induction es) (auto split: option.splits dest: Decode_agree)

subsection \<open>Parsing a specification\<close>

definition entry_key :: "string \<Rightarrow> (string \<times> bytes) option" where
  "entry_key raw =
     (case Cut CHR '':'' (TrimSpace raw) of (i, e, ok) \<Rightarrow>
        if \<not> ok \<or> TrimSpace i = [] \<or> TrimSpace e = [] then None
        else case decodeKey (TrimSpace e) of Inl _ \<Rightarrow> None | Inr key \<Rightarrow> Some (TrimSpace i, key))"

text \<open>Parsing appends the keys of the entries in order; the first one of all becomes active.\<close>

lemma parse_entries_spec:
  assumes "parse_entries es kr = Inr kr'"
  shows "\<exists>ks. map entry_key es = map Some ks \<and> aeads kr' = aeads kr @ ks \<and>
     distinct (map fst ks) \<and> fst ` set ks \<inter> fst ` set (aeads kr) = {} \<and> [] \<notin> fst ` set ks \<and>
     activeID kr' = (if activeID kr \<noteq> [] \<or> ks = [] then activeID kr else fst (hd ks))"
  using assms
proof (induction es kr rule: parse_entries.induct)
  case (1 kr)
  then show ?case by simp
next
  case (2 raw rest kr)
  obtain i e ok where cut: "Cut CHR '':'' (TrimSpace raw) = (i, e, ok)" by (metis prod.exhaust)
  from 2(2) obtain key where ne: "TrimSpace raw \<noteq> []" and ok: "ok" "TrimSpace i \<noteq> []" "TrimSpace e \<noteq> []"
    and key: "decodeKey (TrimSpace e) = Inr key" and new: "map_of (aeads kr) (TrimSpace i) = None"
    and rec: "parse_entries rest \<lparr>activeID = (if activeID kr = [] then TrimSpace i else activeID kr),
        aeads = aeads kr @ [(TrimSpace i, key)]\<rparr> = Inr kr'"
    by (auto simp: Let_def cut split: if_splits sum.splits)
  have e: "entry_key raw = Some (TrimSpace i, key)" using ok key by (simp add: entry_key_def cut)
  have "\<not> (\<not> ok \<or> TrimSpace i = [] \<or> TrimSpace e = [])" "\<not> map_of (aeads kr) (TrimSpace i) \<noteq> None"
    using ok new by simp_all
  from 2(1) [OF refl ne cut [symmetric] refl refl refl this(1) key this(2) rec] obtain ks where ks:
    "map entry_key rest = map Some ks" "aeads kr' = (aeads kr @ [(TrimSpace i, key)]) @ ks"
    "distinct (map fst ks)" "fst ` set ks \<inter> fst ` set (aeads kr @ [(TrimSpace i, key)]) = {}" "[] \<notin> fst ` set ks"
    "activeID kr' = (if (if activeID kr = [] then TrimSpace i else activeID kr) \<noteq> [] \<or> ks = []
        then (if activeID kr = [] then TrimSpace i else activeID kr) else fst (hd ks))"
    by auto
  have "TrimSpace i \<notin> fst ` set (aeads kr)" using new by (simp add: map_of_eq_None_iff)
  with ks e ok show ?case by (intro exI [of _ "(TrimSpace i, key) # ks"]) auto
qed

lemma ParseKeyring_spec:
  assumes "ParseKeyring spec = Inr k"
  shows "map entry_key (Split CHR '','' (TrimSpace spec)) = map Some (aeads k)"
    and "distinct (map fst (aeads k))" and "aeads k \<noteq> []" and "activeID k = fst (hd (aeads k))"
    and "[] \<notin> fst ` set (aeads k)"
proof -
  have "parse_entries (Split CHR '','' (TrimSpace spec)) \<lparr>activeID = [], aeads = []\<rparr> = Inr k"
    using assms by (simp add: ParseKeyring_def Let_def split: if_splits)
  from parse_entries_spec [OF this] obtain ks where ks: "map entry_key (Split CHR '','' (TrimSpace spec)) = map Some ks"
    "aeads k = ks" "distinct (map fst ks)" "[] \<notin> fst ` set ks" "activeID k = (if ks = [] then [] else fst (hd ks))" by auto
  then have "ks \<noteq> []" by (metis Split_not_Nil list.map_disc_iff)
  with ks show "map entry_key (Split CHR '','' (TrimSpace spec)) = map Some (aeads k)"
    and "distinct (map fst (aeads k))" and "aeads k \<noteq> []" and "activeID k = fst (hd (aeads k))"
    and "[] \<notin> fst ` set (aeads k)" by simp_all
qed

lemma ParseKeyring_active: "ParseKeyring spec = Inr k \<Longrightarrow> \<exists>key. map_of (aeads k) (activeID k) = Some key"
  using ParseKeyring_spec(3,4) [of spec k] by (cases "aeads k") auto

lemma TrimSpace_hd: "TrimSpace s = s \<Longrightarrow> s \<noteq> [] \<Longrightarrow> \<not> is_space (hd s) \<and> \<not> is_space (last s)"
proof -
  assume s: "TrimSpace s = s" "s \<noteq> []"
  have l: "length s \<le> length (dropWhile is_space s)"
    using s(1) length_dropWhile_le [of is_space "rev (dropWhile is_space s)"] by (simp add: TrimSpace_def) (metis length_rev)
  then have d: "dropWhile is_space s = s" by (metis dropWhile_eq_drop drop_eq_Nil2 drop_all length_dropWhile_le le_antisym dropWhile_eq_self_iff length_dropWhile_le append_Nil length_0_conv append_eq_append_conv takeWhile_dropWhile_id)
  then have "rev (dropWhile is_space (rev s)) = s" using s(1) by (simp add: TrimSpace_def)
  then have "dropWhile is_space (rev s) = rev s" by (metis rev_rev_ident)
  with d s(2) show ?thesis by (auto simp: dropWhile_eq_self_iff hd_rev)
qed

lemma TrimSpace_join:
  assumes "TrimSpace a = a" "a \<noteq> []" "TrimSpace b = b" "b \<noteq> []"
  shows "TrimSpace (a @ c @ b) = a @ c @ b"
proof -
  have "dropWhile is_space (a @ c @ b) = a @ c @ b"
    using TrimSpace_hd [OF assms(1,2)] assms(2) by (simp add: dropWhile_eq_self_iff)
  moreover have "dropWhile is_space (rev (a @ c @ b)) = rev (a @ c @ b)"
    using TrimSpace_hd [OF assms(3,4)] assms(4) by (subst dropWhile_eq_self_iff) (simp add: hd_append hd_rev)
  ultimately show ?thesis by (simp only: TrimSpace_def rev_rev_ident)
qed

subsection \<open>Properties\<close>

text \<open>
  C19. Rotation never strands a queued payload. When an operator puts a new entry in front of a
  working specification, whatever the old keyring opened, under any of its keys, the new one
  opens to the same text; every key of the old specification, and the new one, decrypts; payloads
  queued under the old keyring still open, new ones are sealed under the new entry's key, and
  they open again.
\<close>

theorem rotation_keeps_payloads:
  assumes aead: "\<forall>key nonce p a. opn key nonce (seal key nonce p a) a = Some p"
    and old: "ParseKeyring spec = Inr k" and new: "ParseKeyring (entry @ '','' @ spec) = Inr k'"
    and trimmed: "TrimSpace spec = spec" "TrimSpace entry = entry" "entry \<noteq> []" "CHR '','' \<notin> set entry"
    and nonce: "length nonce = nonceSize"
  shows "(\<forall>kid n c a p. Decrypt opn k kid n c a = Inr p \<longrightarrow> Decrypt opn k' kid n c a = Inr p) \<and>
     (\<forall>raw \<in> set (entry # Split CHR '','' spec). \<exists>kid key. entry_key raw = Some (kid, key) \<and>
        (\<forall>p a. Decrypt opn k' kid nonce (seal key nonce p a) a = Inr p)) \<and>
     (\<forall>p a kid n c. Encrypt seal k nonce p a = Inr (kid, n, c) \<longrightarrow> Decrypt opn k' kid n c a = Inr p) \<and>
     activeID k' \<noteq> activeID k \<and> entry_key entry = Some (hd (aeads k')) \<and> activeID k' = fst (hd (aeads k')) \<and>
     (\<forall>p a. \<exists>c. Encrypt seal k' nonce p a = Inr (activeID k', nonce, c) \<and> Decrypt opn k' (activeID k') nonce c a = Inr p)"
proof -
  have box: "aead seal opn" using aead by unfold_locales blast
  have "spec \<noteq> []" using old trimmed(1) by (auto simp: ParseKeyring_def Let_def split: if_splits)
  then have "TrimSpace (entry @ '','' @ spec) = entry @ '','' @ spec"
    using trimmed by (intro TrimSpace_join) auto
  with trimmed(4) have "Split CHR '','' (TrimSpace (entry @ '','' @ spec)) = entry # Split CHR '','' spec"
    by (simp add: Split_append)
  with ParseKeyring_spec(1) [OF new] ParseKeyring_spec(1) [OF old] trimmed(1)
  have ks: "map Some (aeads k') = entry_key entry # map Some (aeads k)" by simp
  then obtain e where e: "entry_key entry = Some e" "aeads k' = e # aeads k"
    by (cases "aeads k'") (auto dest: map_injective)
  note dist = ParseKeyring_spec(2) [OF new]
  have kept: "map_of (aeads k') kid = map_of (aeads k) kid" if "map_of (aeads k) kid \<noteq> None" for kid
  proof -
    have "kid \<in> fst ` set (aeads k)" "fst e \<notin> fst ` set (aeads k)"
      using that dist e(2) by (simp_all add: map_of_eq_None_iff)
    then show ?thesis using e(2) by (cases e) auto
  qed
  have every: "\<exists>kid key. entry_key raw = Some (kid, key) \<and> (\<forall>p a. Decrypt opn k' kid nonce (seal key nonce p a) a = Inr p)"
    if "raw \<in> set (entry # Split CHR '','' spec)" for raw
  proof -
    have "map entry_key (entry # Split CHR '','' spec) = map Some (aeads k')"
      using ks e ParseKeyring_spec(1) [OF old] trimmed(1) by simp
    then have "entry_key raw \<in> Some ` set (aeads k')" using that by (metis imageI set_map)
    then obtain kid key where raw: "entry_key raw = Some (kid, key)" "(kid, key) \<in> set (aeads k')" by auto
    then have "map_of (aeads k') kid = Some key" using dist by simp
    then have "Decrypt opn k' kid nonce (seal key nonce p a) a = Inr p" for p a
      using aead nonce by (simp add: Decrypt_def)
    with raw(1) show ?thesis by blast
  qed
  have "Decrypt opn k' kid n c a = Inr p" if "Decrypt opn k kid n c a = Inr p" for kid n c a p
    using that kept [of kid] by (cases "map_of (aeads k) kid") (auto simp: Decrypt_def)
  moreover have "Decrypt opn k' kid n c a = Inr p" if "Encrypt seal k nonce p a = Inr (kid, n, c)" for p a kid n c
  proof -
    have "map_of (aeads k) kid \<noteq> None" using that by (auto simp: Encrypt_def split: option.splits)
    then show ?thesis using aead.Decrypt_Encrypt [OF box that nonce kept] by simp
  qed
  moreover have "activeID k' \<noteq> activeID k"
    using dist e(2) ParseKeyring_spec(3,4) [OF old] ParseKeyring_spec(4) [OF new] by (cases "aeads k") auto
  moreover have "\<exists>c. Encrypt seal k' nonce p a = Inr (activeID k', nonce, c) \<and>
      Decrypt opn k' (activeID k') nonce c a = Inr p" for p a
  proof -
    obtain key where "map_of (aeads k') (activeID k') = Some key" using ParseKeyring_active [OF new] by blast
    then have "Encrypt seal k' nonce p a = Inr (activeID k', nonce, seal key nonce p a)" by (simp add: Encrypt_def)
    with aead.Decrypt_Encrypt [OF box this nonce refl] show ?thesis by blast
  qed
  moreover have "entry_key entry = Some (hd (aeads k'))" "activeID k' = fst (hd (aeads k'))"
    using e ParseKeyring_spec(4) [OF new] by simp_all
  ultimately show ?thesis using every by blast
qed

definition sample_key :: bytes where
  "sample_key = replicate 32 0"

definition sample_entry :: "string \<Rightarrow> string" where
  "sample_entry kid = kid @ '':'' @ replicate 43 CHR ''A''"

lemma sample_decode: "decodeKey (replicate 43 CHR ''A'') = Inr sample_key"
  by code_simp

lemma sample_trim: "TrimSpace (replicate 43 CHR ''A'') = replicate 43 CHR ''A''"
  by (rule TrimSpace_id) (simp add: is_space_def)

lemma sample_entry_trim: "TrimSpace (sample_entry ''old'') = sample_entry ''old''"
    "TrimSpace (sample_entry ''new'') = sample_entry ''new''"
    "TrimSpace (sample_entry ''first'') = sample_entry ''first''"
  by (rule TrimSpace_id, simp add: sample_entry_def is_space_def)+

lemma sample_cut: "Cut CHR '':'' (sample_entry ''old'') = (''old'', replicate 43 CHR ''A'', True)"
    "Cut CHR '':'' (sample_entry ''new'') = (''new'', replicate 43 CHR ''A'', True)"
    "Cut CHR '':'' (sample_entry ''first'') = (''first'', replicate 43 CHR ''A'', True)"
  by (simp_all add: sample_entry_def)

lemma sample_ids: "TrimSpace ''old'' = ''old''" "TrimSpace ''new'' = ''new''" "TrimSpace ''first'' = ''first''"
  by (simp_all add: TrimSpace_def is_space_def)

lemma sample_entry_ne: "sample_entry kid \<noteq> []" "CHR '','' \<notin> set (sample_entry ''old'')"
    "CHR '','' \<notin> set (sample_entry ''new'')" "CHR '','' \<notin> set (sample_entry ''first'')"
  by (simp_all add: sample_entry_def)

lemmas sample_parse = Let_def sample_decode sample_trim sample_entry_trim sample_cut sample_ids sample_entry_ne
  Split_no_sep Split_append

text \<open>A second rotation: a payload of the first key of all, which the old keyring only decrypts with.\<close>

theorem rotation_keeps_payloads_witness:
  "\<exists>k k'. ParseKeyring (sample_entry ''old'' @ '','' @ sample_entry ''first'') = Inr k \<and>
     ParseKeyring (sample_entry ''new'' @ '','' @ sample_entry ''old'' @ '','' @ sample_entry ''first'') = Inr k' \<and>
     activeID k = ''old'' \<and> activeID k' = ''new'' \<and>
     Decrypt toy_open k' ''first'' (replicate 12 0) (toy_seal sample_key (replicate 12 0) [1, 2] [3]) [3] = Inr [1, 2]"
proof -
  let ?f = "sample_entry ''first''" and ?o = "sample_entry ''old''" and ?n = "sample_entry ''new''"
  let ?spec = "?o @ '','' @ ?f"
  have t1: "TrimSpace ?spec = ?spec" by (rule TrimSpace_join) (simp_all add: sample_parse)
  have "TrimSpace (?n @ '','' @ ?spec) = ?n @ '','' @ ?spec"
    by (rule TrimSpace_join) (rule sample_entry_trim sample_entry_ne t1 | simp add: sample_entry_ne)+
  then have new: "ParseKeyring (?n @ '','' @ ?spec) =
      Inr \<lparr>activeID = ''new'', aeads = [(''new'', sample_key), (''old'', sample_key), (''first'', sample_key)]\<rparr>"
    by (simp add: ParseKeyring_def sample_parse)
  let ?k = "\<lparr>activeID = ''old'', aeads = [(''old'', sample_key), (''first'', sample_key)]\<rparr>"
  have old: "ParseKeyring ?spec = Inr ?k"
    using t1 by (simp add: ParseKeyring_def sample_parse)
  have t: "TrimSpace ?n = ?n" "?n \<noteq> []" "CHR '','' \<notin> set ?n" by (simp_all add: sample_parse)
  have l: "length (replicate 12 (0 :: byte)) = nonceSize" by (simp add: nonceSize_def)
  have law: "\<forall>key nonce p a. toy_open key nonce (toy_seal key nonce p a) a = Some p"
    by (simp add: toy.open_seal)
  have "Decrypt toy_open ?k ''first'' (replicate 12 0) (toy_seal sample_key (replicate 12 0) [1, 2] [3]) [3] = Inr [1, 2]"
    by (simp add: Decrypt_def nonceSize_def law)
  with rotation_keeps_payloads [where opn = toy_open and seal = toy_seal, OF law old new t1 t l] old new
  show ?thesis by auto
qed

text \<open>
  An operator may paste a key in standard or URL-safe base64, padded or not: whichever of the
  four spellings is used, a 32-byte key is read back exactly, and any other length is refused as
  such.
\<close>

theorem decodeKey_reads_every_spelling:
  "decodeKey (EncodeToString e key) = (if length key = 32 then Inr key else Inl ErrKeySize)"
proof -
  have "e \<in> set [StdEncoding, RawStdEncoding, URLEncoding, RawURLEncoding]" by (cases e) simp_all
  then have "first_decoding [StdEncoding, RawStdEncoding, URLEncoding, RawURLEncoding] (EncodeToString e key) = Some key"
    by (rule first_decoding_any) (rule Decode_Encode)
  then show ?thesis by (simp add: decodeKey_def keySize_def)
qed

end
