(* ===== verification/One_Time_Tokens.thy ===== *)
theory One_Time_Tokens
  imports Session
begin

text \<open>
  The single-use tokens behind emailed links (\<open>internal/email/token.go\<close>): issuing supersedes
  the earlier links of the same user and purpose, consuming is one conditional \<open>UPDATE\<close>, and
  the purge deletes what can never be consumed again, detaching the outbox rows that
  referred to it (\<open>ON DELETE SET NULL\<close>). \<open>H\<close> is the token hash; the Go clock (\<open>now\<close>) and the
  clock of the database (\<open>dbnow\<close>) are separate arguments.
\<close>

datatype purpose = PurposeReset | PurposeVerify | PurposeMagicLink

fun purpose_string :: "purpose \<Rightarrow> string" where
  "purpose_string PurposeReset = ''reset''"
| "purpose_string PurposeVerify = ''verify''"
| "purpose_string PurposeMagicLink = ''magiclink''"

definition mark_consumed :: "gotime \<Rightarrow> token_row \<Rightarrow> token_row" where
  [row_defs]: "mark_consumed stamp t = t\<lparr>t_consumed_at := Some stamp\<rparr>"

definition supersede_stmt :: "string \<Rightarrow> purpose \<Rightarrow> gotime \<Rightarrow> db \<Rightarrow> err + unit \<times> db" where
  "supersede_stmt uid p now d = Inr ((), d\<lparr>one_time_tokens :=
     sql_update (\<lambda>t. t_user_id t = uid \<and> t_purpose t = purpose_string p \<and> t_consumed_at t = None)
       (mark_consumed now) (one_time_tokens d)\<rparr>)"

definition insert_token :: "token_row \<Rightarrow> db \<Rightarrow> err + unit \<times> db" where
  "insert_token t d =
     (if \<not> key_free t_id (t_id t) (one_time_tokens d) then Inl ErrUniqueViolation
      else if \<not> user_exists d (t_user_id t) then Inl ErrForeignKey
      else Inr ((), d\<lparr>one_time_tokens := sql_insert t (one_time_tokens d)\<rparr>))"

definition IssueTx :: "(string \<Rightarrow> bytes) \<Rightarrow> string \<Rightarrow> string \<Rightarrow> gotime \<Rightarrow> gotime \<Rightarrow> string \<Rightarrow> purpose
    \<Rightarrow> duration \<Rightarrow> (string \<times> string) dbm" where
  "IssueTx H token tokenID now dbnow uid p ttl =
     bindM (exec (supersede_stmt uid p now)) (\<lambda>_.
     bindM (exec (insert_token \<lparr>t_id = tokenID, t_user_id = uid, t_token_hash = H token,
        t_purpose = purpose_string p, t_expires_at = time_add now ttl, t_consumed_at = None,
        t_created_at = dbnow\<rparr>)) (\<lambda>_.
     retM (token, tokenID)))"

definition Issue :: "(string \<Rightarrow> bytes) \<Rightarrow> string \<Rightarrow> string \<Rightarrow> gotime \<Rightarrow> gotime \<Rightarrow> string \<Rightarrow> purpose
    \<Rightarrow> duration \<Rightarrow> string dbm" where
  "Issue H token tokenID now dbnow uid p ttl =
     in_tx (bindM (IssueTx H token tokenID now dbnow uid p ttl) (\<lambda>(tok, _). retM tok))"

definition consumable :: "bytes \<Rightarrow> purpose \<Rightarrow> gotime \<Rightarrow> token_row \<Rightarrow> bool" where
  "consumable h p dbnow t \<longleftrightarrow> t_token_hash t = h \<and> t_purpose t = purpose_string p \<and>
     t_consumed_at t = None \<and> dbnow < t_expires_at t"

definition consume_stmt :: "bytes \<Rightarrow> purpose \<Rightarrow> gotime \<Rightarrow> db \<Rightarrow> err + string \<times> db" where
  "consume_stmt h p dbnow d =
     (case sql_row (consumable h p dbnow) (one_time_tokens d) of
        None \<Rightarrow> Inl ErrInvalidToken
      | Some t \<Rightarrow> Inr (t_user_id t, d\<lparr>one_time_tokens :=
          sql_update (consumable h p dbnow) (mark_consumed dbnow) (one_time_tokens d)\<rparr>))"

definition consume :: "(string \<Rightarrow> bytes) \<Rightarrow> gotime \<Rightarrow> string \<Rightarrow> purpose \<Rightarrow> string dbm" where
  "consume H dbnow token p = exec (consume_stmt (H token) p dbnow)"

definition dead_token :: "gotime \<Rightarrow> token_row \<Rightarrow> bool" where
  "dead_token dbnow t \<longleftrightarrow> t_expires_at t \<le> dbnow \<or> t_consumed_at t \<noteq> None"

definition detach_token :: "(token_row \<Rightarrow> bool) \<Rightarrow> token_row list \<Rightarrow> outbox_row \<Rightarrow> outbox_row" where
  [row_defs]: "detach_token dead ts r =
     (case o_token_id r of None \<Rightarrow> r
      | Some k \<Rightarrow> if list_ex (\<lambda>t. t_id t = k \<and> dead t) ts then r\<lparr>o_token_id := None\<rparr> else r)"

definition PurgeExpired_tokens :: "gotime \<Rightarrow> nat dbm" where
  "PurgeExpired_tokens dbnow =
     exec (\<lambda>d. Inr (rows_affected (dead_token dbnow) (one_time_tokens d),
       d\<lparr>one_time_tokens := sql_delete (dead_token dbnow) (one_time_tokens d),
         email_outbox := sql_update (\<lambda>_. True) (detach_token (dead_token dbnow) (one_time_tokens d))
           (email_outbox d)\<rparr>))"

text \<open>
  Every way the table of tokens changes. \<open>minted\<close> says which tokens the generator hands out.
\<close>

inductive token_step :: "(string \<Rightarrow> bytes) \<Rightarrow> (string \<Rightarrow> bool) \<Rightarrow> world \<Rightarrow> world \<Rightarrow> bool"
  for H minted where
  tk_issue: "minted token \<Longrightarrow> IssueTx H token tid now dbnow uid p ttl w = (r, w') \<Longrightarrow>
     token_step H minted w w'"
| tk_consume: "consume H dbnow token p w = (r', w') \<Longrightarrow> token_step H minted w w'"
| tk_purge: "PurgeExpired_tokens dbnow w = (n, w') \<Longrightarrow> token_step H minted w w'"
| tk_other: "one_time_tokens (wdb w') = one_time_tokens (wdb w) \<Longrightarrow> token_step H minted w w'"

text \<open>Every row of this hash and purpose has been consumed or had expired by \<open>T\<close>.\<close>

definition spent :: "bytes \<Rightarrow> purpose \<Rightarrow> gotime \<Rightarrow> db \<Rightarrow> bool" where
  "spent h p T d \<longleftrightarrow> (\<forall>t \<in> set (one_time_tokens d). t_token_hash t = h \<longrightarrow>
     t_purpose t = purpose_string p \<longrightarrow> t_consumed_at t \<noteq> None \<or> t_expires_at t \<le> T)"

text \<open>At most one link per user and purpose is unconsumed.\<close>

definition one_live :: "token_row list \<Rightarrow> bool" where
  "one_live ts \<longleftrightarrow> distinct (map (\<lambda>t. (t_user_id t, t_purpose t)) (filter (\<lambda>t. t_consumed_at t = None) ts))"

subsection \<open>Steps\<close>

lemma purpose_string_inj [simp]: "purpose_string p = purpose_string q \<longleftrightarrow> p = q"
  by (cases p; cases q) auto

interpretation consume_row: keyed_update t_id "mark_consumed stamp" for stamp
  by unfold_locales (simp add: row_defs)

interpretation detach_row: keyed_update o_id "detach_token dead ts" for dead ts
  by unfold_locales (auto simp: row_defs split: option.splits)

lemma consumable_consumed [simp]: "\<not> consumable h p dbnow (mark_consumed stamp t)"
  by (simp add: consumable_def row_defs)

text \<open>
  A predicate kept by superseding or consuming rows, by inserting a minted token and by
  deleting dead rows is kept by every step.
\<close>

lemma token_step_keeps:
  assumes "token_step H minted w w'" and "Q (one_time_tokens (wdb w))"
    and issue: "\<And>ts now t uid p. Q ts \<Longrightarrow> t_consumed_at t = None \<Longrightarrow> t_user_id t = uid \<Longrightarrow>
        t_purpose t = purpose_string p \<Longrightarrow> (\<exists>tok. minted tok \<and> t_token_hash t = H tok) \<Longrightarrow>
        Q (sql_insert t (sql_update (\<lambda>t. t_user_id t = uid \<and> t_purpose t = purpose_string p \<and>
             t_consumed_at t = None) (mark_consumed now) ts))"
    and mark: "\<And>ts P stamp. Q ts \<Longrightarrow> Q (sql_update P (mark_consumed stamp) ts)"
    and delete: "\<And>ts P. Q ts \<Longrightarrow> Q (sql_delete P ts)"
  shows "Q (one_time_tokens (wdb w'))"
  using assms(1)
proof cases
  case (tk_issue token tid now dbnow uid p ttl r)
  obtain r1 w1 where s: "exec (supersede_stmt uid p now) w = (r1, w1)" by fastforce
  show ?thesis
  proof (cases r1)
    case (Inl e)
    with s tk_issue assms(2) show ?thesis by (auto simp: IssueTx_def dest: exec_Inl_db)
  next
    case (Inr x)
    with s have d1: "one_time_tokens (wdb w1) = sql_update (\<lambda>t. t_user_id t = uid \<and>
        t_purpose t = purpose_string p \<and> t_consumed_at t = None) (mark_consumed now) (one_time_tokens (wdb w))"
      by (auto simp: supersede_stmt_def dest!: exec_InrD)
    let ?t = "\<lparr>t_id = tid, t_user_id = uid, t_token_hash = H token, t_purpose = purpose_string p,
        t_expires_at = time_add now ttl, t_consumed_at = None, t_created_at = dbnow\<rparr>"
    obtain r2 w2 where i: "exec (insert_token ?t) w1 = (r2, w2)" by fastforce
    have "w' = w2" using tk_issue(2) s Inr i by (cases r2) (auto simp: IssueTx_def retM_def)
    moreover have "Q (one_time_tokens (wdb w2))"
    proof (cases r2)
      case (Inl e)
      with i d1 assms(2) show ?thesis by (auto simp: mark dest: exec_Inl_db)
    next
      case (Inr y)
      with i have "one_time_tokens (wdb w2) = sql_insert ?t (one_time_tokens (wdb w1))"
        by (auto simp: insert_token_def dest!: exec_InrD split: if_splits)
      with d1 issue [OF assms(2), of ?t uid p now] tk_issue(1) show ?thesis by auto
    qed
    ultimately show ?thesis by simp
  qed
next
  case (tk_consume dbnow token p r')
  then show ?thesis using assms(2) mark
    by (cases r') (auto simp: consume_def consume_stmt_def dest!: exec_InrD exec_Inl_db split: option.splits)
next
  case (tk_purge dbnow n)
  then show ?thesis using assms(2) delete
    by (cases n) (auto simp: PurgeExpired_tokens_def dest!: exec_InrD exec_Inl_db)
next
  case tk_other
  then show ?thesis using assms(2) by simp
qed

lemma spent_step:
  assumes "token_step H minted w w'" and "spent h p T (wdb w)" and "\<And>t. minted t \<Longrightarrow> H t \<noteq> h"
  shows "spent h p T (wdb w')"
proof -
  have minted: "\<forall>t. minted t \<longrightarrow> H t \<noteq> h" using assms(3) by blast
  have "\<forall>t \<in> set (one_time_tokens (wdb w')). t_token_hash t = h \<longrightarrow>
     t_purpose t = purpose_string p \<longrightarrow> t_consumed_at t \<noteq> None \<or> t_expires_at t \<le> T"
    by (rule token_step_keeps [OF assms(1)])
      (use assms(2) minted in \<open>auto simp: spent_def set_sql_update row_defs\<close>)
  then show ?thesis by (simp add: spent_def)
qed

interpretation spent_inv: preserved "token_step H minted"
    "\<lambda>w. (\<forall>t. minted t \<longrightarrow> H t \<noteq> h) \<longrightarrow> spent h p T (wdb w)" for H minted h p T
  by unfold_locales (blast intro: spent_step)

lemma consume_spent:
  "consume H dbnow token p w = (Inr uid, w') \<Longrightarrow> spent (H token) p dbnow (wdb w')"
  by (auto simp: consume_def consume_stmt_def spent_def set_sql_update consumable_def row_defs
      dest!: exec_InrD split: option.splits)

lemma spent_consume:
  assumes "spent (H token) p T (wdb w)" and "T \<le> dbnow" and "consume H dbnow token p w = (Inr uid, w')"
  shows False
  using assms by (fastforce simp: spent_def consume_def consume_stmt_def consumable_def
      dest!: exec_InrD sql_row_SomeD split: option.splits)

subsection \<open>One live link per user and purpose\<close>

lemma filter_consumed_update:
  "filter (\<lambda>t. t_consumed_at t = None) (sql_update P (mark_consumed stamp) ts)
   = filter (\<lambda>t. t_consumed_at t = None \<and> \<not> P t) ts"
  by (induction ts) (auto simp: sql_update_def row_defs)

lemma distinct_map_filter_sub:
  "distinct (map f (filter P xs)) \<Longrightarrow> distinct (map f (filter (\<lambda>x. P x \<and> R x) xs))"
  by (metis distinct_map_filter filter_filter)

lemma one_live_step:
  assumes "token_step H minted w w'" and "one_live (one_time_tokens (wdb w))"
  shows "one_live (one_time_tokens (wdb w'))"
proof (rule token_step_keeps [OF assms(1), of one_live, OF assms(2)])
  show "one_live (sql_update P (mark_consumed stamp) ts)" if "one_live ts" for ts P stamp
    using that by (simp add: one_live_def filter_consumed_update distinct_map_filter_sub)
  show "one_live (sql_delete P ts)" if "one_live ts" for ts P
    using that by (simp add: one_live_def sql_delete_def distinct_map_filter_sub filter_filter
        conj_commute [of "\<not> P _"])
  show "one_live (sql_insert t (sql_update (\<lambda>t. t_user_id t = uid \<and> t_purpose t = purpose_string p \<and>
             t_consumed_at t = None) (mark_consumed now) ts))"
    if "one_live ts" "t_consumed_at t = None" "t_user_id t = uid" "t_purpose t = purpose_string p" for ts now t uid p
    using that distinct_map_filter_sub [of _ "\<lambda>t. t_consumed_at t = None" ts]
    by (auto simp: one_live_def sql_insert_def filter_consumed_update)
qed

interpretation live_inv: preserved "token_step H minted" "\<lambda>w. one_live (one_time_tokens (wdb w))"
  for H minted
  by unfold_locales (rule one_live_step)

subsection \<open>Properties\<close>

lemmas token_eval = IssueTx_def supersede_stmt_def insert_token_def consume_def consume_stmt_def
  consumable_def mark_consumed_def user_exists_def key_free_def sql_row_def sql_insert_def
  sql_update_def sql_delete_def time_add_def dbm_nofault retM_def bindM_def
  sample_world_def sample_user_def empty_db_def

definition sample_token_row :: token_row where
  "sample_token_row = \<lparr>t_id = ''k1'', t_user_id = ''u1'', t_token_hash = sample_hash ''t'',
     t_purpose = ''reset'', t_expires_at = 105, t_consumed_at = None, t_created_at = 6\<rparr>"

text \<open>The world after \<open>''u1''\<close> was issued the reset token \<open>''t''\<close> at time 5.\<close>

definition sample_token_world :: world where
  "sample_token_world =
     sample_world\<lparr>wdb := (wdb sample_world)\<lparr>one_time_tokens := [sample_token_row]\<rparr>\<rparr>"

lemma sample_issue:
  "IssueTx sample_hash ''t'' ''k1'' 5 6 ''u1'' PurposeReset 100 sample_world
   = (Inr (''t'', ''k1''), sample_token_world)"
  by (simp add: token_eval sample_token_world_def sample_token_row_def)

lemma sample_consume:
  "consume sample_hash 7 ''t'' PurposeReset sample_token_world =
     (Inr ''u1'', sample_world\<lparr>wdb := (wdb sample_world)\<lparr>one_time_tokens :=
        [mark_consumed 7 sample_token_row]\<rparr>\<rparr>)"
  by (simp add: token_eval sample_token_world_def sample_token_row_def)

text \<open>
  C7. A one-time link works at most once. After a successful \<open>Consume\<close>, no later sequence of
  issuing, consuming and purging (interleaved in any way, with any failures) lets the same token
  be consumed again for that purpose, as long as the generator does not mint a colliding token
  and the clock of the database does not run backwards.
\<close>

theorem link_is_single_use:
  assumes "consume H dbnow token p w = (Inr uid, w1)"
    and "(token_step H minted)\<^sup>*\<^sup>* w1 w2" and "\<And>t. minted t \<Longrightarrow> H t \<noteq> H token"
    and "dbnow \<le> dbnow'" and "consume H dbnow' token p w2 = (r, w3)"
  shows "(r = Inl ErrInvalidToken \<or> r = Inl ErrBackend) \<and> wdb w3 = wdb w2"
proof -
  have "spent (H token) p dbnow (wdb w1)" using assms(1) by (rule consume_spent)
  then have "spent (H token) p dbnow (wdb w2)"
    using spent_inv.run_inv [OF assms(2), of "H token" p dbnow] assms(3) by blast
  then have "r \<noteq> Inr uid'" for uid' using spent_consume assms(4,5) by metis
  then obtain e where e: "r = Inl e" by (cases r) auto
  then have "wdb w3 = wdb w2" using assms(5) by (auto simp: consume_def dest: exec_Inl_db)
  moreover have "e = ErrInvalidToken \<or> e = ErrBackend"
    using assms(5) e by (auto simp: consume_def consume_stmt_def exec_def
        split: prod.splits bool.splits option.splits)
  ultimately show ?thesis using e by simp
qed

theorem link_is_single_use_witness:
  "\<exists>w1 r w3. consume sample_hash 7 ''t'' PurposeReset sample_token_world = (Inr ''u1'', w1) \<and>
     consume sample_hash 8 ''t'' PurposeReset w1 = (r, w3) \<and> r = Inl ErrInvalidToken"
proof -
  let ?w1 = "sample_world\<lparr>wdb := (wdb sample_world)\<lparr>one_time_tokens := [mark_consumed 7 sample_token_row]\<rparr>\<rparr>"
  obtain r w3 where c: "consume sample_hash 8 ''t'' PurposeReset ?w1 = (r, w3)" by fastforce
  have "r \<noteq> Inl ErrBackend" using c by (auto simp: token_eval sample_token_row_def)
  with link_is_single_use [OF sample_consume rtranclp.rtrancl_refl _ _ c, of "\<lambda>_. False"]
  show ?thesis using sample_consume c by auto
qed

text \<open>
  Issuing a link makes it the only one that works: the new token is consumable, once, for its
  purpose and no other until its expiry and yields its user, and every earlier link of that user
  and purpose is dead.
\<close>

theorem newest_link_supersedes:
  assumes "IssueTx H token tid now dbnow uid p ttl w = (Inr x, w1)"
    and "\<And>t. t \<in> set (one_time_tokens (wdb w)) \<Longrightarrow> t_token_hash t \<noteq> H token"
    and "faults w1 = []"
  shows "x = (token, tid) \<and>
    (\<forall>T < time_add now ttl. \<exists>w2. consume H T token p w1 = (Inr uid, w2)) \<and>
    (\<forall>q T. q \<noteq> p \<or> time_add now ttl \<le> T \<longrightarrow> consume H T token q w1 = (Inl ErrInvalidToken, w1)) \<and>
    (\<forall>t \<in> set (one_time_tokens (wdb w1)). t_user_id t = uid \<and> t_purpose t = purpose_string p \<and>
       t_consumed_at t = None \<longrightarrow> t_id t = tid \<and> t_token_hash t = H token)"
proof -
  let ?t = "\<lparr>t_id = tid, t_user_id = uid, t_token_hash = H token, t_purpose = purpose_string p,
        t_expires_at = time_add now ttl, t_consumed_at = None, t_created_at = dbnow\<rparr>"
  let ?old = "sql_update (\<lambda>t. t_user_id t = uid \<and> t_purpose t = purpose_string p \<and>
      t_consumed_at t = None) (mark_consumed now) (one_time_tokens (wdb w))"
  have x: "x = (token, tid)" and d: "one_time_tokens (wdb w1) = sql_insert ?t ?old"
    using assms(1) by (auto simp: IssueTx_def bindM_eq_Inr retM_def supersede_stmt_def insert_token_def
        dest!: exec_InrD split: if_splits)
  have other: "t_token_hash t \<noteq> H token" if "t \<in> set ?old" for t
    using that assms(2) by (auto simp: set_sql_update row_defs)
  have row: "sql_row (consumable (H token) q T) (one_time_tokens (wdb w1)) =
      (if q = p \<and> T < time_add now ttl then Some ?t else None)" for q T
  proof -
    have "sql_row (consumable (H token) q T) ?old = None"
      using other by (auto simp: sql_row_None_iff consumable_def)
    then show ?thesis
      by (auto simp: d sql_insert_def sql_row_append) (auto simp: sql_row_def consumable_def)
  qed
  have "consume H T token q w1 = (if q = p \<and> T < time_add now ttl
     then (Inr uid, w1\<lparr>wdb := (wdb w1)\<lparr>one_time_tokens :=
        sql_update (consumable (H token) q T) (mark_consumed T) (one_time_tokens (wdb w1))\<rparr>\<rparr>)
     else (Inl ErrInvalidToken, w1))" for q T
    using row [of q T] assms(3) by (simp add: consume_def consume_stmt_def exec_nofault)
  moreover have "t_id t = tid \<and> t_token_hash t = H token"
    if "t \<in> set (one_time_tokens (wdb w1))" "t_user_id t = uid" "t_purpose t = purpose_string p"
      "t_consumed_at t = None" for t
  proof -
    let ?P = "\<lambda>t. t_user_id t = uid \<and> t_purpose t = purpose_string p \<and> t_consumed_at t = None"
    have "\<not> ?P (if ?P r then mark_consumed now r else r)" for r
      by (cases "?P r") (simp_all add: mark_consumed_def)
    then have "t \<notin> set ?old" using that(2-4) unfolding set_sql_update by blast
    with that(1) show ?thesis by (auto simp: d)
  qed
  ultimately show ?thesis using x by auto
qed

theorem newest_link_supersedes_witness:
  "IssueTx sample_hash ''t'' ''k1'' 5 6 ''u1'' PurposeReset 100 sample_world
     = (Inr (''t'', ''k1''), sample_token_world) \<and>
   (\<exists>w2. consume sample_hash 7 ''t'' PurposeReset sample_token_world = (Inr ''u1'', w2)) \<and>
   consume sample_hash 7 ''t'' PurposeMagicLink sample_token_world = (Inl ErrInvalidToken, sample_token_world)"
proof -
  have "faults sample_token_world = []" by (simp add: sample_token_world_def sample_world_def)
  moreover have "one_time_tokens (wdb sample_world) = []" by (simp add: sample_world_def empty_db_def)
  ultimately have
    "\<forall>T < 105. \<exists>w2. consume sample_hash T ''t'' PurposeReset sample_token_world = (Inr ''u1'', w2)"
    "\<forall>q T. q \<noteq> PurposeReset \<or> 105 \<le> T \<longrightarrow>
       consume sample_hash T ''t'' q sample_token_world = (Inl ErrInvalidToken, sample_token_world)"
    using newest_link_supersedes [OF sample_issue] by (simp_all add: time_add_def)
  with sample_issue show ?thesis by simp
qed

text \<open>
  Whatever the history of the store, at most one unconsumed link per user and purpose exists.
\<close>

lemma at_most_one_live_link:
  assumes "(token_step H minted)\<^sup>*\<^sup>* w0 w" and "one_time_tokens (wdb w0) = []"
    and "t \<in> set (one_time_tokens (wdb w))" and "t' \<in> set (one_time_tokens (wdb w))"
    and "t_consumed_at t = None" and "t_consumed_at t' = None"
    and "t_user_id t = t_user_id t'" and "t_purpose t = t_purpose t'"
  shows "t = t'"
proof -
  have "one_live (one_time_tokens (wdb w))"
    using live_inv.run_inv [OF assms(1)] assms(2) by (simp add: one_live_def)
  then have "inj_on (\<lambda>t. (t_user_id t, t_purpose t))
      (set (filter (\<lambda>t. t_consumed_at t = None) (one_time_tokens (wdb w))))"
    by (simp add: one_live_def distinct_map)
  with assms(3-8) show ?thesis by (auto dest: inj_onD)
qed

text \<open>What can be consumed from some instant on is not touched by a purge up to that instant.\<close>

lemma purge_keeps_consumable:
  assumes "t \<le> T"
  shows "sql_row (consumable h p T) (sql_delete (dead_token t) ts) = sql_row (consumable h p T) ts"
  by (rule sql_row_delete_other) (use assms in \<open>auto simp: consumable_def dead_token_def\<close>)

end
