(* ===== verification/Outbox.thy ===== *)
theory Outbox
  imports Keyring One_Time_Tokens
begin

text \<open>
  The durable queue for transactional mail (\<open>internal/email/outbox.go\<close>): enqueueing inside the
  caller's transaction, claiming under a lease, finalizing, folding provider events into the
  state of a job, and the purge. Parameters: AES-GCM (\<open>seal\<close>, \<open>opn\<close>) with the keyring, drawn
  identifiers, nonces and lease tokens (\<open>lease\<close> maps a job to the token drawn for it), the rows
  other transactions hold locked (\<open>locked\<close>, for \<open>SKIP LOCKED\<close>), and the two clocks.
\<close>

subsection \<open>Names and constants\<close>

definition MetricAccepted :: string where "MetricAccepted = ''sesamo_email_outbox_accepted_total''"
definition MetricDelivered :: string where "MetricDelivered = ''sesamo_email_outbox_delivered_total''"
definition MetricFailed :: string where "MetricFailed = ''sesamo_email_outbox_failed_total''"
definition MetricExpired :: string where "MetricExpired = ''sesamo_email_outbox_expired_total''"
definition MetricCanceled :: string where "MetricCanceled = ''sesamo_email_outbox_canceled_total''"
definition MetricRetries :: string where "MetricRetries = ''sesamo_email_outbox_retries_total''"
definition MetricDecryptErrors :: string where
  "MetricDecryptErrors = ''sesamo_email_outbox_decrypt_errors_total''"
definition MetricLeaseLost :: string where "MetricLeaseLost = ''sesamo_email_outbox_lease_lost_total''"
definition MetricWebhookEvents :: string where
  "MetricWebhookEvents = ''sesamo_email_outbox_webhook_events_total''"

definition MaxAttempts :: nat where "MaxAttempts = 12"
definition LeaseDuration :: duration where "LeaseDuration = 2 * Minute"

definition EventSent :: string where "EventSent = ''email.sent''"
definition EventDelivered :: string where "EventDelivered = ''email.delivered''"
definition EventDeliveryDelayed :: string where "EventDeliveryDelayed = ''email.delivery_delayed''"
definition EventBounced :: string where "EventBounced = ''email.bounced''"
definition EventComplained :: string where "EventComplained = ''email.complained''"
definition EventFailed :: string where "EventFailed = ''email.failed''"
definition EventSuppressed :: string where "EventSuppressed = ''email.suppressed''"

lemmas event_names = EventSent_def EventDelivered_def EventDeliveryDelayed_def EventBounced_def
  EventComplained_def EventFailed_def EventSuppressed_def

subsection \<open>Enqueueing\<close>

record queue_input =
  q_UserID :: string
  q_TokenID :: string
  q_To :: string
  q_From :: string
  q_Subject :: string
  q_Body :: string
  q_Purpose :: purpose
  q_Provider :: string
  q_SendBefore :: gotime

definition cancel_job :: "gotime \<Rightarrow> outbox_row \<Rightarrow> outbox_row" where
  [row_defs]: "cancel_job dbnow r = r\<lparr>o_nonce := None, o_ciphertext := None, o_status := Canceled,
     o_lease_token := None, o_lease_until := None, o_last_error := Some ''superseded'',
     o_updated_at := dbnow, o_canceled_at := Some dbnow\<rparr>"

definition supersede_jobs :: "string \<Rightarrow> purpose \<Rightarrow> gotime \<Rightarrow> db \<Rightarrow> err + unit \<times> db" where
  "supersede_jobs uid p dbnow d = Inr ((), d\<lparr>email_outbox :=
     sql_update (\<lambda>r. o_user_id r = uid \<and> o_purpose r = purpose_string p \<and> o_status r = Pending)
       (cancel_job dbnow) (email_outbox d)\<rparr>)"

definition new_job :: "string \<Rightarrow> string \<Rightarrow> bytes \<Rightarrow> bytes \<Rightarrow> gotime \<Rightarrow> queue_input \<Rightarrow> outbox_row" where
  "new_job oid kid nonce ct dbnow inp =
     \<lparr>o_id = oid, o_user_id = q_UserID inp,
      o_token_id = (if q_TokenID inp = [] then None else Some (q_TokenID inp)),
      o_provider = q_Provider inp, o_purpose = purpose_string (q_Purpose inp), o_recipient = q_To inp,
      o_sender = q_From inp, o_subject = q_Subject inp, o_key_id = Some kid, o_nonce = Some nonce,
      o_ciphertext = Some ct, o_status = Pending, o_attempt_count = 0, o_available_at = dbnow,
      o_lease_token = None, o_lease_until = None, o_provider_message_id = None, o_last_error = None,
      o_send_before = q_SendBefore inp, o_created_at = dbnow, o_updated_at = dbnow,
      o_accepted_at = None, o_delivered_at = None, o_failed_at = None, o_canceled_at = None,
      o_expired_at = None\<rparr>"

definition token_exists :: "db \<Rightarrow> string \<Rightarrow> bool" where
  "token_exists d k \<longleftrightarrow> list_ex (\<lambda>t. t_id t = k) (one_time_tokens d)"

definition insert_job :: "outbox_row \<Rightarrow> db \<Rightarrow> err + unit \<times> db" where
  "insert_job r d =
     (if \<not> key_free o_id (o_id r) (email_outbox d) then Inl ErrUniqueViolation
      else if \<not> user_exists d (o_user_id r) then Inl ErrForeignKey
      else if (case o_token_id r of None \<Rightarrow> False | Some k \<Rightarrow> \<not> token_exists d k) then Inl ErrForeignKey
      else Inr ((), d\<lparr>email_outbox := sql_insert r (email_outbox d)\<rparr>))"

definition QueueTx :: "seal_fn \<Rightarrow> keyring \<Rightarrow> string \<Rightarrow> bytes \<Rightarrow> gotime \<Rightarrow> queue_input \<Rightarrow> unit dbm" where
  "QueueTx seal kr oid nonce dbnow inp =
     (case Encrypt seal kr nonce (bytes_of (q_Body inp))
             (payloadAAD oid (q_Provider inp) (purpose_string (q_Purpose inp))) of
        Inl e \<Rightarrow> failM e
      | Inr (kid, n, ct) \<Rightarrow>
          bindM (exec (supersede_jobs (q_UserID inp) (q_Purpose inp) dbnow)) (\<lambda>_.
          exec (insert_job (new_job oid kid n ct dbnow inp))))"

subsection \<open>Provider events\<close>

definition mark_delivered :: "gotime \<Rightarrow> gotime \<Rightarrow> outbox_row \<Rightarrow> outbox_row" where
  [row_defs]: "mark_delivered occ dbnow r = r\<lparr>
     o_nonce := None, o_ciphertext := None,
     o_status := (if o_status r = Pending \<or> o_status r = Accepted then Delivered else o_status r),
     o_updated_at := dbnow,
     o_delivered_at := (case o_delivered_at r of None \<Rightarrow> Some occ | Some t \<Rightarrow> Some t)\<rparr>"

definition mark_undelivered :: "string \<Rightarrow> gotime \<Rightarrow> gotime \<Rightarrow> outbox_row \<Rightarrow> outbox_row" where
  [row_defs]: "mark_undelivered typ occ dbnow r = r\<lparr>
     o_nonce := None, o_ciphertext := None, o_status := Failed, o_last_error := Some typ,
     o_updated_at := dbnow,
     o_failed_at := (case o_failed_at r of None \<Rightarrow> Some occ | Some t \<Rightarrow> Some t)\<rparr>"

definition mark_sent :: "gotime \<Rightarrow> gotime \<Rightarrow> outbox_row \<Rightarrow> outbox_row" where
  [row_defs]: "mark_sent occ dbnow r = r\<lparr>o_status := Accepted, o_updated_at := dbnow,
     o_accepted_at := (case o_accepted_at r of None \<Rightarrow> Some occ | Some t \<Rightarrow> Some t)\<rparr>"

definition mark_delayed :: "string \<Rightarrow> gotime \<Rightarrow> outbox_row \<Rightarrow> outbox_row" where
  [row_defs]: "mark_delayed typ dbnow r = r\<lparr>o_last_error := Some typ, o_updated_at := dbnow\<rparr>"

text \<open>\<open>UPDATE email_outbox SET \<dots> WHERE p\<close>, answering the number of rows.\<close>

definition update_jobs :: "(outbox_row \<Rightarrow> bool) \<Rightarrow> (outbox_row \<Rightarrow> outbox_row) \<Rightarrow> nat dbm" where
  "update_jobs p f = exec (\<lambda>d. Inr (rows_affected p (email_outbox d),
     d\<lparr>email_outbox := sql_update p f (email_outbox d)\<rparr>))"

definition reduceEvent :: "string \<Rightarrow> string \<Rightarrow> gotime \<Rightarrow> gotime \<Rightarrow> unit dbm" where
  "reduceEvent pmid typ occ dbnow =
     (let mine = (\<lambda>r. o_provider_message_id r = Some pmid) in
      if typ = EventDelivered then
        bindM (update_jobs mine (mark_delivered occ dbnow)) (\<lambda>_. inc_counter MetricDelivered)
      else if typ \<in> {EventBounced, EventComplained, EventFailed, EventSuppressed} then
        bindM (update_jobs mine (mark_undelivered typ occ dbnow)) (\<lambda>_. inc_counter MetricFailed)
      else if typ = EventSent then
        bindM (update_jobs (\<lambda>r. mine r \<and> o_status r = Pending) (mark_sent occ dbnow)) (\<lambda>_. retM ())
      else if typ = EventDeliveryDelayed then
        bindM (update_jobs (\<lambda>r. mine r \<and> (o_status r = Pending \<or> o_status r = Accepted))
          (mark_delayed typ dbnow)) (\<lambda>_. retM ())
      else retM ())"

fun reduce_all :: "string \<Rightarrow> (string \<times> gotime) list \<Rightarrow> gotime \<Rightarrow> unit dbm" where
  "reduce_all pmid [] dbnow = retM ()"
| "reduce_all pmid ((typ, occ) # es) dbnow =
     bindM (reduceEvent pmid typ occ dbnow) (\<lambda>_. reduce_all pmid es dbnow)"

definition stored_events :: "string \<Rightarrow> db \<Rightarrow> (string \<times> gotime) list" where
  "stored_events pmid d = map (\<lambda>e. (e_event_type e, e_occurred_at e))
     (sort_key e_occurred_at (sort_key e_id (filter (\<lambda>e. e_provider_message_id e = pmid) (email_events d))))"

definition reconcileEvents :: "string \<Rightarrow> gotime \<Rightarrow> unit dbm" where
  "reconcileEvents pmid dbnow = bindM (query (stored_events pmid)) (\<lambda>es. reduce_all pmid es dbnow)"

definition next_event_id :: "event_row list \<Rightarrow> nat" where
  "next_event_id es = Suc (foldr (\<lambda>e m. max (e_id e) m) es 0)"

definition insert_event :: "string \<Rightarrow> string \<Rightarrow> string \<Rightarrow> gotime \<Rightarrow> gotime \<Rightarrow> db \<Rightarrow> err + bool \<times> db" where
  "insert_event svixID pmid typ occ dbnow d =
     (if \<not> key_free e_svix_id svixID (email_events d) then Inr (False, d)
      else Inr (True, d\<lparr>email_events := sql_insert
        \<lparr>e_id = next_event_id (email_events d), e_svix_id = svixID, e_provider_message_id = pmid,
         e_event_type = typ, e_occurred_at = occ, e_received_at = dbnow\<rparr> (email_events d)\<rparr>))"

definition eventTypeLabel :: "string \<Rightarrow> string" where
  "eventTypeLabel typ =
     (if typ \<in> {EventSent, EventDelivered, EventDeliveryDelayed, EventBounced, EventComplained,
                EventFailed, EventSuppressed}
      then map (\<lambda>c. if c = CHR ''.'' then CHR ''_'' else c) typ else ''other'')"

definition RecordProviderEvent :: "string \<Rightarrow> string \<Rightarrow> string \<Rightarrow> gotime \<Rightarrow> gotime \<Rightarrow> bool dbm" where
  "RecordProviderEvent svixID pmid typ occ dbnow =
     bindM (exec (insert_event svixID pmid typ occ dbnow)) (\<lambda>inserted.
       if \<not> inserted then retM False
       else bindM (inc_counter MetricWebhookEvents) (\<lambda>_.
            bindM (inc_counter (MetricWebhookEvents @ ''_'' @ eventTypeLabel typ)) (\<lambda>_.
            bindM (reduceEvent pmid typ occ dbnow) (\<lambda>_. retM True))))"

subsection \<open>Finalizing\<close>

datatype outcome =
    OutcomeAccepted string
  | OutcomeRetry string duration
  | OutcomeFailed string

definition accept_job :: "string \<Rightarrow> gotime \<Rightarrow> outbox_row \<Rightarrow> outbox_row" where
  [row_defs]: "accept_job pmid dbnow r = r\<lparr>o_nonce := None, o_ciphertext := None, o_status := Accepted,
     o_lease_token := None, o_lease_until := None, o_provider_message_id := Some pmid,
     o_last_error := None, o_updated_at := dbnow, o_accepted_at := Some dbnow\<rparr>"

definition retry_job :: "string \<Rightarrow> duration \<Rightarrow> gotime \<Rightarrow> outbox_row \<Rightarrow> outbox_row" where
  [row_defs]: "retry_job code retryIn dbnow r = r\<lparr>o_available_at := dbnow + retryIn, o_lease_token := None,
     o_lease_until := None, o_last_error := Some code, o_updated_at := dbnow\<rparr>"

definition fail_job :: "string \<Rightarrow> gotime \<Rightarrow> outbox_row \<Rightarrow> outbox_row" where
  [row_defs]: "fail_job code dbnow r = r\<lparr>o_nonce := None, o_ciphertext := None, o_status := Failed,
     o_lease_token := None, o_lease_until := None, o_last_error := Some code, o_updated_at := dbnow,
     o_failed_at := Some dbnow\<rparr>"

fun outcome_scope :: "outcome \<Rightarrow> outbox_row \<Rightarrow> bool" where
  "outcome_scope (OutcomeAccepted _) r = True"
| "outcome_scope (OutcomeRetry _ _) r = (o_status r = Pending)"
| "outcome_scope (OutcomeFailed _) r = True"

fun outcome_row :: "outcome \<Rightarrow> gotime \<Rightarrow> outbox_row \<Rightarrow> outbox_row" where
  "outcome_row (OutcomeAccepted pmid) dbnow = accept_job pmid dbnow"
| "outcome_row (OutcomeRetry code retryIn) dbnow = retry_job code retryIn dbnow"
| "outcome_row (OutcomeFailed code) dbnow = fail_job code dbnow"

definition held :: "string \<Rightarrow> string \<Rightarrow> outcome \<Rightarrow> outbox_row \<Rightarrow> bool" where
  "held jid lt out r \<longleftrightarrow> o_id r = jid \<and> o_lease_token r = Some lt \<and> outcome_scope out r"

definition Finalize :: "string \<Rightarrow> string \<Rightarrow> outcome \<Rightarrow> gotime \<Rightarrow> unit dbm" where
  "Finalize jid lt out dbnow =
     bindM (update_jobs (held jid lt out) (outcome_row out dbnow)) (\<lambda>n.
       if n = 0 then failM ErrLeaseLost
       else case out of
         OutcomeAccepted pmid \<Rightarrow> if pmid \<noteq> [] then reconcileEvents pmid dbnow else retM ()
       | _ \<Rightarrow> retM ())"

subsection \<open>Claiming\<close>

record message =
  m_To :: string
  m_Subject :: string
  m_Body :: string

record job =
  j_ID :: string
  j_UserID :: string
  j_Provider :: string
  j_Purpose :: string
  j_Attempt :: nat
  j_LeaseToken :: string
  j_LeaseUntil :: gotime
  j_SendBefore :: gotime
  j_Message :: message

definition IdempotencyKey :: "job \<Rightarrow> string" where
  "IdempotencyKey j = ''auth-email/'' @ j_ID j"

definition claimable :: "string \<Rightarrow> (string \<Rightarrow> bool) \<Rightarrow> gotime \<Rightarrow> outbox_row \<Rightarrow> bool" where
  "claimable provider locked dbnow r \<longleftrightarrow> o_status r = Pending \<and> o_provider r = provider \<and>
     o_available_at r \<le> dbnow \<and> (case o_lease_until r of None \<Rightarrow> True | Some t \<Rightarrow> t \<le> dbnow) \<and>
     \<not> locked (o_id r)"

definition token_live :: "gotime \<Rightarrow> db \<Rightarrow> outbox_row \<Rightarrow> bool" where
  "token_live dbnow d r = (case o_token_id r of None \<Rightarrow> False
     | Some k \<Rightarrow> list_ex (\<lambda>t. t_id t = k \<and> t_consumed_at t = None \<and> dbnow < t_expires_at t) (one_time_tokens d))"

text \<open>The locked candidates, each with whether the link it carries is live.\<close>

definition candidates :: "string \<Rightarrow> nat \<Rightarrow> (string \<Rightarrow> bool) \<Rightarrow> gotime \<Rightarrow> db \<Rightarrow> (outbox_row \<times> bool) list" where
  "candidates provider limit locked dbnow d = map (\<lambda>r. (r, token_live dbnow d r))
     (take limit (sort_key o_available_at (filter (claimable provider locked dbnow) (email_outbox d))))"

datatype verdict = VExpired | VExhausted | VDead | VLeasable

definition verdict_of :: "gotime \<Rightarrow> outbox_row \<times> bool \<Rightarrow> verdict" where
  "verdict_of now c = (case c of (r, live) \<Rightarrow>
     if \<not> After (o_send_before r) now then VExpired
     else if MaxAttempts \<le> o_attempt_count r then VExhausted
     else if o_token_id r \<noteq> None \<and> \<not> live then VDead
     else VLeasable)"

definition ids_with :: "gotime \<Rightarrow> verdict \<Rightarrow> (outbox_row \<times> bool) list \<Rightarrow> string list" where
  "ids_with now v cs = map (o_id \<circ> fst) (filter (\<lambda>c. verdict_of now c = v) cs)"

definition retire_job :: "status \<Rightarrow> string \<Rightarrow> gotime \<Rightarrow> outbox_row \<Rightarrow> outbox_row" where
  [row_defs]: "retire_job st reason dbnow r = r\<lparr>o_nonce := None, o_ciphertext := None, o_status := st,
     o_lease_token := None, o_lease_until := None, o_last_error := Some reason, o_updated_at := dbnow,
     o_failed_at := (if st = Failed then Some dbnow else o_failed_at r),
     o_canceled_at := (if st = Canceled then Some dbnow else o_canceled_at r),
     o_expired_at := (if st = Expired then Some dbnow else o_expired_at r)\<rparr>"

definition retire :: "string list \<Rightarrow> status \<Rightarrow> string \<Rightarrow> gotime \<Rightarrow> unit dbm" where
  "retire ids st reason dbnow =
     (if ids = [] then retM ()
      else bindM (update_jobs (\<lambda>r. o_id r \<in> set ids) (retire_job st reason dbnow)) (\<lambda>_. retM ()))"

definition lease_job :: "(string \<Rightarrow> string) \<Rightarrow> gotime \<Rightarrow> outbox_row \<Rightarrow> outbox_row" where
  [row_defs]: "lease_job lease dbnow r = r\<lparr>o_attempt_count := o_attempt_count r + 1,
     o_lease_token := Some (lease (o_id r)), o_lease_until := Some (dbnow + LeaseDuration),
     o_updated_at := dbnow\<rparr>"

definition lease_stmt :: "string list \<Rightarrow> (string \<Rightarrow> string) \<Rightarrow> gotime \<Rightarrow> db
    \<Rightarrow> err + (string \<times> nat \<times> string \<times> gotime) list \<times> db" where
  "lease_stmt ids lease dbnow d =
     Inr (map (\<lambda>r. (o_id r, o_attempt_count r + 1, lease (o_id r), dbnow + LeaseDuration))
            (filter (\<lambda>r. o_id r \<in> set ids) (email_outbox d)),
          d\<lparr>email_outbox := sql_update (\<lambda>r. o_id r \<in> set ids) (lease_job lease dbnow) (email_outbox d)\<rparr>)"

definition job_of :: "(string \<times> nat \<times> string \<times> gotime) list \<Rightarrow> outbox_row \<Rightarrow> job" where
  "job_of leased r = (case map_of leased (o_id r) of
       None \<Rightarrow> \<lparr>j_ID = o_id r, j_UserID = o_user_id r, j_Provider = o_provider r, j_Purpose = o_purpose r,
         j_Attempt = 0, j_LeaseToken = [], j_LeaseUntil = zero_time, j_SendBefore = o_send_before r,
         j_Message = \<lparr>m_To = o_recipient r, m_Subject = o_subject r, m_Body = []\<rparr>\<rparr>
     | Some (att, lt, until) \<Rightarrow> \<lparr>j_ID = o_id r, j_UserID = o_user_id r, j_Provider = o_provider r,
         j_Purpose = o_purpose r, j_Attempt = att, j_LeaseToken = lt, j_LeaseUntil = until,
         j_SendBefore = o_send_before r,
         j_Message = \<lparr>m_To = o_recipient r, m_Subject = o_subject r, m_Body = []\<rparr>\<rparr>)"

text \<open>
  The transaction of \<open>Claim\<close>. An empty candidate list returns without committing: the body
  stops with \<open>ErrNoRows\<close>, which \<open>Claim\<close> turns into an empty answer. A row without a key
  identifier cannot be scanned.
\<close>

definition claim_tx :: "string \<Rightarrow> nat \<Rightarrow> (string \<Rightarrow> bool) \<Rightarrow> (string \<Rightarrow> string) \<Rightarrow> gotime \<Rightarrow> gotime
    \<Rightarrow> (nat \<times> nat \<times> nat \<times> (outbox_row \<times> job) list) dbm" where
  "claim_tx provider limit locked lease now dbnow =
     bindM (query (candidates provider limit locked dbnow)) (\<lambda>cs.
       if list_ex (\<lambda>c. o_key_id (fst c) = None) cs then failM ErrBackend
       else if cs = [] then failM ErrNoRows
       else
         let expired = ids_with now VExpired cs; exhausted = ids_with now VExhausted cs;
             dead = ids_with now VDead cs; leasable = ids_with now VLeasable cs
         in bindM (retire expired Expired ''send_window_elapsed'' dbnow) (\<lambda>_.
            bindM (retire exhausted Failed ''max_attempts'' dbnow) (\<lambda>_.
            bindM (retire dead Canceled ''token_inactive'' dbnow) (\<lambda>_.
            if leasable = [] then retM (length expired, length exhausted, length dead, [])
            else bindM (exec (lease_stmt leasable lease dbnow)) (\<lambda>leased.
              retM (length expired, length exhausted, length dead,
                map (\<lambda>(r, _). (r, job_of leased r)) (filter (\<lambda>c. verdict_of now c = VLeasable) cs)))))))"

definition open_claim :: "open_fn \<Rightarrow> keyring \<Rightarrow> outbox_row \<Rightarrow> job \<Rightarrow> err + bytes" where
  "open_claim opn kr c j = Decrypt opn kr (case o_key_id c of None \<Rightarrow> [] | Some k \<Rightarrow> k)
     (case o_nonce c of None \<Rightarrow> [] | Some n \<Rightarrow> n) (case o_ciphertext c of None \<Rightarrow> [] | Some x \<Rightarrow> x)
     (payloadAAD (j_ID j) (j_Provider j) (j_Purpose j))"

fun decrypt_jobs :: "open_fn \<Rightarrow> keyring \<Rightarrow> gotime \<Rightarrow> (outbox_row \<times> job) list \<Rightarrow> job list dbm" where
  "decrypt_jobs opn kr dbnow [] = retM []"
| "decrypt_jobs opn kr dbnow ((c, j) # cs) =
     (case open_claim opn kr c j of
        Inl e \<Rightarrow>
          bindM (inc_counter MetricDecryptErrors) (\<lambda>_.
          bindM (ignoreM (Finalize (j_ID j) (j_LeaseToken j) (OutcomeFailed ''decrypt_failed'') dbnow)) (\<lambda>_.
          decrypt_jobs opn kr dbnow cs))
      | Inr body \<Rightarrow>
          bindM (decrypt_jobs opn kr dbnow cs) (\<lambda>js.
          retM (j\<lparr>j_Message := (j_Message j)\<lparr>m_Body := string_of body\<rparr>\<rparr> # js)))"

definition Claim :: "open_fn \<Rightarrow> keyring \<Rightarrow> string \<Rightarrow> nat \<Rightarrow> (string \<Rightarrow> bool) \<Rightarrow> (string \<Rightarrow> string)
    \<Rightarrow> gotime \<Rightarrow> gotime \<Rightarrow> gotime \<Rightarrow> job list dbm" where
  "Claim opn kr provider limit locked lease now dbnow dbnow' =
     bindM (tryM (in_tx (claim_tx provider limit locked lease now dbnow))) (\<lambda>r. case r of
        Inl ErrNoRows \<Rightarrow> retM []
      | Inl e \<Rightarrow> failM e
      | Inr (expired, exhausted, dead, claimed) \<Rightarrow>
          bindM (repeatM expired (inc_counter MetricExpired)) (\<lambda>_.
          bindM (repeatM exhausted (inc_counter MetricFailed)) (\<lambda>_.
          bindM (repeatM dead (inc_counter MetricCanceled)) (\<lambda>_.
          decrypt_jobs opn kr dbnow' claimed))))"

subsection \<open>Health and retention\<close>

record stats =
  st_Pending :: nat
  st_OldestPendingAge :: duration

definition QueueStats :: "string \<Rightarrow> gotime \<Rightarrow> stats dbm" where
  "QueueStats provider now = query (\<lambda>d.
     let mine = filter (\<lambda>r. o_status r = Pending \<and> o_provider r = provider) (email_outbox d)
     in \<lparr>st_Pending = length mine,
         st_OldestPendingAge = (case map o_available_at mine of [] \<Rightarrow> 0
           | t # ts \<Rightarrow> max 0 (time_sub now (foldr min ts t)))\<rparr>)"

definition finished :: "duration \<Rightarrow> gotime \<Rightarrow> outbox_row \<Rightarrow> bool" where
  "finished olderThan dbnow r \<longleftrightarrow>
     (o_status r \<noteq> Pending \<and> o_updated_at r < dbnow - olderThan) \<or>
     (o_status r = Pending \<and> o_send_before r < dbnow - olderThan)"

definition PurgeFinished :: "duration \<Rightarrow> gotime \<Rightarrow> gotime \<Rightarrow> nat dbm" where
  "PurgeFinished olderThan dbnow dbnow' =
     bindM (exec (\<lambda>d. Inr (rows_affected (finished olderThan dbnow) (email_outbox d),
        d\<lparr>email_outbox := sql_delete (finished olderThan dbnow) (email_outbox d)\<rparr>))) (\<lambda>removed.
     bindM (exec (\<lambda>d. Inr (rows_affected (\<lambda>e. e_received_at e < dbnow' - olderThan) (email_events d),
        d\<lparr>email_events := sql_delete (\<lambda>e. e_received_at e < dbnow' - olderThan) (email_events d)\<rparr>))) (\<lambda>n.
     retM (removed + n)))"

end
