(* ===== verification/Webhook.thy ===== *)
theory Webhook
  imports Http_Guards Outbox
begin

text \<open>
  Signed delivery events: verification and signing (\<open>internal/email/webhook.go\<close>) and the handler
  that records a verified event (\<open>internal/http/webhook.go\<close>). HMAC-SHA256 is the parameter \<open>mac\<close>
  (key, message). A request carries its three headers and its body; what the body decodes to as
  JSON is an argument. Shown: what was signed verifies exactly within the tolerance, and
  nothing verifies without a signature over its own id, timestamp and body.
\<close>

datatype webhook_err = ErrWebhookHeaders | ErrWebhookSecret | ErrWebhookTimestamp | ErrWebhookSignature

definition WebhookTolerance :: duration where "WebhookTolerance = 5 * Minute"

record svix_headers =
  svix_id :: string
  svix_timestamp :: string
  svix_signature :: string

fun first_nonempty_decoding :: "encoding list \<Rightarrow> string \<Rightarrow> bytes option" where
  "first_nonempty_decoding [] s = None"
| "first_nonempty_decoding (e # es) s =
     (case DecodeString e s of
        Some k \<Rightarrow> if k \<noteq> [] then Some k else first_nonempty_decoding es s
      | None \<Rightarrow> first_nonempty_decoding es s)"

definition decodeWebhookSecret :: "string \<Rightarrow> webhook_err + bytes" where
  "decodeWebhookSecret secret =
     (let s = TrimPrefix (TrimSpace secret) ''whsec_'' in
      if s = [] then Inl ErrWebhookSecret
      else case first_nonempty_decoding [StdEncoding, RawStdEncoding, URLEncoding, RawURLEncoding] s of
        Some key \<Rightarrow> Inr key
      | None \<Rightarrow> Inl ErrWebhookSecret)"

definition svix_message :: "string \<Rightarrow> string \<Rightarrow> bytes \<Rightarrow> bytes" where
  "svix_message i ts body = bytes_of i @ bytes_of ''.'' @ bytes_of ts @ bytes_of ''.'' @ body"

fun any_match :: "bytes \<Rightarrow> string list \<Rightarrow> bool" where
  "any_match want [] = False"
| "any_match want (entry # es) =
     (case Cut CHR '','' entry of (version, sig, ok) \<Rightarrow>
        if \<not> ok \<or> version \<noteq> ''v1'' then any_match want es
        else SafeEqual (bytes_of sig) want \<or> any_match want es)"

definition VerifySvix :: "(bytes \<Rightarrow> bytes \<Rightarrow> bytes) \<Rightarrow> string \<Rightarrow> svix_headers \<Rightarrow> bytes \<Rightarrow> gotime \<Rightarrow> duration
    \<Rightarrow> webhook_err + string" where
  "VerifySvix mac secret h body now tolerance =
     (let svixID = TrimSpace (svix_id h); timestamp = TrimSpace (svix_timestamp h);
          signatures = TrimSpace (svix_signature h)
      in if svixID = [] \<or> timestamp = [] \<or> signatures = [] then Inl ErrWebhookHeaders
         else case decodeWebhookSecret secret of
           Inl e \<Rightarrow> Inl e
         | Inr key \<Rightarrow> (case Atoi timestamp of
             None \<Rightarrow> Inl ErrWebhookTimestamp
           | Some seconds \<Rightarrow>
               let drift = time_sub now (seconds * Second) in
               if tolerance < drift \<or> drift < - tolerance then Inl ErrWebhookTimestamp
               else
                 let want = bytes_of (EncodeToString StdEncoding (mac key (svix_message svixID timestamp body)))
                 in if any_match want (Fields signatures) then Inr svixID else Inl ErrWebhookSignature))"

definition SignSvix :: "(bytes \<Rightarrow> bytes \<Rightarrow> bytes) \<Rightarrow> string \<Rightarrow> string \<Rightarrow> gotime \<Rightarrow> bytes \<Rightarrow> webhook_err + string" where
  "SignSvix mac secret svixID timestamp body =
     (case decodeWebhookSecret secret of
        Inl e \<Rightarrow> Inl e
      | Inr key \<Rightarrow> Inr (''v1,'' @ EncodeToString StdEncoding (mac key (svix_message svixID (Itoa (Unix timestamp)) body))))"

subsection \<open>The handler (\<open>internal/http/webhook.go\<close>)\<close>

record resend_event =
  ev_Type :: string
  ev_EmailID :: string
  ev_CreatedAt :: "gotime option"

definition MetricWebhookSignatureErrors :: string where
  "MetricWebhookSignatureErrors = ''sesamo_email_outbox_webhook_signature_errors_total''"

text \<open>
  \<open>decode\<close> is what the body unmarshals to, if it does; \<open>ev_CreatedAt\<close> the parsed time, if it parses.
\<close>

definition svix_of :: "request \<Rightarrow> svix_headers" where
  "svix_of r = \<lparr>svix_id = Header r ''svix-id'', svix_timestamp = Header r ''svix-timestamp'',
     svix_signature = Header r ''svix-signature''\<rparr>"

definition handleResendWebhook :: "(bytes \<Rightarrow> bytes \<Rightarrow> bytes) \<Rightarrow> (bytes \<Rightarrow> resend_event option) \<Rightarrow> string
    \<Rightarrow> gotime \<Rightarrow> gotime \<Rightarrow> request \<Rightarrow> response dbm" where
  "handleResendWebhook mac decode secret now dbnow r =
     (if secret = [] then retM (writeError 503 codeForbidden MsgWebhookOff)
      else case raw_body r of
        None \<Rightarrow> retM (writeError 400 codeInvalidRequest MsgBadBody)
      | Some b \<Rightarrow> (case VerifySvix mac secret (svix_of r) b now WebhookTolerance of
          Inl _ \<Rightarrow> bindM (inc_counter MetricWebhookSignatureErrors) (\<lambda>_.
            retM (writeError 401 codeUnauthorized MsgBadSignature))
        | Inr svixID \<Rightarrow> (case decode b of
            None \<Rightarrow> retM (writeError 400 codeInvalidRequest MsgBadEvent)
          | Some ev \<Rightarrow>
              if ev_Type ev = [] \<or> ev_EmailID ev = [] then retM (writeError 400 codeInvalidRequest MsgBadEvent)
              else
                let occurredAt = (case ev_CreatedAt ev of None \<Rightarrow> now | Some t \<Rightarrow> t) in
                bindM (tryM (RecordProviderEvent svixID (ev_EmailID ev) (ev_Type ev) occurredAt dbnow)) (\<lambda>res. case res of
                  Inl _ \<Rightarrow> retM (writeError 500 codeInternal MsgInternal)
                | Inr _ \<Rightarrow> retM (writeJSON 200 (JsonBody [(''status'', JString ''ok'')]))))))"

subsection \<open>Matching\<close>

lemma any_match_iff:
  "any_match (bytes_of want) es \<longleftrightarrow> ''v1,'' @ want \<in> set es"
proof (induction es)
  case (Cons e es)
  obtain version sig ok where cut: "Cut CHR '','' e = (version, sig, ok)" by (metis prod.exhaust)
  have "(ok \<and> version = ''v1'' \<and> sig = want) \<longleftrightarrow> e = ''v1,'' @ want"
  proof
    assume "ok \<and> version = ''v1'' \<and> sig = want"
    then show "e = ''v1,'' @ want" using Cut_eq [of "CHR '',''" e version sig] cut by simp
  next
    assume "e = ''v1,'' @ want"
    then show "ok \<and> version = ''v1'' \<and> sig = want" using cut by simp
  qed
  with Cons cut show ?case by auto
qed simp

subsection \<open>Property\<close>

text \<open>
  C34. Webhook signatures. A body signed under a secret, with its id and timestamp, verifies under
  that secret exactly while the timestamp is within the tolerance, in the company of any other
  signatures (as during a rotation); and nothing ever verifies unless one of the presented
  signatures is the MAC, under the decoded secret, of precisely the id, timestamp and body received.
\<close>

theorem webhook_signature_is_exact:
  assumes "SignSvix mac secret i ts body = Inr sig" and "sig \<in> set (Fields (TrimSpace sigs))"
    and "TrimSpace i = i" and "i \<noteq> []" and "- (2 ^ 63) \<le> Unix ts" and "Unix ts < 2 ^ 63"
  shows "VerifySvix mac secret \<lparr>svix_id = i, svix_timestamp = Itoa (Unix ts), svix_signature = sigs\<rparr> body now tol =
      (if - tol \<le> time_sub now (Unix ts * Second) \<and> time_sub now (Unix ts * Second) \<le> tol then Inr i else Inl ErrWebhookTimestamp) \<and>
    (\<forall>h b x. VerifySvix mac secret h b now tol = Inr x \<longrightarrow> x = TrimSpace (svix_id h) \<and>
       (\<exists>key. decodeWebhookSecret secret = Inr key \<and>
          ''v1,'' @ EncodeToString StdEncoding (mac key (svix_message x (TrimSpace (svix_timestamp h)) b))
            \<in> set (Fields (TrimSpace (svix_signature h)))))"
proof
  obtain key where key: "decodeWebhookSecret secret = Inr key"
    and sig: "sig = ''v1,'' @ EncodeToString StdEncoding (mac key (svix_message i (Itoa (Unix ts)) body))"
    using assms(1) by (auto simp: SignSvix_def split: sum.splits)
  have "TrimSpace sigs \<noteq> []" using assms(2) by (auto simp: Fields_def)
  moreover have "any_match (bytes_of (EncodeToString StdEncoding (mac key (svix_message i (Itoa (Unix ts)) body))))
      (Fields (TrimSpace sigs))" using assms(2) sig by (simp add: any_match_iff)
  ultimately show "VerifySvix mac secret \<lparr>svix_id = i, svix_timestamp = Itoa (Unix ts), svix_signature = sigs\<rparr> body now tol =
      (if - tol \<le> time_sub now (Unix ts * Second) \<and> time_sub now (Unix ts * Second) \<le> tol then Inr i else Inl ErrWebhookTimestamp)"
    using assms(3-6) key by (auto simp: VerifySvix_def Let_def Atoi_Itoa)
next
  show "\<forall>h b x. VerifySvix mac secret h b now tol = Inr x \<longrightarrow> x = TrimSpace (svix_id h) \<and>
       (\<exists>key. decodeWebhookSecret secret = Inr key \<and>
          ''v1,'' @ EncodeToString StdEncoding (mac key (svix_message x (TrimSpace (svix_timestamp h)) b))
            \<in> set (Fields (TrimSpace (svix_signature h))))"
    by (auto simp: VerifySvix_def Let_def any_match_iff split: if_splits sum.splits option.splits)
qed

theorem webhook_signature_is_exact_witness:
  "\<exists>sig. SignSvix (\<lambda>k m. k @ m) ''whsec_QUJD'' ''msg'' 5000000000 [1] = Inr sig \<and>
     VerifySvix (\<lambda>k m. k @ m) ''whsec_QUJD'' \<lparr>svix_id = ''msg'', svix_timestamp = Itoa (Unix 5000000000), svix_signature = sig\<rparr>
       [1] 6000000000 WebhookTolerance = Inr ''msg''"
proof -
  let ?mac = "\<lambda>k m. k @ m :: bytes"
  have "case SignSvix ?mac ''whsec_QUJD'' ''msg'' 5000000000 [1] of Inl _ \<Rightarrow> False | Inr sig \<Rightarrow> sig \<in> set (Fields (TrimSpace sig))"
    by code_simp
  then obtain sig where s: "SignSvix ?mac ''whsec_QUJD'' ''msg'' 5000000000 [1] = Inr sig" "sig \<in> set (Fields (TrimSpace sig))"
    by (auto split: sum.splits)
  have h: "TrimSpace ''msg'' = ''msg''" "''msg'' \<noteq> []" "- (2 ^ 63) \<le> Unix 5000000000" "Unix 5000000000 < 2 ^ 63"
    by (simp_all add: TrimSpace_def is_space_def Unix_def)
  have "- WebhookTolerance \<le> time_sub 6000000000 (Unix 5000000000 * Second) \<and>
      time_sub 6000000000 (Unix 5000000000 * Second) \<le> WebhookTolerance"
    by (simp add: WebhookTolerance_def Minute_def time_sub_def Unix_def Second_def sat64_def)
  with webhook_signature_is_exact [OF s h, of 6000000000 WebhookTolerance] s show ?thesis by auto
qed

end
