(* ===== verification/Handlers.thy ===== *)
theory Handlers
  imports Webhook One_Time_Tokens
begin

text \<open>
  The handlers (\<open>internal/http/enduser.go\<close>, \<open>service.go\<close>, \<open>admin.go\<close>): one definition per handler,
  composed of the stores' operations the way the code composes them. \<open>server\<close> is what a handler
  reaches through its receiver, the third-party functions among it; \<open>draws\<close> is what one request
  takes from the random generator and from the two clocks (\<open>wall\<close>, \<open>dbclock\<close>: one reading per call,
  in order). An OAuth provider is the pair of functions of the Go interface; an
  exchange yields a profile, an error, or a panic. Executing a template
  is not modelled: a page is the value handed to it.
\<close>

datatype exchange_result = Exchanged oauth_profile | ExchangeFailed | ExchangePanics

record provider =
  AuthorizeURL :: "string \<Rightarrow> string \<Rightarrow> string"
  Exchange :: "string \<Rightarrow> string \<Rightarrow> exchange_result"

record server =
  cfg :: config
  url_Parse :: url_parser
  SplitHost :: "string \<Rightarrow> string option"
  normIP :: "string \<Rightarrow> string option"
  HashToken :: "string \<Rightarrow> bytes"
  idkey :: idkey_fn
  bcrypt :: "string \<Rightarrow> string \<Rightarrow> bool option"
  seal :: seal_fn
  hmac :: "bytes \<Rightarrow> bytes \<Rightarrow> bytes"
  decode_event :: "bytes \<Rightarrow> resend_event option"
  srv_keyring :: keyring
  providers :: "string \<Rightarrow> provider option"
  provider_names :: "string list"

record draws =
  d_session :: bytes
  d_link :: bytes
  d_csrf :: bytes
  d_state :: bytes
  d_pkce :: bytes
  d_salt :: "bytes option"
  d_nonce :: bytes
  d_uid :: string
  d_iid :: string
  d_tokenID :: string
  d_outboxID :: string
  wall :: "nat \<Rightarrow> gotime"
  dbclock :: "nat \<Rightarrow> gotime"

subsection \<open>Shared steps\<close>

definition client :: "server \<Rightarrow> request \<Rightarrow> string" where
  "client s r = clientIP (TrustProxy (cfg s)) (SplitHost s) r"

definition audit_of :: "server \<Rightarrow> gotime \<Rightarrow> audit_env" where
  "audit_of s t = \<lparr>strict = AuditStrict (cfg s), ParseIP = normIP s, audit_now = t\<rparr>"

text \<open>A check that may answer the request itself, and a call whose error the handler inspects.\<close>

definition guardM :: "response option dbm \<Rightarrow> response dbm \<Rightarrow> response dbm" where
  "guardM check k = bindM check (\<lambda>stop. case stop of Some resp \<Rightarrow> retM resp | None \<Rightarrow> k)"

definition attempt :: "'a dbm \<Rightarrow> (err \<Rightarrow> 'b dbm) \<Rightarrow> ('a \<Rightarrow> 'b dbm) \<Rightarrow> 'b dbm" where
  "attempt m onError k = bindM (tryM m) (\<lambda>res. case res of Inl e \<Rightarrow> onError e | Inr x \<Rightarrow> k x)"

definition internal_error :: response where
  "internal_error = writeError 500 codeInternal MsgInternal"

definition status_json :: "string \<Rightarrow> response" where
  "status_json v = writeJSON 200 (JsonBody [(''status'', JString v)])"

definition metricEmailQueueErrors :: string where
  "metricEmailQueueErrors = ''sesamo_email_queue_errors_total''"

definition metricOAuthExchangeErrors :: string where
  "metricOAuthExchangeErrors = ''sesamo_oauth_exchange_errors_total''"

definition sendBeforeMargin :: duration where "sendBeforeMargin = Minute"

definition newline :: string where "newline = [CHR 0x0A]"

definition queueOneTimeLinkTx :: "server \<Rightarrow> draws \<Rightarrow> string \<Rightarrow> string \<Rightarrow> purpose \<Rightarrow> string \<Rightarrow> string \<Rightarrow> duration
    \<Rightarrow> unit dbm" where
  "queueOneTimeLinkTx s dr userID to p path subject ttl =
     bindM (IssueTx (HashToken s) (GenerateToken (d_link dr)) (d_tokenID dr) (wall dr 0) (dbclock dr 4) userID p ttl)
       (\<lambda>(token, tokenID).
        let link = BaseURL (cfg s) @ path @ ''?token='' @ token;
            body = subject @ '':'' @ newline @ newline @ link @ newline @ newline
              @ ''Este enlace expira pronto y se usa una sola vez.''
        in QueueTx (seal s) (srv_keyring s) (d_outboxID dr) (d_nonce dr) (dbclock dr 4)
             \<lparr>q_UserID = userID, q_TokenID = tokenID, q_To = to, q_From = EmailFrom (cfg s), q_Subject = subject,
              q_Body = body, q_Purpose = p, q_Provider = EmailProvider (cfg s),
              q_SendBefore = time_add (wall dr 1) (ttl - sendBeforeMargin)\<rparr>)"

definition loginTx :: "server \<Rightarrow> draws \<Rightarrow> request \<Rightarrow> (string \<times> jval) list \<Rightarrow> string dbm \<Rightarrow> (created \<times> string) dbm" where
  "loginTx s dr r detail resolve =
     auditedTx (audit_of s (dbclock dr 5)) (client s r)
       (bindM resolve (\<lambda>userID.
        bindM (create (session_config_of (cfg s)) (HashToken s) (GenerateToken (d_session dr)) (wall dr 2)
          \<lparr>UserID = userID, UserAgent = Some (Header r ''User-Agent''), IPFirst = Some (client s r)\<rparr>) (\<lambda>c.
        retM (\<lparr>ar_event = Some LoginSuccess, ar_actor = userID, ar_detail = detail\<rparr>, (c, userID)))))"

definition finishLogin :: "server \<Rightarrow> draws \<Rightarrow> request \<Rightarrow> created \<Rightarrow> response" where
  "finishLogin s dr r c =
     (let csrf = GenerateToken (d_csrf dr);
          raw = (if FormValue r ''redirect_to'' = [] then cookieValue r cookiePostLogin else FormValue r ''redirect_to'');
          target = safeRedirectTarget (url_Parse s) (RedirectOrigins (cfg s)) raw
      in with_cookies [setSessionCookie (cfg s) (c_token c) (c_expires_at c), issueCSRFToken (cfg s) csrf,
                       clearTransient (cfg s) cookiePostLogin]
           (if wantsJSON r
            then writeJSON 200 (JsonBody [(''status'', JString ''authenticated''), (''redirect_to'', JString target),
                   (''csrf_token'', JString csrf)])
            else redirect target))"

definition oauthFail :: "server \<Rightarrow> request \<Rightarrow> code \<Rightarrow> msg \<Rightarrow> response" where
  "oauthFail s r c m =
     with_cookies [clearSessionCookie (cfg s)]
       (if wantsJSON r then writeError 400 c m else redirect (''/login?error='' @ code_string c))"

subsection \<open>Pages\<close>

definition branding :: "config \<Rightarrow> (string \<times> string) list" where
  "branding c =
     filter (\<lambda>kv. snd kv \<noteq> [])
       [(''logo_url'', LogoURL (Brand c)), (''primary_color'', PrimaryColor (Brand c)), (''page_background'', PageBG (Brand c)),
        (''font_url'', FontURL (Brand c)), (''theme_css_url'', ThemeCSSURL c)]"

definition handleLoginPage :: "server \<Rightarrow> draws \<Rightarrow> request \<Rightarrow> response" where
  "handleLoginPage s dr r =
     (let csrf = GenerateToken (d_csrf dr) in
      with_cookies (captureRedirect (url_Parse s) (cfg s) r @ [issueCSRFToken (cfg s) csrf])
        (if wantsJSON r
         then writeJSON 200 (JsonBody ([(''providers'', JStrings (provider_names s)),
                (''methods'', JStrings [''password'', ''magiclink'']), (''csrf_token'', JString csrf)]
              @ (if brand_Active (Brand (cfg s)) \<or> ThemeCSSURL (cfg s) \<noteq> []
                 then [(''branding'', JObject (branding (cfg s)))] else [])))
         else writeJSON 200 (LoginForm (provider_names s) (Query r ''error'') csrf)))"

definition handleResetRequestPage :: "server \<Rightarrow> draws \<Rightarrow> request \<Rightarrow> response" where
  "handleResetRequestPage s dr r =
     (let csrf = GenerateToken (d_csrf dr) in
      with_cookies [issueCSRFToken (cfg s) csrf]
        (if wantsJSON r
         then writeJSON 200 (JsonBody [(''method'', JString ''POST''), (''fields'', JStrings [''email'']), (''csrf_token'', JString csrf)])
         else writeJSON 200 (ResetRequestForm csrf)))"

definition handleResetConfirmPage :: "server \<Rightarrow> draws \<Rightarrow> request \<Rightarrow> response" where
  "handleResetConfirmPage s dr r =
     (let token = Query r ''token''; csrf = GenerateToken (d_csrf dr) in
      with_cookies [issueCSRFToken (cfg s) csrf]
        (if wantsJSON r
         then writeJSON 200 (JsonBody [(''method'', JString ''POST''), (''fields'', JStrings [''token'', ''password'']),
                (''csrf_token'', JString csrf)])
         else if token = [] then renderMessage 400 PageBadLink
         else writeJSON 200 (ResetConfirmForm token csrf)))"

subsection \<open>OAuth\<close>

definition handleOAuthStart :: "server \<Rightarrow> draws \<Rightarrow> request \<Rightarrow> response" where
  "handleOAuthStart s dr r =
     (case providers s (PathValue r) of
        None \<Rightarrow> writeError 404 codeNotFound MsgNoProvider
      | Some prov \<Rightarrow>
          let state = GenerateOAuthState (d_state dr);
              verifier = EncodeToString RawURLEncoding (d_pkce dr);
              u = AuthorizeURL prov state verifier
          in with_cookies ([setTransient (cfg s) cookieOAuthState state, setTransient (cfg s) cookiePKCE verifier]
                           @ captureRedirect (url_Parse s) (cfg s) r)
               (if wantsJSON r then writeJSON 200 (JsonBody [(''authorize_url'', JString u)]) else redirect u))"

definition oauth_detail :: "string \<Rightarrow> (string \<times> jval) list" where
  "oauth_detail name = [(''method'', JStr ''oauth''), (''provider'', JStr name)]"

definition metricHTTPPanics :: string where
  "metricHTTPPanics = ''sesamo_http_panics_total''"

text \<open>From the exchanged profile on: resolve the account, then start the session.\<close>

definition oauth_login :: "server \<Rightarrow> draws \<Rightarrow> request \<Rightarrow> oauth_profile \<Rightarrow> response dbm" where
  "oauth_login s dr r profile =
     (let name = PathValue r; env = audit_of s (dbclock dr 2); ip = client s r in
      attempt (UpsertByOAuth (d_uid dr) (d_iid dr) (dbclock dr 1) profile (SignupPolicy (cfg s) \<noteq> SignupDisabled))
        (\<lambda>e. if e = ErrSignupDisabled then
               guardM (recordAudit env ip SignupRejected [] (oauth_detail name @ [(''reason'', JStr ''signup_disabled'')]))
                 (retM (oauthFail s r codeForbidden MsgSignupDisabled))
             else if e = ErrUserDisabled then
               guardM (recordAudit env ip LoginFailed [] (oauth_detail name @ [(''reason'', JStr ''user_disabled'')]))
                 (retM (oauthFail s r codeOAuthFailed MsgLoginFailed))
             else retM internal_error)
        (\<lambda>res. attempt (loginTx s dr r (oauth_detail name) (retM (res_UserID res)))
           (\<lambda>_. retM internal_error) (\<lambda>(c, _). retM (finishLogin s dr r c))))"

text \<open>
  An exchange that panics unwinds to the recovery middleware (\<open>withRecover\<close>), which counts it and
  answers 500 on the response whose cookies were already cleared.
\<close>

definition handleOAuthCallback :: "server \<Rightarrow> draws \<Rightarrow> request \<Rightarrow> response dbm" where
  "handleOAuthCallback s dr r =
     (case providers s (PathValue r) of
        None \<Rightarrow> retM (writeError 404 codeNotFound MsgNoProvider)
      | Some prov \<Rightarrow>
          let c = Query r ''code''; stateQ = Query r ''state''; stateC = cookieValue r cookieOAuthState;
              verifier = cookieValue r cookiePKCE;
              cleared = with_cookies [clearTransient (cfg s) cookieOAuthState, clearTransient (cfg s) cookiePKCE]
          in if c = [] \<or> stateQ = [] then retM (cleared (oauthFail s r codeInvalidRequest MsgNoCode))
             else if stateC = [] \<or> \<not> SafeEqual (bytes_of stateC) (bytes_of stateQ)
             then retM (cleared (oauthFail s r codeStateMismatch MsgBadState))
             else case Exchange prov c verifier of
               ExchangeFailed \<Rightarrow> bindM (inc_counter metricOAuthExchangeErrors) (\<lambda>_.
                 retM (cleared (oauthFail s r codeOAuthFailed MsgLoginFailed)))
             | ExchangePanics \<Rightarrow> bindM (inc_counter metricHTTPPanics) (\<lambda>_. retM (cleared internal_error))
             | Exchanged profile \<Rightarrow> bindM (oauth_login s dr r profile) (\<lambda>resp. retM (cleared resp)))"

subsection \<open>Password login, signup, logout\<close>

definition bad_credentials :: response where
  "bad_credentials = writeError 401 codeInvalidCredentials MsgBadCredentials"

definition refuse_login :: "server \<Rightarrow> draws \<Rightarrow> request \<Rightarrow> string \<Rightarrow> string \<Rightarrow> response dbm" where
  "refuse_login s dr r actor reason =
     guardM (recordAudit (audit_of s (dbclock dr 2)) (client s r) LoginFailed actor
        [(''method'', JStr ''password''), (''email'', JStr (FormValue r ''email'')), (''reason'', JStr reason)])
       (retM bad_credentials)"

definition password_hash :: "server \<Rightarrow> draws \<Rightarrow> string \<Rightarrow> string option" where
  "password_hash s dr password = map_option (\<lambda>salt. HashPassword (idkey s) salt password) (d_salt dr)"

definition rehash :: "server \<Rightarrow> draws \<Rightarrow> string \<Rightarrow> string \<Rightarrow> unit dbm" where
  "rehash s dr userID password =
     (case password_hash s dr password of
        None \<Rightarrow> retM ()
      | Some newHash \<Rightarrow> ignoreM (setPassword userID newHash (dbclock dr 3)))"

text \<open>From the looked-up credential on.\<close>

definition password_decision :: "server \<Rightarrow> draws \<Rightarrow> request \<Rightarrow> credential \<Rightarrow> response dbm" where
  "password_decision s dr r cred =
     (let password = FormValue r ''password'' in
      if \<not> cr_HasPassword cred \<or> cr_Disabled cred then
        (if cr_Disabled cred then refuse_login s dr r (cr_UserID cred) ''user_disabled''
         else refuse_login s dr r [] ''unknown_user'')
      else case VerifyPassword (idkey s) (bcrypt s) password (cr_Hash cred) of
        None \<Rightarrow> refuse_login s dr r (cr_UserID cred) ''bad_password''
      | Some v \<Rightarrow>
          if \<not> v_ok v then refuse_login s dr r (cr_UserID cred) ''bad_password''
          else bindM (if v_needsRehash v then rehash s dr (cr_UserID cred) password else retM ()) (\<lambda>_.
            attempt (loginTx s dr r [(''method'', JStr ''password'')] (retM (cr_UserID cred)))
              (\<lambda>_. retM internal_error) (\<lambda>(c, _). retM (finishLogin s dr r c))))"

definition handlePasswordLogin :: "server \<Rightarrow> draws \<Rightarrow> request \<Rightarrow> response dbm" where
  "handlePasswordLogin s dr r =
     (case checkCSRF r of Some resp \<Rightarrow> retM resp | None \<Rightarrow>
      let emailAddr = FormValue r ''email''; password = FormValue r ''password'' in
      if emailAddr = [] \<or> password = [] then retM (writeError 400 codeInvalidRequest MsgCredentialsRequired)
      else guardM (checkLoginRate (client s r) emailAddr (dbclock dr 0) (dbclock dr 1))
        (attempt (PasswordCredential emailAddr) (\<lambda>_. retM internal_error) (password_decision s dr r)))"

definition verify_subject :: string where
  "verify_subject = ''Verific'' @ [CHR 0xC3, CHR 0xA1] @ '' tu email''"

definition signup_action :: "server \<Rightarrow> draws \<Rightarrow> string \<Rightarrow> string \<Rightarrow> (audit_record \<times> unit) dbm" where
  "signup_action s dr emailAddr ph =
     bindM (createWithPassword (d_uid dr) emailAddr ph (dbclock dr 4)) (\<lambda>_.
     bindM (queueOneTimeLinkTx s dr (d_uid dr) emailAddr PurposeVerify ''/verify'' verify_subject (24 * Hour)) (\<lambda>_.
     retM (\<lparr>ar_event = Some Signup, ar_actor = d_uid dr, ar_detail = [(''email'', JStr emailAddr)]\<rparr>, ())))"

definition is_audit_error :: "err \<Rightarrow> bool" where
  "is_audit_error e \<longleftrightarrow> (case e of AuditWriteError _ \<Rightarrow> True | _ \<Rightarrow> False)"

definition handleSignup :: "server \<Rightarrow> draws \<Rightarrow> request \<Rightarrow> response dbm" where
  "handleSignup s dr r =
     (case checkCSRF r of Some resp \<Rightarrow> retM resp | None \<Rightarrow>
      if SignupPolicy (cfg s) = SignupDisabled then
        guardM (recordAudit (audit_of s (dbclock dr 2)) (client s r) SignupRejected []
            [(''method'', JStr ''password''), (''reason'', JStr ''signup_disabled'')])
          (retM (writeError 403 codeForbidden MsgSignupDisabled))
      else
        let emailAddr = FormValue r ''email''; password = FormValue r ''password'' in
        if emailAddr = [] \<or> length password < 8 then retM (writeError 400 codeInvalidRequest MsgSignupFields)
        else case password_hash s dr password of
          None \<Rightarrow> retM internal_error
        | Some ph \<Rightarrow>
            attempt (auditedTx (audit_of s (dbclock dr 5)) (client s r) (signup_action s dr emailAddr ph))
              (\<lambda>e. bindM (if is_audit_error e then retM () else inc_counter metricEmailQueueErrors) (\<lambda>_.
                 retM (status_json ''verification_sent'')))
              (\<lambda>_. retM (status_json ''verification_sent'')))"

definition logout_action :: "server \<Rightarrow> string \<Rightarrow> (audit_record \<times> unit) dbm" where
  "logout_action s token =
     bindM (revoke (HashToken s) token) (\<lambda>uid.
     if uid = [] then retM (no_record, ())
     else retM (\<lparr>ar_event = Some Logout, ar_actor = uid, ar_detail = []\<rparr>, ()))"

definition logged_out :: "server \<Rightarrow> request \<Rightarrow> response" where
  "logged_out s r =
     (let target = safeRedirectTarget (url_Parse s) (RedirectOrigins (cfg s)) (FormValue r ''redirect_to'') in
      with_cookies [clearSessionCookie (cfg s)]
        (if wantsJSON r
         then writeJSON 200 (JsonBody [(''status'', JString ''logged_out''), (''redirect_to'', JString target)])
         else redirect target))"

definition handleLogout :: "server \<Rightarrow> draws \<Rightarrow> request \<Rightarrow> response dbm" where
  "handleLogout s dr r =
     (case checkCSRF r of Some resp \<Rightarrow> retM resp | None \<Rightarrow>
      let token = cookieValue r (CookieName (cfg s)) in
      if token \<noteq> [] then
        attempt (auditedTx (audit_of s (dbclock dr 5)) (client s r) (logout_action s token))
          (\<lambda>_. retM internal_error) (\<lambda>_. retM (logged_out s r))
      else retM (logged_out s r))"

subsection \<open>Links by mail\<close>

text \<open>Evidence, token and mail in one transaction; a failure is counted and not shown.\<close>

definition queue_masked :: "server \<Rightarrow> draws \<Rightarrow> request \<Rightarrow> event \<Rightarrow> string \<Rightarrow> unit dbm \<Rightarrow> unit dbm" where
  "queue_masked s dr r ev userID queue =
     attempt (auditedTx (audit_of s (dbclock dr 5)) (client s r)
        (bindM queue (\<lambda>_. retM (\<lparr>ar_event = Some ev, ar_actor = userID, ar_detail = []\<rparr>, ()))))
       (\<lambda>_. inc_counter metricEmailQueueErrors) (\<lambda>_. retM ())"

definition reset_subject :: string where
  "reset_subject = ''Restablec'' @ [CHR 0xC3, CHR 0xA9] @ '' tu contrase'' @ [CHR 0xC3, CHR 0xB1] @ ''a''"

definition sent_answer :: "request \<Rightarrow> string \<Rightarrow> response" where
  "sent_answer r v = (if wantsJSON r then status_json v else renderMessage 200 PageCheckMail)"

definition handleResetRequest :: "server \<Rightarrow> draws \<Rightarrow> request \<Rightarrow> response dbm" where
  "handleResetRequest s dr r =
     (case checkCSRF r of Some resp \<Rightarrow> retM resp | None \<Rightarrow>
      let emailAddr = FormValue r ''email'' in
      if emailAddr = [] then retM (writeError 400 codeInvalidRequest MsgEmailRequired)
      else guardM (checkLoginRate (client s r) emailAddr (dbclock dr 0) (dbclock dr 1))
        (bindM (tryM (ByEmail emailAddr)) (\<lambda>found.
         bindM (case found of
             Inr (Some u) \<Rightarrow> queue_masked s dr r ResetRequested (ID u)
               (queueOneTimeLinkTx s dr (ID u) emailAddr PurposeReset ''/reset/confirm'' reset_subject (15 * Minute))
           | _ \<Rightarrow> retM ()) (\<lambda>_.
         retM (sent_answer r ''reset_sent'')))))"

definition handleMagicLinkRequest :: "server \<Rightarrow> draws \<Rightarrow> request \<Rightarrow> response dbm" where
  "handleMagicLinkRequest s dr r =
     (case checkCSRF r of Some resp \<Rightarrow> retM resp | None \<Rightarrow>
      let emailAddr = FormValue r ''email'' in
      if emailAddr = [] then
        retM (if wantsJSON r then writeError 400 codeInvalidRequest MsgEmailRequired else redirect ''/login?error=email_required'')
      else guardM (checkLoginRate (client s r) emailAddr (dbclock dr 0) (dbclock dr 1))
        (bindM (tryM (ByEmail emailAddr)) (\<lambda>found.
         bindM (case found of
             Inr (Some u) \<Rightarrow>
               if \<not> Disabled u then queue_masked s dr r MagicLinkRequest (ID u)
                 (queueOneTimeLinkTx s dr (ID u) emailAddr PurposeMagicLink ''/magiclink/confirm'' ''Tu enlace de acceso'' (15 * Minute))
               else retM ()
           | _ \<Rightarrow> retM ()) (\<lambda>_.
         retM (sent_answer r ''magiclink_sent'')))))"

definition bad_link :: "request \<Rightarrow> msg \<Rightarrow> response" where
  "bad_link r m = (if wantsJSON r then writeError 400 codeInvalidRequest m else renderMessage 400 PageBadLink)"

definition reset_action :: "server \<Rightarrow> draws \<Rightarrow> string \<Rightarrow> string \<Rightarrow> (audit_record \<times> unit) dbm" where
  "reset_action s dr token ph =
     bindM (consume (HashToken s) (dbclock dr 4) token PurposeReset) (\<lambda>userID.
     bindM (setPassword userID ph (dbclock dr 4)) (\<lambda>_.
     bindM (revokeAllForUser userID) (\<lambda>_.
     retM (\<lparr>ar_event = Some ResetCompleted, ar_actor = userID, ar_detail = [(''sessions_revoked'', JStr ''all'')]\<rparr>, ()))))"

definition handleResetConfirm :: "server \<Rightarrow> draws \<Rightarrow> request \<Rightarrow> response dbm" where
  "handleResetConfirm s dr r =
     (case checkCSRF r of Some resp \<Rightarrow> retM resp | None \<Rightarrow>
      let token = FormValue r ''token''; password = FormValue r ''password'' in
      if token = [] \<or> length password < 8 then retM (writeError 400 codeInvalidRequest MsgResetFields)
      else case password_hash s dr password of
        None \<Rightarrow> retM internal_error
      | Some ph \<Rightarrow>
          attempt (auditedTx (audit_of s (dbclock dr 5)) (client s r) (reset_action s dr token ph))
            (\<lambda>e. retM (if e = ErrInvalidToken then bad_link r MsgBadToken else internal_error))
            (\<lambda>_. retM (if wantsJSON r then status_json ''password_reset'' else renderMessage 200 PageReset)))"

definition handleVerify :: "server \<Rightarrow> draws \<Rightarrow> request \<Rightarrow> response dbm" where
  "handleVerify s dr r =
     (let token = Query r ''token'' in
      if token = [] then retM (writeError 400 codeInvalidRequest MsgTokenRequired)
      else attempt (consume (HashToken s) (dbclock dr 0) token PurposeVerify)
        (\<lambda>_. retM (bad_link r MsgBadToken))
        (\<lambda>userID. attempt (markEmailVerified userID (dbclock dr 1)) (\<lambda>_. retM internal_error) (\<lambda>_.
          guardM (recordAudit (audit_of s (dbclock dr 2)) (client s r) EmailVerifiedEvent userID [])
            (retM (if wantsJSON r then status_json ''email_verified'' else renderMessage 200 PageVerified)))))"

definition magic_resolve :: "server \<Rightarrow> draws \<Rightarrow> string \<Rightarrow> string dbm" where
  "magic_resolve s dr token =
     bindM (consume (HashToken s) (dbclock dr 4) token PurposeMagicLink) (\<lambda>userID.
     bindM (DisabledTx userID) (\<lambda>disabled.
     if disabled then failM ErrUserDisabled
     else bindM (markEmailVerified userID (dbclock dr 4)) (\<lambda>_. retM userID)))"

definition handleMagicLinkConfirm :: "server \<Rightarrow> draws \<Rightarrow> request \<Rightarrow> response dbm" where
  "handleMagicLinkConfirm s dr r =
     (let token = Query r ''token'' in
      if token = [] then retM (writeError 400 codeInvalidRequest MsgTokenRequired)
      else attempt (loginTx s dr r [(''method'', JStr ''magiclink'')] (magic_resolve s dr token))
        (\<lambda>e. retM (if e = ErrInvalidToken \<or> e = ErrUserDisabled then bad_link r MsgBadLink else internal_error))
        (\<lambda>(c, _). retM (finishLogin s dr r c)))"

subsection \<open>Service and admin API\<close>

definition introspectToken :: "server \<Rightarrow> request \<Rightarrow> string" where
  "introspectToken s r =
     (let t = TrimSpace (FormValue r ''token'') in if t \<noteq> [] then t else cookieValue r (CookieName (cfg s)))"

definition inactive :: introspectResponse where
  "inactive = \<lparr>Active = False, i_UserID = [], i_Email = [], i_EmailVerified = False, i_Name = None,
     i_ExpiresAt = 0, i_Metadata = None\<rparr>"

definition active_as :: "user \<Rightarrow> gotime \<Rightarrow> introspectResponse" where
  "active_as u expires = \<lparr>Active = True, i_UserID = ID u, i_Email = Email u, i_EmailVerified = EmailVerified u,
     i_Name = Name u, i_ExpiresAt = Unix expires, i_Metadata = Some (Metadata u)\<rparr>"

definition handleIntrospect :: "server \<Rightarrow> draws \<Rightarrow> request \<Rightarrow> response dbm" where
  "handleIntrospect s dr r =
     (let token = introspectToken s r in
      if token = [] then retM (writeJSON 200 (IntrospectBody inactive))
      else attempt (Validate (session_config_of (cfg s)) (HashToken s) (wall dr 0) token) (\<lambda>_. retM internal_error) (\<lambda>res.
        case r_user res of
          None \<Rightarrow> retM (writeJSON 200 (IntrospectBody inactive))
        | Some u \<Rightarrow>
            if r_kind res \<noteq> KindValid then retM (writeJSON 200 (IntrospectBody inactive))
            else retM ((writeJSON 200 (IntrospectBody (active_as u (r_expires_at res))))
                   \<lparr>resp_headers := (if r_renewed res then [(''X-Session-Renewed'', ''1'')] else [])\<rparr>)))"

definition handleSessionRevoke :: "server \<Rightarrow> draws \<Rightarrow> request \<Rightarrow> response dbm" where
  "handleSessionRevoke s dr r =
     (let token = introspectToken s r in
      if token = [] then retM (writeError 400 codeInvalidRequest MsgSessionToken)
      else attempt (revoke (HashToken s) token) (\<lambda>_. retM internal_error) (\<lambda>uid.
        if uid \<noteq> [] then
          guardM (recordAudit (audit_of s (dbclock dr 2)) (client s r) SessionRevoked uid [(''via'', JStr ''service'')])
            (retM (status_json ''revoked''))
        else retM (status_json ''revoked'')))"

definition handleAdminGetUser :: "server \<Rightarrow> draws \<Rightarrow> request \<Rightarrow> response dbm" where
  "handleAdminGetUser s dr r =
     attempt (ByID (PathValue r)) (\<lambda>_. retM (writeError 404 codeNotFound MsgUserNotFound))
       (\<lambda>u. retM (writeJSON 200 (UserBody u)))"

definition handleAdminRevokeUserSessions :: "server \<Rightarrow> draws \<Rightarrow> request \<Rightarrow> response dbm" where
  "handleAdminRevokeUserSessions s dr r =
     (let uid = PathValue r in
      attempt (revokeAllForUser uid) (\<lambda>_. retM internal_error) (\<lambda>_.
        guardM (recordAudit (audit_of s (dbclock dr 2)) (client s r) SessionsRevokedAll uid [(''via'', JStr ''admin'')])
          (retM (status_json ''sessions_revoked''))))"

definition disable_action :: "draws \<Rightarrow> string \<Rightarrow> bool \<Rightarrow> (audit_record \<times> unit) dbm" where
  "disable_action dr uid disabled =
     bindM (setDisabled uid disabled (dbclock dr 4)) (\<lambda>_.
     bindM (if disabled then revokeAllForUser uid else retM ()) (\<lambda>_.
     retM (\<lparr>ar_event = Some (if disabled then UserDisabled else UserEnabled), ar_actor = uid,
            ar_detail = [(''via'', JStr ''admin''), (''sessions_revoked'', JBool disabled)]\<rparr>, ())))"

definition handleAdminSetUserDisabled :: "server \<Rightarrow> draws \<Rightarrow> request \<Rightarrow> response dbm" where
  "handleAdminSetUserDisabled s dr r =
     (let uid = PathValue r in
      case ParseBool (FormValue r ''disabled'') of
        None \<Rightarrow> retM (writeError 400 codeInvalidRequest MsgBadFlag)
      | Some disabled \<Rightarrow>
          attempt (ByID uid) (\<lambda>_. retM (writeError 404 codeNotFound MsgUserNotFound)) (\<lambda>_.
          attempt (auditedTx (audit_of s (dbclock dr 5)) (client s r) (disable_action dr uid disabled))
            (\<lambda>_. retM internal_error)
            (\<lambda>_. retM (writeJSON 200 (JsonBody [(''status'', JString ''updated''), (''user_id'', JString uid),
               (''disabled'', JBoolean disabled)])))))"

subsection \<open>Running the shared steps\<close>

lemma with_evidence_frame [simp]:
  "users (with_evidence env ip rec d) = users d" "sessions (with_evidence env ip rec d) = sessions d"
  "identities (with_evidence env ip rec d) = identities d"
  "one_time_tokens (with_evidence env ip rec d) = one_time_tokens d"
  "email_outbox (with_evidence env ip rec d) = email_outbox d" "email_events (with_evidence env ip rec d) = email_events d"
  "rate_limit_buckets (with_evidence env ip rec d) = rate_limit_buckets d"
  by (simp_all add: with_evidence_def split: option.splits)

text \<open>What evidence cannot touch: everything but the audit log.\<close>

definition business :: "db \<Rightarrow> db" where
  "business d = d\<lparr>audit_log := []\<rparr>"

lemma business_evidence [simp]: "business (with_evidence env ip rec d) = business d"
  by (simp add: business_def with_evidence_def split: option.splits)

lemma business_frame:
  "business d = business d' \<Longrightarrow> users d = users d'" "business d = business d' \<Longrightarrow> sessions d = sessions d'"
  "business d = business d' \<Longrightarrow> one_time_tokens d = one_time_tokens d'"
  "business d = business d' \<Longrightarrow> email_outbox d = email_outbox d'"
  "business d = business d' \<Longrightarrow> rate_limit_buckets d = rate_limit_buckets d'"
  by (auto simp: business_def dest: arg_cong [of _ _ users] arg_cong [of _ _ sessions] arg_cong [of _ _ one_time_tokens]
      arg_cong [of _ _ email_outbox] arg_cong [of _ _ rate_limit_buckets])

lemma status_codes [simp]:
  "status_code (writeError st c m) = st" "status_code (writeJSON st v) = st" "status_code (renderMessage st p) = st"
  "status_code (redirect target) = 302" "status_code (with_cookies cs resp) = status_code resp"
  "status_code internal_error = 500" "status_code (status_json label) = 200" "status_code bad_credentials = 401"
  "status_code (bad_link r m') = 400"
  by (simp_all add: writeError_def writeJSON_def renderMessage_def redirect_def with_cookies_def internal_error_def
      status_json_def bad_credentials_def bad_link_def)

lemma checkCSRF_refuses: "checkCSRF r = Some resp \<Longrightarrow> status_code resp = 400 \<or> status_code resp = 403"
  by (auto simp: checkCSRF_def Let_def split: if_splits)

lemma attempt_run:
  "attempt m onError k w = (case m w of (Inl e, w1) \<Rightarrow> onError e w1 | (Inr x, w1) \<Rightarrow> k x w1)"
  by (auto simp: attempt_def bindM_def tryM_def split: prod.splits sum.splits)

lemma keeps_attempt [intro!]:
  assumes "keeps P m" and "\<And>e. keeps P (onError e)" and "\<And>x. keeps P (k x)"
  shows "keeps P (attempt m onError k)"
  using assms by (auto simp: attempt_def)

lemma keeps_guard [intro!]: "keeps P check \<Longrightarrow> keeps P k \<Longrightarrow> keeps P (guardM check k)"
  by (auto simp: guardM_def)

lemma keeps_record_event [intro!]:
  "keeps P (exec (insert_audit env ev actor ip detail)) \<Longrightarrow> keeps P (record_event env ev actor ip detail)"
  by (auto simp: record_event_def)

lemma keeps_recordAudit:
  "(\<And>ev actor detail. keeps P (exec (insert_audit env ev actor ip detail))) \<Longrightarrow> keeps P (recordAudit env ip ev actor detail)"
  by (auto simp: recordAudit_def)

lemma keeps_auditedTx:
  assumes "keeps P action" and "\<And>ev actor detail. keeps P (exec (insert_audit env ev actor ip detail))"
  shows "keeps P (auditedTx env ip action)"
  using assms by (auto simp: auditedTx_def audit_in_tx_def)

text \<open>Computations that always answer: no error escapes a handler.\<close>

definition answers :: "'a dbm \<Rightarrow> bool" where
  "answers m \<longleftrightarrow> (\<forall>w. \<exists>x w'. m w = (Inr x, w'))"

lemma answersI: "(\<And>w. \<exists>x w'. m w = (Inr x, w')) \<Longrightarrow> answers m"
  by (simp add: answers_def)

lemma answersD: "answers m \<Longrightarrow> \<exists>x w'. m w = (Inr x, w')"
  by (simp add: answers_def)

lemma answers_ret [intro!, simp]: "answers (retM x)"
  by (simp add: answers_def retM_def)

lemma answers_inc [intro!, simp]: "answers (inc_counter n)"
  by (simp add: answers_def inc_counter_def)

lemma answers_try [intro!, simp]: "answers (tryM m)"
  by (auto simp: answers_def tryM_def split: prod.splits)

lemma answers_ignore [intro!, simp]: "answers (ignoreM m)"
  by (auto simp: answers_def ignoreM_def)

lemma answers_bind [intro!]: "answers m \<Longrightarrow> (\<And>x. answers (k x)) \<Longrightarrow> answers (bindM m k)"
  unfolding answers_def by (metis bindM_Inr)

lemma answers_attempt [intro!]: "(\<And>e. answers (f e)) \<Longrightarrow> (\<And>x. answers (k x)) \<Longrightarrow> answers (attempt m f k)"
  by (auto simp: attempt_def split: sum.splits)

lemma answers_guard [intro!]: "answers c \<Longrightarrow> answers k \<Longrightarrow> answers (guardM c k)"
  by (auto simp: guardM_def split: option.splits)

lemma answers_recordAudit [intro!, simp]: "answers (recordAudit env ip ev actor detail)"
  by (auto simp: recordAudit_def split: sum.splits)

lemma answers_allow [intro!, simp]: "answers (allow key rl t)"
  by (auto simp: allow_def Let_def split: sum.splits)

lemma answers_checkLoginRate [intro!, simp]: "answers (checkLoginRate ip i t t')"
  by (auto simp: checkLoginRate_def split: option.splits)

lemma answers_case_option [intro!]:
  "answers m \<Longrightarrow> (\<And>x. answers (k x)) \<Longrightarrow> answers (case v of None \<Rightarrow> m | Some x \<Rightarrow> k x)"
  by (cases v) auto

lemma answers_case_sum [intro!]:
  "(\<And>e. answers (j e)) \<Longrightarrow> (\<And>x. answers (k x)) \<Longrightarrow> answers (case v of Inl e \<Rightarrow> j e | Inr x \<Rightarrow> k x)"
  by (cases v) auto

lemma answers_case_prod [intro!]: "(\<And>a b. answers (k a b)) \<Longrightarrow> answers (case v of (a, b) \<Rightarrow> k a b)"
  by (cases v) auto

lemma answers_if [intro!]: "(b \<Longrightarrow> answers m) \<Longrightarrow> (\<not> b \<Longrightarrow> answers n) \<Longrightarrow> answers (if b then m else n)"
  by auto

text \<open>Every handler answers, whatever fails underneath.\<close>

lemmas handler_defs = handleOAuthCallback_def oauth_login_def handlePasswordLogin_def password_decision_def handleSignup_def handleLogout_def
  handleResetRequest_def handleMagicLinkRequest_def handleResetConfirm_def handleVerify_def handleMagicLinkConfirm_def
  handleIntrospect_def handleSessionRevoke_def handleAdminGetUser_def handleAdminRevokeUserSessions_def
  handleAdminSetUserDisabled_def refuse_login_def rehash_def queue_masked_def

lemma handlers_answer [intro!, simp]:
  "answers (handleOAuthCallback s dr r)" "answers (handlePasswordLogin s dr r)" "answers (handleSignup s dr r)"
  "answers (handleLogout s dr r)" "answers (handleResetRequest s dr r)" "answers (handleMagicLinkRequest s dr r)"
  "answers (handleResetConfirm s dr r)" "answers (handleVerify s dr r)" "answers (handleMagicLinkConfirm s dr r)"
  "answers (handleIntrospect s dr r)" "answers (handleSessionRevoke s dr r)" "answers (handleAdminGetUser s dr r)"
  "answers (handleAdminRevokeUserSessions s dr r)" "answers (handleAdminSetUserDisabled s dr r)"
  unfolding handler_defs Let_def by (auto split: option.splits sum.splits prod.splits exchange_result.splits)

end
