(* ===== verification/Outbox_Safety.thy ===== *)
theory Outbox_Safety
  imports Outbox
begin

text \<open>
  What the queue guarantees over its whole life. Every way the table of jobs changes is a rule of
  \<open>outbox_step\<close>; a predicate on rows that the row updates keep is an invariant of every history
  (\<open>outbox_step_rows\<close>). Shown: a job that is no longer pending carries neither payload nor lease,
  attempts stay bounded, a finished job never comes back, a lease excludes every other worker
  until it runs out and a worker without it changes nothing, a replayed event is ignored.
\<close>

text \<open>
  Every change of the jobs table. \<open>minted\<close>: the identifiers drawn for new jobs; \<open>claims\<close>: the
  instants at which jobs are claimed; \<open>fin\<close>: which job and lease token may be finalized.
\<close>

inductive outbox_step :: "(string \<Rightarrow> bool) \<Rightarrow> (gotime \<Rightarrow> bool) \<Rightarrow> (string \<Rightarrow> string \<Rightarrow> bool) \<Rightarrow> world \<Rightarrow> world \<Rightarrow> bool"
  for minted claims fin where
  ob_queue: "minted oid \<Longrightarrow> QueueTx seal kr oid nonce dbnow inp w = (r, w') \<Longrightarrow> outbox_step minted claims fin w w'"
| ob_claim: "claims dbnow \<Longrightarrow> Claim opn kr provider limit locked lease now dbnow dbnow' w = (js, w') \<Longrightarrow>
     (\<forall>i. fin i (lease i)) \<Longrightarrow> outbox_step minted claims fin w w'"
| ob_finalize: "fin jid lt \<Longrightarrow> Finalize jid lt out dbnow w = (r, w') \<Longrightarrow> outbox_step minted claims fin w w'"
| ob_event: "RecordProviderEvent svix pmid typ occ dbnow w = (b, w') \<Longrightarrow> outbox_step minted claims fin w w'"
| ob_purge: "PurgeFinished olderThan dbnow dbnow' w = (n, w') \<Longrightarrow> outbox_step minted claims fin w w'"
| ob_tokens: "PurgeExpired_tokens dbnow w = (n, w') \<Longrightarrow> outbox_step minted claims fin w w'"
| ob_other: "email_outbox (wdb w') = email_outbox (wdb w) \<Longrightarrow> outbox_step minted claims fin w w'"

subsection \<open>The transaction of \<open>Claim\<close> as one pass over the table\<close>

interpretation cancel_row: keyed_update o_id "cancel_job t" for t
  by unfold_locales (simp add: row_defs)

interpretation retire_row: keyed_update o_id "retire_job st reason t" for st reason t
  by unfold_locales (simp add: row_defs)

interpretation lease_row: keyed_update o_id "lease_job lease t" for lease t
  by unfold_locales (simp add: row_defs)

interpretation delivered_row: keyed_update o_id "mark_delivered occ t" for occ t
  by unfold_locales (simp add: row_defs)

interpretation undelivered_row: keyed_update o_id "mark_undelivered ty occ t" for ty occ t
  by unfold_locales (simp add: row_defs)

interpretation sent_row: keyed_update o_id "mark_sent occ t" for occ t
  by unfold_locales (simp add: row_defs)

interpretation delayed_row: keyed_update o_id "mark_delayed ty t" for ty t
  by unfold_locales (simp add: row_defs)

interpretation outcome_key: keyed_update o_id "outcome_row out t" for out t
  by unfold_locales (cases out; simp add: row_defs)

text \<open>What happens to a row, by the verdict on it.\<close>

definition claim_row :: "gotime \<Rightarrow> (outbox_row \<times> bool) list \<Rightarrow> (string \<Rightarrow> string) \<Rightarrow> gotime \<Rightarrow> outbox_row \<Rightarrow> outbox_row" where
  "claim_row now cs lease t r =
     (if o_id r \<in> set (ids_with now VExpired cs) then retire_job Expired ''send_window_elapsed'' t r
      else if o_id r \<in> set (ids_with now VExhausted cs) then retire_job Failed ''max_attempts'' t r
      else if o_id r \<in> set (ids_with now VDead cs) then retire_job Canceled ''token_inactive'' t r
      else if o_id r \<in> set (ids_with now VLeasable cs) then lease_job lease t r
      else r)"

lemma retire_eq:
  assumes "retire ids st reason t w = (Inr x, w')"
  shows "wdb w' = (wdb w)\<lparr>email_outbox := sql_update (\<lambda>r. o_id r \<in> set ids) (retire_job st reason t) (email_outbox (wdb w))\<rparr>"
proof (cases "ids = []")
  case True
  with assms show ?thesis by (simp add: retire_def retM_def sql_update_none)
next
  case False
  with assms show ?thesis
    by (auto simp: retire_def update_jobs_def bindM_eq_Inr retM_def dest!: exec_InrD)
qed

lemma ids_with_disjoint:
  assumes "distinct (map (o_id \<circ> fst) cs)" and "i \<in> set (ids_with now v cs)" and "i \<in> set (ids_with now v' cs)"
  shows "v = v'"
proof -
  obtain c c' where "c \<in> set cs" "verdict_of now c = v" "o_id (fst c) = i"
    "c' \<in> set cs" "verdict_of now c' = v'" "o_id (fst c') = i"
    using assms(2,3) by (auto simp: ids_with_def)
  moreover from this have "c = c'" using assms(1) unfolding distinct_map by (metis comp_apply inj_on_def)
  ultimately show ?thesis by simp
qed

lemma claim_updates:
  assumes "distinct (map (o_id \<circ> fst) cs)"
  shows "sql_update (\<lambda>r. o_id r \<in> set (ids_with now VLeasable cs)) (lease_job lease t)
     (sql_update (\<lambda>r. o_id r \<in> set (ids_with now VDead cs)) (retire_job Canceled ''token_inactive'' t)
     (sql_update (\<lambda>r. o_id r \<in> set (ids_with now VExhausted cs)) (retire_job Failed ''max_attempts'' t)
     (sql_update (\<lambda>r. o_id r \<in> set (ids_with now VExpired cs)) (retire_job Expired ''send_window_elapsed'' t) rs)))
   = map (claim_row now cs lease t) rs"
proof -
  have dj: "i \<notin> set (ids_with now v' cs)" if "i \<in> set (ids_with now v cs)" "v \<noteq> v'" for i v v'
    using ids_with_disjoint [OF assms that(1)] that(2) by blast
  show ?thesis
    by (induction rs) (auto simp: sql_update_def claim_row_def retire_row.key_kept lease_row.key_kept dest: dj)
qed

lemma candidates_rows:
  assumes "c \<in> set (candidates provider limit locked t d)"
  shows "fst c \<in> set (email_outbox d)" and "claimable provider locked t (fst c)" and "snd c = token_live t d (fst c)"
  using assms by (auto simp: candidates_def dest!: in_set_takeD)

lemma candidates_distinct:
  assumes "unique_on o_id (email_outbox d)"
  shows "distinct (map (o_id \<circ> fst) (candidates provider limit locked t d))"
proof -
  let ?f = "filter (claimable provider locked t) (email_outbox d)"
  have "distinct (map o_id ?f)" using assms by (simp add: unique_on_def distinct_map_filter)
  then have "distinct (map o_id (sort_key o_available_at ?f))" by (simp add: distinct_map)
  then have "distinct (map o_id (take limit (sort_key o_available_at ?f)))"
    by (simp add: take_map [symmetric] distinct_take)
  then show ?thesis by (simp add: candidates_def comp_def)
qed

lemma ids_with_row:
  assumes "unique_on o_id (email_outbox d)" and "r \<in> set (email_outbox d)"
    and "o_id r \<in> set (ids_with now v (candidates provider limit locked t d))"
  shows "claimable provider locked t r \<and> verdict_of now (r, token_live t d r) = v \<and>
    (r, token_live t d r) \<in> set (candidates provider limit locked t d)"
proof -
  obtain c where c: "c \<in> set (candidates provider limit locked t d)" "verdict_of now c = v" "o_id (fst c) = o_id r"
    using assms(3) by (auto simp: ids_with_def)
  have "fst c = r" by (rule unique_onD [OF assms(1) candidates_rows(1) [OF c(1)] assms(2) c(3)])
  then have "c = (r, token_live t d r)" using candidates_rows(3) [OF c(1)] by (simp add: prod_eq_iff)
  with c candidates_rows(2) [OF c(1)] show ?thesis by simp
qed

text \<open>A committed transaction of \<open>Claim\<close>: the new table and the claimed jobs.\<close>

lemma claim_tx_commit:
  assumes "in_tx (claim_tx provider limit locked lease now t) w = (Inr (a, b, c, claimed), w')"
    and "unique_on o_id (email_outbox (wdb w))"
  defines "cs \<equiv> candidates provider limit locked t (wdb w)"
  shows "wdb w' = (wdb w)\<lparr>email_outbox := map (claim_row now cs lease t) (email_outbox (wdb w))\<rparr>"
    and "\<forall>(r, j) \<in> set claimed. (r, token_live t (wdb w) r) \<in> set cs \<and> verdict_of now (r, token_live t (wdb w) r) = VLeasable \<and>
       j = \<lparr>j_ID = o_id r, j_UserID = o_user_id r, j_Provider = o_provider r, j_Purpose = o_purpose r,
         j_Attempt = o_attempt_count r + 1, j_LeaseToken = lease (o_id r), j_LeaseUntil = t + LeaseDuration,
         j_SendBefore = o_send_before r,
         j_Message = \<lparr>m_To = o_recipient r, m_Subject = o_subject r, m_Body = []\<rparr>\<rparr>"
    and "map (o_id \<circ> fst) claimed = ids_with now VLeasable cs"
proof -
  let ?ids = "\<lambda>v. ids_with now v cs"
  obtain w0 w9 where f: "next_fault w = (False, w0)" "next_fault w9 = (False, w')"
    and body: "claim_tx provider limit locked lease now t w0 = (Inr (a, b, c, claimed), w9)"
    using assms(1) by (auto elim: in_tx_commit)
  have d0: "wdb w0 = wdb w" and d9: "wdb w' = wdb w9" using f by simp_all
  obtain cs' w1 where q': "query (candidates provider limit locked t) w0 = (Inr cs', w1)"
    using body by (auto simp: claim_tx_def bindM_eq_Inr)
  then have q: "query (candidates provider limit locked t) w0 = (Inr cs, w1)" and d1: "wdb w1 = wdb w"
    using query_eq_Inr [OF q'] d0 by (simp_all add: cs_def)
  from body q obtain w2 w3 w4 where
    r1: "retire (?ids VExpired) Expired ''send_window_elapsed'' t w1 = (Inr (), w2)" and
    r2: "retire (?ids VExhausted) Failed ''max_attempts'' t w2 = (Inr (), w3)" and
    r3: "retire (?ids VDead) Canceled ''token_inactive'' t w3 = (Inr (), w4)" and
    k: "(if ?ids VLeasable = [] then retM (length (?ids VExpired), length (?ids VExhausted), length (?ids VDead), [])
         else bindM (exec (lease_stmt (?ids VLeasable) lease t)) (\<lambda>leased.
           retM (length (?ids VExpired), length (?ids VExhausted), length (?ids VDead),
             map (\<lambda>(r, _). (r, job_of leased r)) (filter (\<lambda>c. verdict_of now c = VLeasable) cs)))) w4
         = (Inr (a, b, c, claimed), w9)"
    by (auto simp: claim_tx_def bindM_eq_Inr failM_def Let_def split: if_splits)
  have dist: "distinct (map (o_id \<circ> fst) cs)" unfolding cs_def by (rule candidates_distinct [OF assms(2)])
  note d4 = retire_eq [OF r3] retire_eq [OF r2] retire_eq [OF r1] d1
  let ?t4 = "email_outbox (wdb w4)"
  have upd: "sql_update (\<lambda>r. o_id r \<in> set (?ids VLeasable)) (lease_job lease t) ?t4 =
      map (claim_row now cs lease t) (email_outbox (wdb w))"
    using claim_updates [OF dist] by (simp add: d4)
  have ids4: "map o_id ?t4 = map o_id (email_outbox (wdb w))" by (simp add: d4 retire_row.keys_kept)
  have eff: "wdb w9 = (wdb w)\<lparr>email_outbox := map (claim_row now cs lease t) (email_outbox (wdb w))\<rparr> \<and>
     claimed = map (\<lambda>(r, _). (r, job_of (map (\<lambda>r. (o_id r, o_attempt_count r + 1, lease (o_id r), t + LeaseDuration))
            (filter (\<lambda>r. o_id r \<in> set (?ids VLeasable)) ?t4)) r)) (filter (\<lambda>c. verdict_of now c = VLeasable) cs)"
  proof (cases "?ids VLeasable = []")
    case True
    then have "filter (\<lambda>c. verdict_of now c = VLeasable) cs = []" by (simp add: ids_with_def)
    with True k upd d4 show ?thesis by (auto simp: retM_def sql_update_none)
  next
    case False
    with k upd d4 show ?thesis
      by (auto simp: bindM_eq_Inr retM_def lease_stmt_def dest!: exec_InrD)
  qed
  show "wdb w' = (wdb w)\<lparr>email_outbox := map (claim_row now cs lease t) (email_outbox (wdb w))\<rparr>"
    using eff d9 by simp
  show "map (o_id \<circ> fst) claimed = ids_with now VLeasable cs"
    using eff by (simp add: ids_with_def comp_def case_prod_beta)
  show "\<forall>(r, j) \<in> set claimed. (r, token_live t (wdb w) r) \<in> set cs \<and> verdict_of now (r, token_live t (wdb w) r) = VLeasable \<and>
       j = \<lparr>j_ID = o_id r, j_UserID = o_user_id r, j_Provider = o_provider r, j_Purpose = o_purpose r,
         j_Attempt = o_attempt_count r + 1, j_LeaseToken = lease (o_id r), j_LeaseUntil = t + LeaseDuration,
         j_SendBefore = o_send_before r,
         j_Message = \<lparr>m_To = o_recipient r, m_Subject = o_subject r, m_Body = []\<rparr>\<rparr>"
  proof (clarify)
    fix r j assume "(r, j) \<in> set claimed"
    then obtain live where live: "(r, live) \<in> set cs" "verdict_of now (r, live) = VLeasable" and j: "j = job_of (map (\<lambda>r.
        (o_id r, o_attempt_count r + 1, lease (o_id r), t + LeaseDuration)) (filter (\<lambda>r. o_id r \<in> set (?ids VLeasable)) ?t4)) r"
      using eff by auto
    have row: "r \<in> set (email_outbox (wdb w))" "live = token_live t (wdb w) r"
      using candidates_rows [of "(r, live)"] live(1) by (auto simp: cs_def)
    have mem: "o_id r \<in> set (?ids VLeasable)" using live by (force simp: ids_with_def)
    have kept: "r \<in> set ?t4" using row(1) mem live ids_with_disjoint [OF dist mem] by (auto simp: d4 set_sql_update retire_row.key_kept)
    have uniq: "unique_on o_id ?t4" using assms(2) ids4 by (simp add: unique_on_def)
    have "map_of (map (\<lambda>r. (o_id r, o_attempt_count r + 1, lease (o_id r), t + LeaseDuration))
        (filter (\<lambda>r. o_id r \<in> set (?ids VLeasable)) ?t4)) (o_id r)
      = Some (o_attempt_count r + 1, lease (o_id r), t + LeaseDuration)"
      using kept mem uniq by (intro map_of_is_SomeI) (auto simp: unique_on_def comp_def distinct_map_filter)
    with j live row show "(r, token_live t (wdb w) r) \<in> set cs \<and> verdict_of now (r, token_live t (wdb w) r) = VLeasable \<and>
       j = \<lparr>j_ID = o_id r, j_UserID = o_user_id r, j_Provider = o_provider r, j_Purpose = o_purpose r,
         j_Attempt = o_attempt_count r + 1, j_LeaseToken = lease (o_id r), j_LeaseUntil = t + LeaseDuration,
         j_SendBefore = o_send_before r,
         j_Message = \<lparr>m_To = o_recipient r, m_Subject = o_subject r, m_Body = []\<rparr>\<rparr>"
      by (simp add: job_of_def)
  qed
qed

subsection \<open>Interface: a predicate on jobs that every row update keeps\<close>

text \<open>
  The clients below name a property of single rows and check it against each row update of the
  code, under the guard of its \<open>WHERE\<close> clause; that it then holds along every history is proved
  here once.
\<close>

locale row_invariant =
  fixes Q :: "outbox_row \<Rightarrow> bool" and minted :: "string \<Rightarrow> bool" and claims :: "gotime \<Rightarrow> bool"
    and fin :: "string \<Rightarrow> string \<Rightarrow> bool"
  assumes new: "minted oid \<Longrightarrow> Q (new_job oid kid n ct t inp)"
    and cancel: "Q r \<Longrightarrow> o_status r = Pending \<Longrightarrow> Q (cancel_job t r)"
    and delivered: "Q r \<Longrightarrow> o_provider_message_id r = Some m \<Longrightarrow> Q (mark_delivered occ t r)"
    and undelivered: "Q r \<Longrightarrow> o_provider_message_id r = Some m \<Longrightarrow> Q (mark_undelivered ty occ t r)"
    and sent: "Q r \<Longrightarrow> o_provider_message_id r = Some m \<Longrightarrow> o_status r = Pending \<Longrightarrow> Q (mark_sent occ t r)"
    and delayed: "Q r \<Longrightarrow> o_provider_message_id r = Some m \<Longrightarrow> Q (mark_delayed ty t r)"
    and final: "Q r \<Longrightarrow> fin (o_id r) lt \<Longrightarrow> o_lease_token r = Some lt \<Longrightarrow> outcome_scope out r \<Longrightarrow> Q (outcome_row out t r)"
    and retired: "Q r \<Longrightarrow> claims t \<Longrightarrow> claimable provider locked t r \<Longrightarrow> st \<in> {Expired, Failed, Canceled} \<Longrightarrow>
       Q (retire_job st reason t r)"
    and leased: "Q r \<Longrightarrow> claims t \<Longrightarrow> claimable provider locked t r \<Longrightarrow> o_attempt_count r < MaxAttempts \<Longrightarrow>
       (\<And>i. fin i (lease i)) \<Longrightarrow> Q (lease_job lease t r)"
    and detached: "Q r \<Longrightarrow> Q (detach_token dead ts r)"
begin

definition jobs_inv :: "db \<Rightarrow> bool" where
  "jobs_inv d \<longleftrightarrow> unique_on o_id (email_outbox d) \<and> (\<forall>r \<in> set (email_outbox d). Q r)"

lemma keeps_update_jobs:
  assumes "\<And>r. o_id (f r) = o_id r" and "\<And>r. Q r \<Longrightarrow> p r \<Longrightarrow> Q (f r)"
  shows "keeps jobs_inv (update_jobs p f)"
proof -
  have "keyed_update o_id f" using assms(1) by unfold_locales
  then have "unique_on o_id (sql_update p f rs)" if "unique_on o_id rs" for rs
    using that by (rule keyed_update.unique_kept)
  with assms(2) show ?thesis by (auto simp: update_jobs_def jobs_inv_def set_sql_update intro!: keeps_exec)
qed

lemma keeps_reduceEvent: "keeps jobs_inv (reduceEvent pmid ty occ t)"
  unfolding reduceEvent_def Let_def
  by (intro keeps_if keeps_bind keeps_inc keeps_ret keeps_update_jobs)
    (auto simp: delivered undelivered sent delayed delivered_row.key_kept undelivered_row.key_kept
      sent_row.key_kept delayed_row.key_kept)

lemma keeps_reduce_all: "keeps jobs_inv (reduce_all pmid es t)"
  by (induction es) (auto intro: keeps_reduceEvent)

lemma keeps_Finalize:
  assumes "fin jid lt"
  shows "keeps jobs_inv (Finalize jid lt out t)"
proof -
  have "keeps jobs_inv (update_jobs (held jid lt out) (outcome_row out t))"
    using assms by (intro keeps_update_jobs) (auto simp: outcome_key.key_kept held_def intro: final)
  then show ?thesis unfolding Finalize_def reconcileEvents_def
    by (auto intro!: keeps_bind keeps_if keeps_reduce_all split: outcome.splits)
qed

lemma keeps_decrypt_jobs:
  assumes "\<And>c j e. (c, j) \<in> set cs \<Longrightarrow> open_claim opn kr c j = Inl e \<Longrightarrow> fin (j_ID j) (j_LeaseToken j)"
  shows "keeps jobs_inv (decrypt_jobs opn kr t cs)"
  using assms
proof (induction cs)
  case (Cons a cs)
  obtain c j where a: "a = (c, j)" by fastforce
  have IH: "keeps jobs_inv (decrypt_jobs opn kr t cs)" using Cons by auto
  show ?case
  proof (cases "open_claim opn kr c j")
    case (Inl e)
    then have "fin (j_ID j) (j_LeaseToken j)" using Cons.prems [of c j] a by simp
    with IH Inl a show ?thesis by (auto intro!: keeps_Finalize)
  next
    case (Inr body)
    with IH a show ?thesis by auto
  qed
qed simp

lemma keeps_QueueTx: "minted oid \<Longrightarrow> keeps jobs_inv (QueueTx seal kr oid nonce t inp)"
proof -
  assume m: "minted oid"
  have "keeps jobs_inv (exec (supersede_jobs uid p t))" for uid p
    by (rule keeps_exec) (auto simp: supersede_jobs_def jobs_inv_def cancel_row.unique_kept set_sql_update cancel)
  moreover have "keeps jobs_inv (exec (insert_job (new_job oid kid n ct t inp)))" for kid n ct
    using new [OF m] by (intro keeps_exec) (auto simp: insert_job_def jobs_inv_def split: if_splits)
  ultimately show ?thesis unfolding QueueTx_def
    by (auto intro!: keeps_bind split: sum.splits prod.splits)
qed

lemma keeps_PurgeFinished: "keeps jobs_inv (PurgeFinished olderThan t t')"
  unfolding PurgeFinished_def by (intro keeps_bind keeps_ret keeps_exec) (auto simp: jobs_inv_def)

lemma keeps_PurgeExpired_tokens: "keeps jobs_inv (PurgeExpired_tokens t)"
  unfolding PurgeExpired_tokens_def
  by (rule keeps_exec) (auto simp: jobs_inv_def detach_row.unique_kept set_sql_update detached)

lemma keeps_RecordProviderEvent: "keeps jobs_inv (RecordProviderEvent svix pmid ty occ t)"
proof -
  have "keeps jobs_inv (exec (insert_event svix pmid ty occ t))"
    by (rule keeps_exec) (auto simp: insert_event_def jobs_inv_def split: if_splits)
  then show ?thesis unfolding RecordProviderEvent_def
    by (intro keeps_bind keeps_if keeps_inc keeps_ret keeps_reduceEvent)
qed

lemma claim_map_inv:
  fixes provider limit locked now
  assumes "jobs_inv d" and "claims t" and "\<And>i. fin i (lease i)"
  defines "cs \<equiv> candidates provider limit locked t d"
  shows "jobs_inv (d\<lparr>email_outbox := map (claim_row now cs lease t) (email_outbox d)\<rparr>)"
proof -
  have uniq: "unique_on o_id (email_outbox d)" using assms(1) by (simp add: jobs_inv_def)
  have "o_id (claim_row now cs lease t r) = o_id r" for r
    by (simp add: claim_row_def retire_row.key_kept lease_row.key_kept)
  then have "unique_on o_id (map (claim_row now cs lease t) (email_outbox d))"
    using uniq by (simp add: unique_on_def comp_def)
  moreover have "Q (claim_row now cs lease t r)" if r: "r \<in> set (email_outbox d)" for r
  proof -
    note row = ids_with_row [OF uniq r, of now _ provider limit locked t, folded cs_def]
    have q: "Q r" using assms(1) r by (simp add: jobs_inv_def)
    have "o_attempt_count r < MaxAttempts" if "o_id r \<in> set (ids_with now VLeasable cs)"
      using row [OF that] by (auto simp: verdict_of_def split: if_splits)
    then show ?thesis using q row assms(2,3)
      by (auto simp: claim_row_def intro: retired leased)
  qed
  ultimately show ?thesis by (simp add: jobs_inv_def)
qed

lemma keeps_Claim:
  assumes "claims t" and "\<And>i. fin i (lease i)"
  shows "keeps jobs_inv (Claim opn kr provider limit locked lease now t t')"
proof (rule keepsI)
  fix w r w' assume run: "Claim opn kr provider limit locked lease now t t' w = (r, w')" and I: "jobs_inv (wdb w)"
  obtain x w1 where x: "in_tx (claim_tx provider limit locked lease now t) w = (x, w1)" by fastforce
  show "jobs_inv (wdb w')"
  proof (cases x)
    case (Inl e)
    then have "wdb w1 = wdb w" using x by (simp add: in_tx_rollback)
    moreover have "w' = w1" using run x Inl by (cases e) (auto simp: Claim_def tryM_def bindM_def retM_def failM_def)
    ultimately show ?thesis using I by simp
  next
    case (Inr y)
    obtain a b c claimed where y: "y = (a, b, c, claimed)" by (cases y)
    have uniq: "unique_on o_id (email_outbox (wdb w))" using I by (simp add: jobs_inv_def)
    note tx = claim_tx_commit [OF x [unfolded Inr y] uniq]
    have "fin (j_ID j) (j_LeaseToken j)" if "(r, j) \<in> set claimed" for r j
      using tx(2) that assms(2) by auto
    then have "keeps jobs_inv (bindM (repeatM a (inc_counter MetricExpired)) (\<lambda>_.
          bindM (repeatM b (inc_counter MetricFailed)) (\<lambda>_.
          bindM (repeatM c (inc_counter MetricCanceled)) (\<lambda>_. decrypt_jobs opn kr t' claimed))))"
      by (intro keeps_bind keeps_repeat keeps_inc keeps_decrypt_jobs)
    moreover have "jobs_inv (wdb w1)" unfolding tx(1) by (rule claim_map_inv [OF I assms(1)]) (rule assms(2))
    ultimately show ?thesis using run x Inr y by (auto simp: Claim_def tryM_def bindM_def [of "\<lambda>w. _ w"] dest: keepsD)
  qed
qed

lemma inv_step:
  assumes "outbox_step minted claims fin w w'" and "jobs_inv (wdb w)"
  shows "jobs_inv (wdb w')"
  using assms(1)
proof cases
  case ob_queue
  then show ?thesis using assms(2) by (blast dest: keepsD keeps_QueueTx)
next
  case ob_claim
  then show ?thesis using assms(2) by (blast dest: keepsD keeps_Claim)
next
  case ob_finalize
  then show ?thesis using assms(2) by (blast dest: keepsD keeps_Finalize)
next
  case ob_event
  from keepsD [OF keeps_RecordProviderEvent this assms(2)] show ?thesis .
next
  case ob_purge
  from keepsD [OF keeps_PurgeFinished this assms(2)] show ?thesis .
next
  case ob_tokens
  from keepsD [OF keeps_PurgeExpired_tokens this assms(2)] show ?thesis .
next
  case ob_other
  then show ?thesis using assms(2) by (simp add: jobs_inv_def)
qed

end

sublocale row_invariant \<subseteq> preserved "outbox_step minted claims fin" "\<lambda>w. jobs_inv (wdb w)"
  by unfold_locales (rule inv_step)

subsection \<open>Well-formed jobs\<close>

definition job_ok :: "outbox_row \<Rightarrow> bool" where
  "job_ok r \<longleftrightarrow>
     (if o_status r = Pending
      then o_provider_message_id r = None \<and> o_key_id r \<noteq> None \<and> o_nonce r \<noteq> None \<and> o_ciphertext r \<noteq> None
      else o_nonce r = None \<and> o_ciphertext r = None \<and> o_lease_token r = None \<and> o_lease_until r = None) \<and>
     o_attempt_count r \<le> MaxAttempts \<and> (o_lease_token r = None \<longleftrightarrow> o_lease_until r = None) \<and>
     (o_provider_message_id r \<noteq> None \<longrightarrow> o_status r \<in> {Accepted, Delivered, Failed})"

text \<open>The ways a status may change.\<close>

fun may_become :: "status \<Rightarrow> status \<Rightarrow> bool" where
  "may_become Pending s = True"
| "may_become Accepted s = (s \<in> {Accepted, Delivered, Failed})"
| "may_become Delivered s = (s \<in> {Delivered, Failed})"
| "may_become Failed s = (s = Failed)"
| "may_become Canceled s = (s = Canceled)"
| "may_become Expired s = (s = Expired)"

lemma may_become_refl [simp]: "may_become s s"
  by (cases s) auto

lemma job_ok_new: "job_ok (new_job oid kid n ct t inp)"
  by (simp add: job_ok_def new_job_def)

lemma job_ok_cancel: "job_ok r \<Longrightarrow> o_status r = Pending \<Longrightarrow> job_ok (cancel_job t r)"
  by (simp add: job_ok_def row_defs)

lemma job_ok_delivered: "job_ok r \<Longrightarrow> o_provider_message_id r = Some m \<Longrightarrow> job_ok (mark_delivered occ t r)"
  by (auto simp: job_ok_def row_defs split: if_splits)

lemma job_ok_undelivered: "job_ok r \<Longrightarrow> o_provider_message_id r = Some m \<Longrightarrow> job_ok (mark_undelivered ty occ t r)"
  by (auto simp: job_ok_def row_defs split: if_splits)

lemma job_ok_not_sent: "job_ok r \<Longrightarrow> o_provider_message_id r = Some m \<Longrightarrow> o_status r \<noteq> Pending"
  by (auto simp: job_ok_def)

lemma job_ok_delayed: "job_ok r \<Longrightarrow> job_ok (mark_delayed ty t r)"
  by (simp add: job_ok_def row_defs)

lemma job_ok_final: "job_ok r \<Longrightarrow> o_lease_token r = Some lt \<Longrightarrow> job_ok (outcome_row out t r)"
  by (cases out) (auto simp: job_ok_def row_defs split: if_splits)

lemma job_ok_retired: "job_ok r \<Longrightarrow> o_status r = Pending \<Longrightarrow> st \<in> {Expired, Failed, Canceled} \<Longrightarrow> job_ok (retire_job st reason t r)"
  by (auto simp: job_ok_def row_defs)

lemma job_ok_leased: "job_ok r \<Longrightarrow> o_status r = Pending \<Longrightarrow> o_attempt_count r < MaxAttempts \<Longrightarrow> job_ok (lease_job lease t r)"
  by (auto simp: job_ok_def row_defs)

lemma job_ok_detached: "job_ok r \<Longrightarrow> job_ok (detach_token dead ts r)"
  by (auto simp: job_ok_def row_defs split: option.splits)

lemma claimable_pending: "claimable provider locked t r \<Longrightarrow> o_status r = Pending"
  by (simp add: claimable_def)

lemmas job_ok_kept = job_ok_new job_ok_cancel job_ok_delivered job_ok_undelivered job_ok_delayed job_ok_final
  job_ok_retired job_ok_leased job_ok_detached

interpretation ok_rows: row_invariant job_ok "\<lambda>_. True" "\<lambda>_. True" "\<lambda>_ _. True"
  by unfold_locales (auto intro: job_ok_kept dest: claimable_pending job_ok_not_sent)

text \<open>A job's status never leaves what its earlier status allows.\<close>

definition status_since :: "string \<Rightarrow> status \<Rightarrow> outbox_row \<Rightarrow> bool" where
  "status_since i s r \<longleftrightarrow> job_ok r \<and> (o_id r = i \<longrightarrow> may_become s (o_status r))"

lemma may_become_pending: "may_become s Pending \<Longrightarrow> s = Pending"
  by (cases s) auto

lemma may_become_failed: "may_become s t \<Longrightarrow> t \<in> {Accepted, Delivered, Failed} \<Longrightarrow> may_become s Failed"
  by (cases s) auto

lemma may_become_delivered: "may_become s Accepted \<Longrightarrow> may_become s Delivered"
  by (cases s) auto

lemma job_ok_leased_pending: "job_ok r \<Longrightarrow> o_lease_token r = Some lt \<Longrightarrow> o_status r = Pending"
  by (auto simp: job_ok_def split: if_splits)

lemma job_ok_pmid: "job_ok r \<Longrightarrow> o_provider_message_id r = Some m \<Longrightarrow> o_status r \<in> {Accepted, Delivered, Failed}"
  by (auto simp: job_ok_def)

lemma status_marked:
  "o_status (mark_delivered occ t r) = (if o_status r = Pending \<or> o_status r = Accepted then Delivered else o_status r)"
  "o_status (mark_undelivered ty occ t r) = Failed"
  by (simp_all add: row_defs)

interpretation status_rows: row_invariant "status_since i s" "\<lambda>oid. oid \<noteq> i" "\<lambda>_. True" "\<lambda>_ _. True" for i s
proof (unfold_locales, goal_cases)
  case (1 oid kid n ct t inp)
  then show ?case by (simp add: status_since_def job_ok_new) (simp add: new_job_def)
next
  case (2 r t)
  then show ?case by (auto simp: status_since_def job_ok_cancel cancel_row.key_kept dest: may_become_pending)
next
  case (3 r m occ t)
  then show ?case using job_ok_pmid [of r m]
    by (auto simp: status_since_def job_ok_delivered delivered_row.key_kept status_marked may_become_delivered)
next
  case (4 r m ty occ t)
  then show ?case using job_ok_pmid [of r m]
    by (auto simp: status_since_def job_ok_undelivered undelivered_row.key_kept status_marked intro: may_become_failed)
next
  case (5 r m occ t)
  then show ?case by (auto simp: status_since_def dest: job_ok_not_sent)
next
  case (6 r m ty t)
  then show ?case by (simp add: status_since_def job_ok_delayed delayed_row.key_kept) (simp add: mark_delayed_def)
next
  case (7 r lt out t)
  then show ?case using job_ok_leased_pending [of r lt]
    by (auto simp: status_since_def job_ok_final outcome_key.key_kept dest: may_become_pending)
next
  case (8 r t provider locked st reason)
  then show ?case using claimable_pending [of provider locked t r]
    by (auto simp: status_since_def job_ok_retired retire_row.key_kept dest: may_become_pending)
next
  case (9 r t provider locked lease)
  then show ?case using claimable_pending [of provider locked t r]
    by (auto simp: status_since_def job_ok_leased lease_row.key_kept dest: may_become_pending)
next
  case (10 r dead ts)
  then show ?case by (auto simp: status_since_def job_ok_detached detach_row.key_kept) (auto simp: row_defs split: option.splits)
qed

subsection \<open>What a claim hands out\<close>

lemma decrypt_jobs_result:
  "\<exists>js w'. decrypt_jobs opn kr t cs w = (Inr js, w') \<and>
     js = concat (map (\<lambda>(c, j). case open_claim opn kr c j of Inl _ \<Rightarrow> []
        | Inr body \<Rightarrow> [j\<lparr>j_Message := (j_Message j)\<lparr>m_Body := string_of body\<rparr>\<rparr>]) cs)"
proof (induction cs arbitrary: w)
  case (Cons a cs)
  obtain c j where a: "a = (c, j)" by fastforce
  show ?case
  proof (cases "open_claim opn kr c j")
    case (Inl e)
    with Cons.IH a show ?thesis by (simp add: bindM_def ignoreM_def inc_counter_def split: prod.splits)
  next
    case (Inr body)
    from Cons.IH [of w] Inr a show ?thesis by (auto simp: bindM_def retM_def)
  qed
qed (simp add: retM_def)

lemma decrypt_jobs_member:
  assumes "decrypt_jobs opn kr t cs w = (Inr js, w')" and "j \<in> set js"
  obtains r j0 body where "(r, j0) \<in> set cs" "open_claim opn kr r j0 = Inr body"
    "j = j0\<lparr>j_Message := (j_Message j0)\<lparr>m_Body := string_of body\<rparr>\<rparr>"
proof -
  obtain c j0 where c: "(c, j0) \<in> set cs" and m: "j \<in> set (case open_claim opn kr c j0 of Inl _ \<Rightarrow> []
        | Inr body \<Rightarrow> [j0\<lparr>j_Message := (j_Message j0)\<lparr>m_Body := string_of body\<rparr>\<rparr>])"
    using assms decrypt_jobs_result [of opn kr t cs w] by auto
  then obtain body where "open_claim opn kr c j0 = Inr body" by (cases "open_claim opn kr c j0") auto
  with that [OF c this] m show thesis by simp
qed

lemma repeat_inc: "repeatM n (inc_counter m) w = (Inr (), w\<lparr>counters := counters w @ replicate n m\<rparr>)"
  by (induction n arbitrary: w) (simp_all add: retM_def inc_counter_def bindM_def)

text \<open>Either nothing was claimed, or the transaction committed and the payloads were opened.\<close>

lemma Claim_run:
  assumes "Claim opn kr provider limit locked lease now t t' w = (Inr js, w')" and "js \<noteq> []"
  obtains a b c claimed w1 w2 where
    "in_tx (claim_tx provider limit locked lease now t) w = (Inr (a, b, c, claimed), w1)"
    "wdb w2 = wdb w1" "decrypt_jobs opn kr t' claimed w2 = (Inr js, w')"
proof -
  obtain x w1 where x: "in_tx (claim_tx provider limit locked lease now t) w = (x, w1)" by fastforce
  show thesis
  proof (cases x)
    case (Inl e)
    then show thesis using assms x by (cases e) (auto simp: Claim_def tryM_def bindM_def retM_def failM_def)
  next
    case (Inr y)
    obtain a b c claimed where y: "y = (a, b, c, claimed)" by (cases y)
    let ?w2 = "w1\<lparr>counters := counters w1 @ replicate a MetricExpired @ replicate b MetricFailed @ replicate c MetricCanceled\<rparr>"
    have "decrypt_jobs opn kr t' claimed ?w2 = (Inr js, w')"
      using assms(1) x Inr y by (simp add: Claim_def tryM_def bindM_def repeat_inc)
    with that [of a b c claimed w1 ?w2] x Inr y show thesis by simp
  qed
qed

lemma Claim_jobs:
  assumes "Claim opn kr provider limit locked lease now t t' w = (Inr js, w')" and "j \<in> set js"
    and "unique_on o_id (email_outbox (wdb w))"
  obtains r body where "r \<in> set (email_outbox (wdb w))" "claimable provider locked t r"
    "verdict_of now (r, token_live t (wdb w) r) = VLeasable"
    "open_claim opn kr r j = Inr body"
    "j = \<lparr>j_ID = o_id r, j_UserID = o_user_id r, j_Provider = o_provider r, j_Purpose = o_purpose r,
         j_Attempt = o_attempt_count r + 1, j_LeaseToken = lease (o_id r), j_LeaseUntil = t + LeaseDuration,
         j_SendBefore = o_send_before r,
         j_Message = \<lparr>m_To = o_recipient r, m_Subject = o_subject r, m_Body = string_of body\<rparr>\<rparr>"
proof -
  have ne: "js \<noteq> []" using assms(2) by auto
  obtain a b c claimed w1 w2 where
    tx: "in_tx (claim_tx provider limit locked lease now t) w = (Inr (a, b, c, claimed), w1)"
    and dec: "decrypt_jobs opn kr t' claimed w2 = (Inr js, w')"
    by (rule Claim_run [OF assms(1) ne])
  obtain r j0 body where rj: "(r, j0) \<in> set claimed" "open_claim opn kr r j0 = Inr body"
    "j = j0\<lparr>j_Message := (j_Message j0)\<lparr>m_Body := string_of body\<rparr>\<rparr>"
    by (rule decrypt_jobs_member [OF dec assms(2)])
  have o: "open_claim opn kr r j = Inr body" using rj by (simp add: open_claim_def)
  have m: "(r, token_live t (wdb w) r) \<in> set (candidates provider limit locked t (wdb w))"
    "verdict_of now (r, token_live t (wdb w) r) = VLeasable"
    "j0 = \<lparr>j_ID = o_id r, j_UserID = o_user_id r, j_Provider = o_provider r, j_Purpose = o_purpose r,
         j_Attempt = o_attempt_count r + 1, j_LeaseToken = lease (o_id r), j_LeaseUntil = t + LeaseDuration,
         j_SendBefore = o_send_before r,
         j_Message = \<lparr>m_To = o_recipient r, m_Subject = o_subject r, m_Body = []\<rparr>\<rparr>"
    using claim_tx_commit(2) [OF tx assms(3)] rj(1) by blast+
  have cand: "r \<in> set (email_outbox (wdb w))" "claimable provider locked t r"
    using candidates_rows(1,2) [OF m(1)] by simp_all
  show thesis by (rule that [OF cand m(2) o]) (simp add: rj(3) m(3))
qed

subsection \<open>A lease excludes everyone else\<close>

definition held_by :: "string \<Rightarrow> string \<Rightarrow> gotime \<Rightarrow> outbox_row \<Rightarrow> bool" where
  "held_by i lt L r \<longleftrightarrow> (o_id r = i \<longrightarrow> o_status r \<noteq> Pending \<or>
     (o_lease_token r = Some lt \<and> (\<exists>U. o_lease_until r = Some U \<and> L \<le> U)))"

interpretation held_rows: row_invariant "held_by i lt L" "\<lambda>oid. oid \<noteq> i" "\<lambda>t. t < L" "\<lambda>k x. \<not> (k = i \<and> x = lt)"
  for i lt L
proof (unfold_locales, goal_cases)
  case (7 r lt' out t)
  then show ?case by (cases out) (auto simp: held_by_def row_defs)
next
  case (8 r t provider locked st reason)
  then show ?case by (auto simp: held_by_def row_defs claimable_def)
next
  case (9 r t provider locked lease)
  then show ?case by (auto simp: held_by_def row_defs claimable_def)
next
  case (10 r dead ts)
  then show ?case by (auto simp: held_by_def row_defs split: option.splits)
qed (auto simp: held_by_def row_defs new_job_def)

lemma Claim_establishes_hold:
  assumes uniq: "unique_on o_id (email_outbox (wdb w))"
    and run: "Claim opn kr provider limit locked lease now t t' w = (Inr js, w')" and j: "j \<in> set js"
  shows "held_rows.jobs_inv (j_ID j) (j_LeaseToken j) (t + LeaseDuration) (wdb w')"
proof -
  let ?L = "t + LeaseDuration" and ?i = "j_ID j" and ?lt = "j_LeaseToken j"
  let ?cs = "candidates provider limit locked t (wdb w)"
  have ne: "js \<noteq> []" using j by auto
  obtain a b c claimed w1 w2 where
    tx: "in_tx (claim_tx provider limit locked lease now t) w = (Inr (a, b, c, claimed), w1)"
    and d2: "wdb w2 = wdb w1" and dec: "decrypt_jobs opn kr t' claimed w2 = (Inr js, w')"
    by (rule Claim_run [OF run ne])
  note com = claim_tx_commit [OF tx uniq]
  obtain r j0 body where rj: "(r, j0) \<in> set claimed" "open_claim opn kr r j0 = Inr body"
    "j = j0\<lparr>j_Message := (j_Message j0)\<lparr>m_Body := string_of body\<rparr>\<rparr>"
    by (rule decrypt_jobs_member [OF dec j])
  have jr: "?i = o_id r" "?lt = lease (o_id r)" using com(2) rj(1,3) by auto
  have dist: "distinct (map (o_id \<circ> fst) claimed)"
    unfolding com(3) ids_with_def using candidates_distinct [OF uniq] by (simp add: distinct_map_filter)
  have mem: "o_id r \<in> set (ids_with now VLeasable ?cs)"
    unfolding com(3) [symmetric] using rj(1) by force
  have row: "claim_row now ?cs lease t x = lease_job lease t x" if "o_id x = o_id r" for x
    using that mem ids_with_disjoint [OF candidates_distinct [OF uniq] mem] by (auto simp: claim_row_def)
  have "held_by ?i ?lt ?L (claim_row now ?cs lease t x)" for x
  proof (cases "o_id x = o_id r")
    case True
    with row jr show ?thesis by (simp add: held_by_def lease_job_def)
  next
    case False
    then show ?thesis by (simp add: held_by_def jr claim_row_def retire_row.key_kept lease_row.key_kept)
  qed
  moreover have "o_id (claim_row now ?cs lease t x) = o_id x" for x
    by (simp add: claim_row_def retire_row.key_kept lease_row.key_kept)
  then have "unique_on o_id (map (claim_row now ?cs lease t) (email_outbox (wdb w)))"
    using uniq by (simp add: unique_on_def comp_def)
  ultimately have I: "held_rows.jobs_inv ?i ?lt ?L (wdb w2)"
    by (auto simp: held_rows.jobs_inv_def d2 com(1))
  have "keeps (held_rows.jobs_inv ?i ?lt ?L) (decrypt_jobs opn kr t' claimed)"
  proof (rule held_rows.keeps_decrypt_jobs)
    fix c' j' e assume c': "(c', j') \<in> set claimed" and fail: "open_claim opn kr c' j' = Inl e"
    have "o_id c' \<noteq> o_id r"
    proof
      assume "o_id c' = o_id r"
      then have "(c', j') = (r, j0)" using dist c' rj(1) unfolding distinct_map by (metis comp_apply fst_conv inj_on_def)
      with fail rj(2) show False by simp
    qed
    moreover have "j_ID j' = o_id c'" using com(2) c' by auto
    ultimately show "\<not> (j_ID j' = ?i \<and> j_LeaseToken j' = ?lt)" using jr by simp
  qed
  from keepsD [OF this dec I] show ?thesis .
qed

lemma held_not_claimed:
  assumes "held_rows.jobs_inv i lt L (wdb w)" and "u < L"
    and "Claim opn kr provider limit locked lease now u u' w = (Inr js, w')"
  shows "i \<notin> j_ID ` set js"
proof
  assume "i \<in> j_ID ` set js"
  then obtain j where j: "j \<in> set js" "j_ID j = i" by auto
  have uniq: "unique_on o_id (email_outbox (wdb w))" using assms(1) by (simp add: held_rows.jobs_inv_def)
  obtain r body where r: "r \<in> set (email_outbox (wdb w))" "claimable provider locked u r"
    and jr: "j = \<lparr>j_ID = o_id r, j_UserID = o_user_id r, j_Provider = o_provider r, j_Purpose = o_purpose r,
         j_Attempt = o_attempt_count r + 1, j_LeaseToken = lease (o_id r), j_LeaseUntil = u + LeaseDuration,
         j_SendBefore = o_send_before r,
         j_Message = \<lparr>m_To = o_recipient r, m_Subject = o_subject r, m_Body = string_of body\<rparr>\<rparr>"
    by (rule Claim_jobs [OF assms(3) j(1) uniq])
  have "o_id r = i" using j(2) jr by simp
  with r have "held_by i lt L r" using assms(1) by (auto simp: held_rows.jobs_inv_def)
  with r assms(2) \<open>o_id r = i\<close> show False by (auto simp: held_by_def claimable_def)
qed

subsection \<open>A pending job keeps its content\<close>

definition job_content :: "outbox_row \<Rightarrow> string \<times> string option \<times> bytes option \<times> bytes option \<times> string \<times> string \<times> string \<times> string" where
  "job_content r = (o_user_id r, o_key_id r, o_nonce r, o_ciphertext r, o_provider r, o_purpose r, o_recipient r, o_subject r)"

definition still_queued :: "string \<Rightarrow> outbox_row \<Rightarrow> outbox_row \<Rightarrow> bool" where
  "still_queued i r0 r \<longleftrightarrow> (o_id r = i \<longrightarrow> o_status r = Pending \<longrightarrow> job_content r = job_content r0)"

interpretation content_rows: row_invariant "still_queued i r0" "\<lambda>oid. oid \<noteq> i" "\<lambda>_. True" "\<lambda>_ _. True" for i r0
proof (unfold_locales, goal_cases)
  case (7 r lt' out t)
  then show ?case by (cases out) (auto simp: still_queued_def job_content_def row_defs)
next
  case (8 r t provider locked st reason)
  then show ?case by (auto simp: still_queued_def row_defs)
next
  case (10 r dead ts)
  then show ?case by (auto simp: still_queued_def job_content_def row_defs split: option.splits)
qed (auto simp: still_queued_def job_content_def row_defs new_job_def)

lemma QueueTx_row:
  assumes "QueueTx seal kr oid nonce t inp w = (Inr x, w1)" and "unique_on o_id (email_outbox (wdb w))"
  obtains ct kid where
    "Encrypt seal kr nonce (bytes_of (q_Body inp)) (payloadAAD oid (q_Provider inp) (purpose_string (q_Purpose inp))) = Inr (kid, nonce, ct)"
    "content_rows.jobs_inv oid (new_job oid kid nonce ct t inp) (wdb w1)"
proof -
  obtain kid n ct where enc: "Encrypt seal kr nonce (bytes_of (q_Body inp))
      (payloadAAD oid (q_Provider inp) (purpose_string (q_Purpose inp))) = Inr (kid, n, ct)"
    and run: "bindM (exec (supersede_jobs (q_UserID inp) (q_Purpose inp) t)) (\<lambda>_.
          exec (insert_job (new_job oid kid n ct t inp))) w = (Inr x, w1)"
    using assms(1) by (auto simp: QueueTx_def failM_def split: sum.splits)
  have n: "n = nonce" using enc by (auto simp: Encrypt_def split: option.splits)
  obtain w0 where s: "exec (supersede_jobs (q_UserID inp) (q_Purpose inp) t) w = (Inr (), w0)"
    and i: "exec (insert_job (new_job oid kid n ct t inp)) w0 = (Inr x, w1)"
    using run by (auto simp: bindM_eq_Inr)
  have d0: "unique_on o_id (email_outbox (wdb w0))"
    using exec_InrD [OF s] assms(2) by (auto simp: supersede_jobs_def cancel_row.unique_kept)
  have "key_free o_id oid (email_outbox (wdb w0))" and "email_outbox (wdb w1) = sql_insert (new_job oid kid n ct t inp) (email_outbox (wdb w0))"
    using exec_InrD [OF i] by (auto simp: insert_job_def new_job_def split: if_splits)
  then have "content_rows.jobs_inv oid (new_job oid kid n ct t inp) (wdb w1)"
    using d0 by (auto simp: content_rows.jobs_inv_def still_queued_def key_free_iff new_job_def)
  with that [of kid ct] enc n show thesis by simp
qed

subsection \<open>Events as a function of the set of event types\<close>

definition failure_event :: "string \<Rightarrow> bool" where
  "failure_event ty \<longleftrightarrow> ty \<in> {EventBounced, EventComplained, EventFailed, EventSuppressed}"

definition reduce_row :: "string \<Rightarrow> string \<Rightarrow> gotime \<Rightarrow> gotime \<Rightarrow> outbox_row \<Rightarrow> outbox_row" where
  "reduce_row pmid ty occ t r =
     (if o_provider_message_id r \<noteq> Some pmid then r
      else if ty = EventDelivered then mark_delivered occ t r
      else if failure_event ty then mark_undelivered ty occ t r
      else if ty = EventSent then (if o_status r = Pending then mark_sent occ t r else r)
      else if ty = EventDeliveryDelayed
        then (if o_status r = Pending \<or> o_status r = Accepted then mark_delayed ty t r else r)
      else r)"

text \<open>The status an accepted job ends with, given the types of the events seen for it.\<close>

definition delivery_status :: "string set \<Rightarrow> status" where
  "delivery_status tys = (if \<exists>ty \<in> tys. failure_event ty then Failed
     else if EventDelivered \<in> tys then Delivered else Accepted)"

lemma reduceEvent_nofault:
  assumes "faults w = []"
  shows "\<exists>w'. reduceEvent pmid ty occ t w = (Inr (), w') \<and> faults w' = [] \<and>
    wdb w' = (wdb w)\<lparr>email_outbox := map (reduce_row pmid ty occ t) (email_outbox (wdb w))\<rparr>"
proof -
  have upd: "update_jobs p f w = (Inr (rows_affected p (email_outbox (wdb w))),
      w\<lparr>wdb := (wdb w)\<lparr>email_outbox := sql_update p f (email_outbox (wdb w))\<rparr>\<rparr>)" for p f
    using assms by (simp add: update_jobs_def exec_nofault)
  consider "ty = EventDelivered" | "ty \<noteq> EventDelivered" "failure_event ty"
    | "ty = EventSent" "\<not> failure_event ty" | "ty = EventDeliveryDelayed" "\<not> failure_event ty"
    | "ty \<noteq> EventDelivered" "\<not> failure_event ty" "ty \<noteq> EventSent" "ty \<noteq> EventDeliveryDelayed" by blast
  then show ?thesis
  proof cases
    case 1
    then show ?thesis using upd assms
      by (auto simp: reduceEvent_def bindM_def inc_counter_def sql_update_def reduce_row_def)
  next
    case 2
    then show ?thesis using upd assms
      by (auto simp: reduceEvent_def bindM_def inc_counter_def sql_update_def reduce_row_def failure_event_def)
  next
    case 3
    moreover have "EventSent \<noteq> EventDelivered" by (simp add: event_names)
    ultimately show ?thesis using upd assms
      by (auto simp: reduceEvent_def bindM_def retM_def sql_update_def reduce_row_def failure_event_def)
  next
    case 4
    moreover have "EventDeliveryDelayed \<noteq> EventDelivered" "EventDeliveryDelayed \<noteq> EventSent" by (simp_all add: event_names)
    ultimately show ?thesis using upd assms
      by (auto simp: reduceEvent_def bindM_def retM_def sql_update_def reduce_row_def failure_event_def)
  next
    case 5
    then have "map (reduce_row pmid ty occ t) rs = rs" for rs by (intro map_idI) (simp add: reduce_row_def)
    with 5 assms show ?thesis by (auto simp: reduceEvent_def retM_def failure_event_def)
  qed
qed

lemma reduce_row_kept:
  "o_id (reduce_row pmid ty occ t r) = o_id r"
  "o_provider_message_id (reduce_row pmid ty occ t r) = o_provider_message_id r"
  by (simp_all add: reduce_row_def row_defs)

lemma reduce_row_status:
  assumes "o_provider_message_id r = Some pmid" and "o_status r = delivery_status tys"
  shows "o_status (reduce_row pmid ty occ t r) = delivery_status (insert ty tys)"
proof -
  have "\<not> failure_event EventDelivered" by (simp add: failure_event_def event_names)
  then show ?thesis using assms
    by (auto simp: reduce_row_def row_defs delivery_status_def split: if_splits)
qed

lemma reduce_all_nofault:
  assumes "faults w = []"
  shows "\<exists>w'. reduce_all pmid es t w = (Inr (), w') \<and>
    wdb w' = (wdb w)\<lparr>email_outbox := map (\<lambda>r. foldl (\<lambda>r (ty, occ). reduce_row pmid ty occ t r) r es) (email_outbox (wdb w))\<rparr>"
  using assms
proof (induction es arbitrary: w)
  case (Cons e es)
  obtain ty occ where e: "e = (ty, occ)" by fastforce
  obtain w1 where w1: "reduceEvent pmid ty occ t w = (Inr (), w1)" "faults w1 = []"
    "wdb w1 = (wdb w)\<lparr>email_outbox := map (reduce_row pmid ty occ t) (email_outbox (wdb w))\<rparr>"
    using reduceEvent_nofault [OF Cons.prems] by blast
  from Cons.IH [OF w1(2)] show ?case using w1 e by (auto simp: comp_def)
qed (simp add: retM_def)

lemma foldl_reduce:
  fixes es t
  assumes "o_provider_message_id r = Some pmid" and "o_status r = delivery_status tys"
  defines "r' \<equiv> foldl (\<lambda>r (ty, occ). reduce_row pmid ty occ t r) r es"
  shows "o_id r' = o_id r \<and> o_provider_message_id r' = Some pmid \<and>
    o_status r' = delivery_status (fst ` set es \<union> tys)"
  unfolding r'_def using assms(1,2)
proof (induction es arbitrary: r tys)
  case (Cons e es)
  obtain ty occ where e: "e = (ty, occ)" by fastforce
  have "o_status (reduce_row pmid ty occ t r) = delivery_status (insert ty tys)"
    using Cons.prems by (rule reduce_row_status)
  with Cons.IH [of "reduce_row pmid ty occ t r" "insert ty tys"] Cons.prems e show ?case
    by (simp add: reduce_row_kept)
qed simp

lemma foldl_reduce_id: "o_id (foldl (\<lambda>r (ty, occ). reduce_row pmid ty occ t r) r es) = o_id r"
  by (induction es arbitrary: r) (auto simp: reduce_row_kept split: prod.splits)

subsection \<open>Properties\<close>

definition sample_keyring :: keyring where
  "sample_keyring = NewEphemeralKeyring sample_key"

definition sample_mail :: queue_input where
  "sample_mail = \<lparr>q_UserID = ''u1'', q_TokenID = ''k1'', q_To = ''a@b.c'', q_From = ''s@b.c'', q_Subject = ''hi'',
     q_Body = ''link'', q_Purpose = PurposeReset, q_Provider = ''log'', q_SendBefore = 100\<rparr>"

definition sample_job_row :: outbox_row where
  "sample_job_row = new_job ''o1'' ''ephemeral'' (replicate 12 0)
     (toy_seal sample_key (replicate 12 0) (bytes_of ''link'') (payloadAAD ''o1'' ''log'' ''reset'')) 6 sample_mail"

definition sample_queue_world :: world where
  "sample_queue_world = sample_token_world\<lparr>wdb := (wdb sample_token_world)\<lparr>email_outbox := [sample_job_row]\<rparr>\<rparr>"

definition sample_claimed_row :: outbox_row where
  "sample_claimed_row = lease_job (\<lambda>_. ''L'') 7 sample_job_row"

definition sample_claimed_world :: world where
  "sample_claimed_world = sample_token_world\<lparr>wdb := (wdb sample_token_world)\<lparr>email_outbox := [sample_claimed_row]\<rparr>\<rparr>"

definition sample_job :: job where
  "sample_job = \<lparr>j_ID = ''o1'', j_UserID = ''u1'', j_Provider = ''log'', j_Purpose = ''reset'', j_Attempt = 1,
     j_LeaseToken = ''L'', j_LeaseUntil = 7 + LeaseDuration, j_SendBefore = 100,
     j_Message = \<lparr>m_To = ''a@b.c'', m_Subject = ''hi'', m_Body = ''link''\<rparr>\<rparr>"

lemma sample_queue:
  "QueueTx toy_seal sample_keyring ''o1'' (replicate 12 0) 6 sample_mail sample_token_world = (Inr (), sample_queue_world)"
  by (simp add: QueueTx_def Encrypt_def sample_keyring_def NewEphemeralKeyring_def sample_mail_def
      supersede_jobs_def insert_job_def new_job_def sample_queue_world_def sample_job_row_def
      sample_token_world_def sample_world_def empty_db_def sql_update_def key_free_def user_exists_def
      token_exists_def sample_token_row_def sample_user_def exec_nofault bindM_def sql_insert_def)

lemma sample_claim:
  "Claim toy_open sample_keyring ''log'' 4 (\<lambda>_. False) (\<lambda>_. ''L'') 7 7 7 sample_queue_world = (Inr [sample_job], sample_claimed_world)"
  by code_simp

abbreviation any_outbox_step :: "world \<Rightarrow> world \<Rightarrow> bool" where
  "any_outbox_step \<equiv> outbox_step (\<lambda>_. True) (\<lambda>_. True) (\<lambda>_ _. True)"

lemma reachable_ok:
  assumes "any_outbox_step\<^sup>*\<^sup>* w0 w" and "email_outbox (wdb w0) = []"
  shows "ok_rows.jobs_inv (wdb w)"
  using ok_rows.run_inv [OF assms(1)] assms(2) by (simp add: ok_rows.jobs_inv_def)

lemma sample_queue_step: "any_outbox_step\<^sup>*\<^sup>* sample_token_world sample_queue_world"
  using sample_queue by (blast intro: ob_queue)

lemma sample_claim_step: "any_outbox_step\<^sup>*\<^sup>* sample_token_world sample_claimed_world"
proof -
  have "any_outbox_step sample_queue_world sample_claimed_world" using sample_claim by (blast intro: ob_claim)
  with sample_queue_step show ?thesis by simp
qed

lemma sample_start: "email_outbox (wdb sample_token_world) = []"
  by (simp add: sample_token_world_def sample_world_def empty_db_def)

text \<open>
  Payloads do not outlive their purpose. In every state the queue can reach, with any
  interleaving of enqueueing, claiming, finalizing, webhook events and purges, and any failures, a
  job that is not pending holds neither ciphertext nor nonce nor lease; a pending one has its
  payload and no provider message id; and no job exceeds the attempt ceiling.
\<close>

theorem finished_jobs_hold_no_payload:
  assumes "any_outbox_step\<^sup>*\<^sup>* w0 w" and "email_outbox (wdb w0) = []" and "r \<in> set (email_outbox (wdb w))"
  shows "(o_status r \<noteq> Pending \<longrightarrow> o_nonce r = None \<and> o_ciphertext r = None \<and> o_lease_token r = None \<and> o_lease_until r = None) \<and>
    (o_status r = Pending \<longrightarrow> o_key_id r \<noteq> None \<and> o_nonce r \<noteq> None \<and> o_ciphertext r \<noteq> None \<and> o_provider_message_id r = None) \<and>
    o_attempt_count r \<le> 12"
proof -
  have "job_ok r" using reachable_ok [OF assms(1,2)] assms(3) by (simp add: ok_rows.jobs_inv_def)
  then show ?thesis by (auto simp: job_ok_def MaxAttempts_def split: if_splits)
qed

theorem finished_jobs_hold_no_payload_witness:
  "any_outbox_step\<^sup>*\<^sup>* sample_token_world sample_claimed_world \<and> sample_claimed_row \<in> set (email_outbox (wdb sample_claimed_world)) \<and>
   o_attempt_count sample_claimed_row \<le> 12"
proof -
  have "sample_claimed_row \<in> set (email_outbox (wdb sample_claimed_world))" by (simp add: sample_claimed_world_def)
  with finished_jobs_hold_no_payload [OF sample_claim_step sample_start this] sample_claim_step show ?thesis by blast
qed

text \<open>
  C24. Delivery state never walks backwards. Over any history, the status of a job only moves
  along \<open>may_become\<close>: nothing returns to pending, failed, canceled and expired are final, a
  delivered job can only turn into a failed one.
\<close>

theorem job_status_is_monotone:
  assumes "any_outbox_step\<^sup>*\<^sup>* w0 w" and "email_outbox (wdb w0) = []"
    and "r \<in> set (email_outbox (wdb w))"
    and "(outbox_step (\<lambda>oid. oid \<noteq> o_id r) (\<lambda>_. True) (\<lambda>_ _. True))\<^sup>*\<^sup>* w w'"
    and "r' \<in> set (email_outbox (wdb w'))" and "o_id r' = o_id r"
  shows "may_become (o_status r) (o_status r')"
proof -
  have ok: "unique_on o_id (email_outbox (wdb w))" "\<forall>x \<in> set (email_outbox (wdb w)). job_ok x"
    using reachable_ok [OF assms(1,2)] by (simp_all add: ok_rows.jobs_inv_def)
  have "\<forall>x \<in> set (email_outbox (wdb w)). o_id x = o_id r \<longrightarrow> x = r"
    using unique_onD [OF ok(1) _ assms(3)] by blast
  then have "status_rows.jobs_inv (o_id r) (o_status r) (wdb w)"
    using ok by (auto simp: status_rows.jobs_inv_def status_since_def)
  from status_rows.run_inv [OF assms(4) this] assms(5,6) show ?thesis
    by (auto simp: status_rows.jobs_inv_def status_since_def)
qed

theorem job_status_is_monotone_witness:
  "\<exists>r w'. r \<in> set (email_outbox (wdb sample_claimed_world)) \<and>
     Finalize ''o1'' ''L'' (OutcomeFailed ''x'') 8 sample_claimed_world = (Inr (), w') \<and>
     (\<forall>r' \<in> set (email_outbox (wdb w')). o_id r' = o_id r \<longrightarrow> may_become (o_status r) (o_status r'))"
proof -
  have r: "sample_claimed_row \<in> set (email_outbox (wdb sample_claimed_world))" by (simp add: sample_claimed_world_def)
  have "fst (Finalize ''o1'' ''L'' (OutcomeFailed ''x'') 8 sample_claimed_world) = Inr ()" by code_simp
  then obtain w' where f: "Finalize ''o1'' ''L'' (OutcomeFailed ''x'') 8 sample_claimed_world = (Inr (), w')"
    by (metis prod.collapse)
  then have "(outbox_step (\<lambda>oid. oid \<noteq> o_id sample_claimed_row) (\<lambda>_. True) (\<lambda>_ _. True))\<^sup>*\<^sup>* sample_claimed_world w'"
    by (blast intro: ob_finalize)
  from job_status_is_monotone [OF sample_claim_step sample_start r this] r f show ?thesis by blast
qed

text \<open>
  A lease excludes every other worker. From the moment a claim hands out a job, no claim made
  before the lease runs out, by any worker and over any history in which the job is not finalized
  under that lease (and identifiers and lease tokens are not drawn twice), hands it out again.
\<close>

lemma lease_excludes_other_workers:
  assumes "unique_on o_id (email_outbox (wdb w))"
    and "Claim opn kr provider limit locked lease now t t' w = (Inr js, w1)" and "j \<in> set js"
    and "(outbox_step (\<lambda>oid. oid \<noteq> j_ID j) (\<lambda>u. u < t + LeaseDuration)
           (\<lambda>i x. \<not> (i = j_ID j \<and> x = j_LeaseToken j)))\<^sup>*\<^sup>* w1 w2"
    and "u < t + LeaseDuration"
    and "Claim opn' kr' provider' limit' locked' lease' now' u u' w2 = (Inr js', w3)"
  shows "j_ID j \<notin> j_ID ` set js'"
proof -
  have "held_rows.jobs_inv (j_ID j) (j_LeaseToken j) (t + LeaseDuration) (wdb w1)"
    by (rule Claim_establishes_hold [OF assms(1-3)])
  then have "held_rows.jobs_inv (j_ID j) (j_LeaseToken j) (t + LeaseDuration) (wdb w2)"
    by (rule held_rows.run_inv [OF assms(4)])
  then show ?thesis by (rule held_not_claimed [OF _ assms(5,6)])
qed

lemma sample_lease_excludes:
  "\<exists>js w3. Claim toy_open sample_keyring ''log'' 4 (\<lambda>_. False) (\<lambda>_. ''M'') 50 50 50 sample_claimed_world = (Inr js, w3) \<and>
     ''o1'' \<notin> j_ID ` set js"
proof -
  have uniq: "unique_on o_id (email_outbox (wdb sample_queue_world))" by (simp add: sample_queue_world_def unique_on_def)
  have "fst (Claim toy_open sample_keyring ''log'' 4 (\<lambda>_. False) (\<lambda>_. ''M'') 50 50 50 sample_claimed_world) = Inr []"
    by code_simp
  then obtain w3 where c: "Claim toy_open sample_keyring ''log'' 4 (\<lambda>_. False) (\<lambda>_. ''M'') 50 50 50 sample_claimed_world
      = (Inr [], w3)" by (metis prod.collapse)
  have mem: "sample_job \<in> set [sample_job]" and early: "(50 :: int) < 7 + LeaseDuration"
    by (simp_all add: LeaseDuration_def Minute_def)
  have "j_ID sample_job \<notin> j_ID ` set ([] :: job list)"
    by (rule lease_excludes_other_workers [OF uniq sample_claim mem rtranclp.rtrancl_refl early c])
  with c show ?thesis by (auto simp: sample_job_def)
qed

text \<open>
  A worker without the lease changes nothing: if no row carries this job id together with
  this lease token, \<open>Finalize\<close> leaves the database as it is in every world and reports the loss
  (unless the database itself failed), so the outcome of the new owner stands.
\<close>

lemma Finalize_needs_the_lease:
  assumes "\<forall>r \<in> set (email_outbox (wdb w)). \<not> (o_id r = jid \<and> o_lease_token r = Some lt)"
    and "Finalize jid lt out t w = (r, w')"
  shows "wdb w' = wdb w \<and> (r = Inl ErrLeaseLost \<or> r = Inl ErrBackend)"
proof -
  have none: "\<forall>r \<in> set (email_outbox (wdb w)). \<not> held jid lt out r" using assms(1) by (auto simp: held_def)
  then have "sql_update (held jid lt out) (outcome_row out t) (email_outbox (wdb w)) = email_outbox (wdb w)"
    by (intro sql_update_none) blast
  moreover have "rows_affected (held jid lt out) (email_outbox (wdb w)) = 0" using none by (simp add: rows_affected_0)
  ultimately show ?thesis using assms(2)
    by (auto simp: Finalize_def update_jobs_def exec_def failM_def bindM_def split: prod.splits bool.splits)
qed

theorem Finalize_needs_the_lease_witness:
  "\<exists>r w'. Finalize ''o1'' ''stale'' (OutcomeAccepted ''m'') 9 sample_claimed_world = (r, w') \<and>
     wdb w' = wdb sample_claimed_world"
proof -
  have none: "\<forall>r \<in> set (email_outbox (wdb sample_claimed_world)). \<not> (o_id r = ''o1'' \<and> o_lease_token r = Some ''stale'')"
    by (simp add: sample_claimed_world_def sample_claimed_row_def lease_job_def)
  obtain r w' where f: "Finalize ''o1'' ''stale'' (OutcomeAccepted ''m'') 9 sample_claimed_world = (r, w')" by fastforce
  from Finalize_needs_the_lease [OF none f] f show ?thesis by blast
qed

text \<open>
  C27. Events that beat the accept update are not lost, and their order does not matter. When
  nothing fails, accepting a leased job folds every event already stored for its provider
  message id, and the status it ends with depends only on which types were seen: failed if any
  was a bounce, complaint, failure or suppression, else delivered if one was a delivery, else
  accepted.
\<close>

theorem accepted_job_reflects_stored_events:
  assumes "faults w = []" and "unique_on o_id (email_outbox (wdb w))" and "pmid \<noteq> []"
    and "r \<in> set (email_outbox (wdb w))" and "o_lease_token r = Some lt"
  shows "\<exists>w' r'. Finalize (o_id r) lt (OutcomeAccepted pmid) t w = (Inr (), w') \<and>
    sql_row (\<lambda>x. o_id x = o_id r) (email_outbox (wdb w')) = Some r' \<and>
    o_provider_message_id r' = Some pmid \<and>
    o_status r' = delivery_status (e_event_type ` {e \<in> set (email_events (wdb w)). e_provider_message_id e = pmid})"
proof -
  let ?h = "held (o_id r) lt (OutcomeAccepted pmid)"
  let ?w1 = "w\<lparr>wdb := (wdb w)\<lparr>email_outbox := sql_update ?h (accept_job pmid t) (email_outbox (wdb w))\<rparr>\<rparr>"
  have h: "?h r" using assms(5) by (simp add: held_def)
  then have n: "rows_affected ?h (email_outbox (wdb w)) \<noteq> 0" using assms(4) by (auto simp: rows_affected_0)
  let ?es = "stored_events pmid (wdb w)"
  obtain w' where w': "reduce_all pmid ?es t ?w1 = (Inr (), w')"
    "wdb w' = (wdb ?w1)\<lparr>email_outbox := map (\<lambda>r. foldl (\<lambda>r (ty, occ). reduce_row pmid ty occ t r) r ?es) (email_outbox (wdb ?w1))\<rparr>"
    using reduce_all_nofault [of ?w1 pmid ?es t] assms(1) by auto
  have run: "Finalize (o_id r) lt (OutcomeAccepted pmid) t w = (Inr (), w')"
    using assms(1,3) n w'(1)
    by (simp add: Finalize_def update_jobs_def exec_nofault bindM_def reconcileEvents_def query_nofault stored_events_def)
  let ?r1 = "accept_job pmid t r" and ?f = "\<lambda>r. foldl (\<lambda>r (ty, occ). reduce_row pmid ty occ t r) r ?es"
  have "?r1 \<in> set (email_outbox (wdb ?w1))" using assms(4) h by (auto simp: set_sql_update)
  then have mem: "?f ?r1 \<in> set (email_outbox (wdb w'))" using w'(2) by simp
  have "unique_on o_id (email_outbox (wdb ?w1))"
    using outcome_key.unique_kept [OF assms(2), of ?h "OutcomeAccepted pmid" t] by simp
  then have uniq: "unique_on o_id (email_outbox (wdb w'))"
    using w'(2) by (simp add: unique_on_def comp_def foldl_reduce_id)
  have f: "o_id (?f ?r1) = o_id r \<and> o_provider_message_id (?f ?r1) = Some pmid \<and>
      o_status (?f ?r1) = delivery_status (fst ` set ?es \<union> {})"
    using foldl_reduce [of ?r1 pmid "{}" t ?es] by (simp add: row_defs delivery_status_def)
  have "sql_row (\<lambda>x. o_id x = o_id r) (email_outbox (wdb w')) = Some (?f ?r1)"
    using unique_on_row [OF uniq mem] f by simp
  moreover have "fst ` set ?es = e_event_type ` {e \<in> set (email_events (wdb w)). e_provider_message_id e = pmid}"
    by (auto simp: stored_events_def image_def)
  ultimately show ?thesis using run f by auto
qed

text \<open>The sample queue after a bounce and a delivery arrived early for message \<open>''m''\<close>.\<close>

definition sample_early_world :: world where
  "sample_early_world = sample_claimed_world\<lparr>wdb := (wdb sample_claimed_world)\<lparr>email_events :=
     [\<lparr>e_id = 1, e_svix_id = ''s1'', e_provider_message_id = ''m'', e_event_type = EventBounced, e_occurred_at = 9, e_received_at = 9\<rparr>,
      \<lparr>e_id = 2, e_svix_id = ''s2'', e_provider_message_id = ''m'', e_event_type = EventDelivered, e_occurred_at = 8, e_received_at = 10\<rparr>]\<rparr>\<rparr>"

theorem accepted_job_reflects_stored_events_witness:
  "\<exists>w' r'. Finalize ''o1'' ''L'' (OutcomeAccepted ''m'') 11 sample_early_world = (Inr (), w') \<and>
     sql_row (\<lambda>x. o_id x = ''o1'') (email_outbox (wdb w')) = Some r' \<and> o_status r' = Failed"
proof -
  have h: "faults sample_early_world = []" "unique_on o_id (email_outbox (wdb sample_early_world))" "''m'' \<noteq> []"
    "sample_claimed_row \<in> set (email_outbox (wdb sample_early_world))" "o_lease_token sample_claimed_row = Some ''L''"
    by (simp_all add: sample_early_world_def sample_claimed_world_def sample_claimed_row_def lease_job_def unique_on_def
        sample_token_world_def sample_world_def)
  have i: "o_id sample_claimed_row = ''o1''" by (simp add: sample_claimed_row_def lease_job_def sample_job_row_def new_job_def)
  have "EventBounced \<in> e_event_type ` {e \<in> set (email_events (wdb sample_early_world)). e_provider_message_id e = ''m''}"
    by (force simp: sample_early_world_def)
  then have "delivery_status (e_event_type ` {e \<in> set (email_events (wdb sample_early_world)). e_provider_message_id e = ''m''}) = Failed"
    by (auto simp: delivery_status_def failure_event_def)
  with accepted_job_reflects_stored_events [OF h, of 11] i show ?thesis by auto
qed

text \<open>
  What is handed to the provider is what was queued. For any authenticated encryption whose
  open undoes its seal, a job handed out after any history under the identifier of a queued mail
  has that mail's user, recipient, subject, body, provider and purpose, as long as the key it was
  sealed under is still in the worker's keyring.
\<close>

lemma delivered_mail_is_what_was_queued:
  assumes aead: "\<forall>key nonce p a. opn key nonce (seal key nonce p a) a = Some p"
    and "unique_on o_id (email_outbox (wdb w))" and "length nonce = nonceSize"
    and "QueueTx seal kr oid nonce t inp w = (Inr (), w1)"
    and "(outbox_step (\<lambda>i. i \<noteq> oid) (\<lambda>_. True) (\<lambda>_ _. True))\<^sup>*\<^sup>* w1 w2"
    and "Claim opn kr' provider limit locked lease now u u' w2 = (Inr js, w3)"
    and "j \<in> set js" and "j_ID j = oid"
    and "map_of (aeads kr') (activeID kr) = map_of (aeads kr) (activeID kr)"
  shows "j_UserID j = q_UserID inp \<and> j_Provider j = q_Provider inp \<and> j_Purpose j = purpose_string (q_Purpose inp) \<and>
    j_Message j = \<lparr>m_To = q_To inp, m_Subject = q_Subject inp, m_Body = q_Body inp\<rparr>"
proof -
  obtain ct kid where enc: "Encrypt seal kr nonce (bytes_of (q_Body inp))
      (payloadAAD oid (q_Provider inp) (purpose_string (q_Purpose inp))) = Inr (kid, nonce, ct)"
    and I: "content_rows.jobs_inv oid (new_job oid kid nonce ct t inp) (wdb w1)"
    by (rule QueueTx_row [OF assms(4,2)])
  have kid: "kid = activeID kr" using enc by (auto simp: Encrypt_def split: option.splits)
  have I2: "content_rows.jobs_inv oid (new_job oid kid nonce ct t inp) (wdb w2)"
    by (rule content_rows.run_inv [OF assms(5) I])
  then have uniq: "unique_on o_id (email_outbox (wdb w2))" by (simp add: content_rows.jobs_inv_def)
  obtain r body where r: "r \<in> set (email_outbox (wdb w2))" "claimable provider locked u r"
    and o: "open_claim opn kr' r j = Inr body"
    and j: "j = \<lparr>j_ID = o_id r, j_UserID = o_user_id r, j_Provider = o_provider r, j_Purpose = o_purpose r,
         j_Attempt = o_attempt_count r + 1, j_LeaseToken = lease (o_id r), j_LeaseUntil = u + LeaseDuration,
         j_SendBefore = o_send_before r,
         j_Message = \<lparr>m_To = o_recipient r, m_Subject = o_subject r, m_Body = string_of body\<rparr>\<rparr>"
    by (rule Claim_jobs [OF assms(6,7) uniq])
  have "o_id r = oid" using assms(8) j by simp
  then have c: "job_content r = job_content (new_job oid kid nonce ct t inp)"
    using I2 r by (auto simp: content_rows.jobs_inv_def still_queued_def dest: claimable_pending)
  have "aead seal opn" using aead by unfold_locales blast
  from aead.Decrypt_Encrypt [OF this enc assms(3), of kr'] assms(9) kid
  have "Decrypt opn kr' kid nonce ct (payloadAAD oid (q_Provider inp) (purpose_string (q_Purpose inp))) = Inr (bytes_of (q_Body inp))"
    by simp
  with o c j assms(8) have "body = bytes_of (q_Body inp)"
    by (simp add: open_claim_def job_content_def new_job_def)
  with c j show ?thesis by (simp add: job_content_def new_job_def)
qed

lemma delivered_mail_is_what_was_queued_sample:
  "\<exists>j. Claim toy_open sample_keyring ''log'' 4 (\<lambda>_. False) (\<lambda>_. ''L'') 7 7 7 sample_queue_world = (Inr [j], sample_claimed_world) \<and>
     j_Message j = \<lparr>m_To = ''a@b.c'', m_Subject = ''hi'', m_Body = ''link''\<rparr>"
proof -
  have h: "\<forall>key nonce p a. toy_open key nonce (toy_seal key nonce p a) a = Some p"
    "unique_on o_id (email_outbox (wdb sample_token_world))" "length (replicate 12 (0 :: byte)) = nonceSize"
    by (simp_all add: toy.open_seal sample_start nonceSize_def)
  have j: "sample_job \<in> set [sample_job]" "j_ID sample_job = ''o1''" by (simp_all add: sample_job_def)
  from delivered_mail_is_what_was_queued [OF h sample_queue rtranclp.rtrancl_refl sample_claim j refl] sample_claim
  show ?thesis by (auto simp: sample_mail_def)
qed

lemma reduceEvent_events:
  "keeps (\<lambda>d. S = e_svix_id ` set (email_events d)) (reduceEvent pmid ty occ t)"
  unfolding reduceEvent_def Let_def update_jobs_def
  by (intro keeps_if keeps_bind keeps_inc keeps_ret keeps_exec) auto

lemma RecordProviderEvent_stores:
  assumes "RecordProviderEvent svix pmid ty occ t w = (Inr b, w1)"
  shows "svix \<in> e_svix_id ` set (email_events (wdb w1))"
proof -
  obtain x w0 where i: "exec (insert_event svix pmid ty occ t) w = (Inr x, w0)"
    and k: "(if \<not> x then retM False
       else bindM (inc_counter MetricWebhookEvents) (\<lambda>_.
            bindM (inc_counter (MetricWebhookEvents @ ''_'' @ eventTypeLabel ty)) (\<lambda>_.
            bindM (reduceEvent pmid ty occ t) (\<lambda>_. retM True)))) w0 = (Inr b, w1)"
    using assms by (auto simp: RecordProviderEvent_def bindM_eq_Inr)
  let ?P = "\<lambda>d. e_svix_id ` set (email_events (wdb w0)) = e_svix_id ` set (email_events d)"
  have "keeps ?P (if \<not> x then retM False
       else bindM (inc_counter MetricWebhookEvents) (\<lambda>_.
            bindM (inc_counter (MetricWebhookEvents @ ''_'' @ eventTypeLabel ty)) (\<lambda>_.
            bindM (reduceEvent pmid ty occ t) (\<lambda>_. retM True))))"
    by (intro keeps_if keeps_bind keeps_inc keeps_ret reduceEvent_events)
  from keepsD [OF this k] have "e_svix_id ` set (email_events (wdb w1)) = e_svix_id ` set (email_events (wdb w0))" by simp
  moreover have "svix \<in> e_svix_id ` set (email_events (wdb w0))"
    using exec_InrD [OF i] by (auto simp: insert_event_def key_free_iff split: if_splits)
  ultimately show ?thesis by simp
qed

text \<open>
  C29. A redelivered event is recognised by its id and never applied again: once it is stored,
  delivering it again answers that nothing was applied and changes nothing. The guard looks only
  at what is stored, so it also holds when the first delivery stored the event and then failed
  before folding it into the job: that event is never applied by a redelivery.
\<close>

theorem redelivered_event_is_ignored:
  assumes "RecordProviderEvent svix pmid ty occ t w = (r, w1)" and "faults w1 = []"
    and "(\<exists>b. r = Inr b) \<or> svix \<in> e_svix_id ` set (email_events (wdb w1))"
  shows "RecordProviderEvent svix pmid' ty' occ' t' w1 = (Inr False, w1)"
proof -
  have "svix \<in> e_svix_id ` set (email_events (wdb w1))"
    using assms(3) RecordProviderEvent_stores [of svix pmid ty occ t w _ w1] assms(1) by auto
  then show ?thesis using assms(2)
    by (simp add: RecordProviderEvent_def exec_nofault insert_event_def key_free_iff retM_def bindM_def)
qed

text \<open>An accepted job whose bounce arrives while the database fails on the second statement.\<close>

definition sample_accepted_world :: world where
  "sample_accepted_world = sample_claimed_world\<lparr>wdb := (wdb sample_claimed_world)\<lparr>email_outbox :=
     [accept_job ''m'' 8 sample_claimed_row]\<rparr>, faults := [False, True]\<rparr>"

theorem redelivered_event_is_ignored_witness:
  "\<exists>e w1. RecordProviderEvent ''s1'' ''m'' EventBounced 9 9 sample_accepted_world = (Inl e, w1) \<and>
     map o_status (email_outbox (wdb w1)) = [Accepted] \<and>
     RecordProviderEvent ''s1'' ''m'' EventBounced 9 10 w1 = (Inr False, w1)"
proof -
  let ?run = "RecordProviderEvent ''s1'' ''m'' EventBounced 9 9 sample_accepted_world"
  have "fst ?run = Inl ErrBackend" "map o_status (email_outbox (wdb (snd ?run))) = [Accepted]"
    "faults (snd ?run) = []" "''s1'' \<in> e_svix_id ` set (email_events (wdb (snd ?run)))"
    by code_simp+
  then obtain w1 where run: "?run = (Inl ErrBackend, w1)" and s: "map o_status (email_outbox (wdb w1)) = [Accepted]"
    and f: "faults w1 = []" "''s1'' \<in> e_svix_id ` set (email_events (wdb w1))" by (metis prod.collapse)
  have "RecordProviderEvent ''s1'' ''m'' EventBounced 9 10 w1 = (Inr False, w1)"
    using f(2) by (intro redelivered_event_is_ignored [OF run f(1)] disjI2)
  with run s show ?thesis by (intro exI [of _ ErrBackend] exI [of _ w1] conjI)
qed

text \<open>
  A \<open>sent\<close> event never changes a job: in every reachable state, a row with a provider message
  id has left \<open>pending\<close>, since the id is only ever written by the accept update itself.
\<close>

lemma sent_event_never_changes_a_job:
  assumes "any_outbox_step\<^sup>*\<^sup>* w0 w" and "email_outbox (wdb w0) = []"
    and "reduceEvent pmid EventSent occ t w = (r, w')"
  shows "wdb w' = wdb w"
proof -
  let ?p = "\<lambda>r. o_provider_message_id r = Some pmid \<and> o_status r = Pending"
  have "\<not> ?p r" if "r \<in> set (email_outbox (wdb w))" for r
    using reachable_ok [OF assms(1,2)] that by (auto simp: ok_rows.jobs_inv_def job_ok_def)
  then have none: "sql_update ?p (mark_sent occ t) (email_outbox (wdb w)) = email_outbox (wdb w)" by (rule sql_update_none)
  have "reduceEvent pmid EventSent occ t = bindM (update_jobs ?p (mark_sent occ t)) (\<lambda>_. retM ())"
    by (simp add: reduceEvent_def Let_def event_names)
  with assms(3) none show ?thesis
    by (auto simp: update_jobs_def exec_def bindM_def retM_def split: prod.splits bool.splits)
qed

lemma sample_sent_event:
  "\<exists>r w'. reduceEvent ''m'' EventSent 8 8 sample_claimed_world = (r, w') \<and> wdb w' = wdb sample_claimed_world"
proof -
  obtain r w' where e: "reduceEvent ''m'' EventSent 8 8 sample_claimed_world = (r, w')" by fastforce
  from sent_event_never_changes_a_job [OF sample_claim_step sample_start e] e show ?thesis by blast
qed

end
