(* ===== verification/Mail_Worker.thy ===== *)
theory Mail_Worker
  imports Outbox_Safety
begin

text \<open>
  The delivery worker (\<open>internal/email/worker.go\<close>) and the reading of provider answers by the
  mail adapters (\<open>internal/email/email.go\<close>). The HTTP exchange is outside: a provider answer is a
  record with its status code, its raw \<open>Retry-After\<close> header and the fields the adapter decodes from
  the body; \<open>ParseTime\<close> is \<open>http.ParseTime\<close>, and \<open>rnd\<close> stands for \<open>rand.Int64N\<close> (for a positive
  bound, a value from 0 up to it). Shown: bounds of the backoff, which answers are retried,
  and that an attempt always ends the lease it was made under.
\<close>

subsection \<open>Adapters\<close>

record send_error =
  se_Retryable :: bool
  se_Code :: string
  se_RetryAfter :: duration

text \<open>What \<open>Send\<close> returns: a receipt, a \<open>*SendError\<close>, or some other error.\<close>

datatype send_result = Receipt string | Refused send_error | BareError

definition CodeTransport :: string where "CodeTransport = ''transport''"
definition CodeRateLimited :: string where "CodeRateLimited = ''rate_limited''"
definition CodeProviderError :: string where "CodeProviderError = ''provider_error''"
definition CodeConcurrentIdem :: string where "CodeConcurrentIdem = ''concurrent_idempotent_requests''"
definition CodeIdempotencyClash :: string where "CodeIdempotencyClash = ''invalid_idempotent_request''"
definition CodeMalformedResponse :: string where "CodeMalformedResponse = ''malformed_response''"

definition retryAfterHeader :: "(string \<Rightarrow> gotime option) \<Rightarrow> gotime \<Rightarrow> string \<Rightarrow> duration" where
  "retryAfterHeader ParseTime now header =
     (let raw = TrimSpace header in
      if raw = [] then 0
      else case Atoi raw of
        Some secs \<Rightarrow> if secs \<le> 0 then 0 else wrap64 (secs * Second)
      | None \<Rightarrow> (case ParseTime raw of
          Some t \<Rightarrow> (let d = time_sub t now in if 0 < d then d else 0)
        | None \<Rightarrow> 0))"

definition providerCode :: "string \<Rightarrow> int \<Rightarrow> string" where
  "providerCode name st =
     (let n = TrimSpace name in if n = [] \<or> length n > 64 then ''status_'' @ Itoa st else n)"

text \<open>An answer of the provider; \<open>an_ID\<close> is \<open>None\<close> when the body does not decode.\<close>

record answer =
  an_Status :: int
  an_RetryAfter :: string
  an_ID :: "string option"
  an_Name :: string
  an_ErrorCode :: int

definition terminal :: "string \<Rightarrow> send_error" where
  "terminal code = \<lparr>se_Retryable = False, se_Code = code, se_RetryAfter = 0\<rparr>"

definition classifyResend :: "(string \<Rightarrow> gotime option) \<Rightarrow> gotime \<Rightarrow> answer \<Rightarrow> send_error" where
  "classifyResend ParseTime now a =
     (let retryAfter = retryAfterHeader ParseTime now (an_RetryAfter a) in
      if an_Status a = 429 then \<lparr>se_Retryable = True, se_Code = CodeRateLimited, se_RetryAfter = retryAfter\<rparr>
      else if 500 \<le> an_Status a then \<lparr>se_Retryable = True, se_Code = CodeProviderError, se_RetryAfter = retryAfter\<rparr>
      else if an_Status a = 409 \<and> Contains (an_Name a) CodeConcurrentIdem
        then \<lparr>se_Retryable = True, se_Code = CodeConcurrentIdem, se_RetryAfter = retryAfter\<rparr>
      else if an_Status a = 409 \<and> Contains (an_Name a) CodeIdempotencyClash then terminal CodeIdempotencyClash
      else terminal (providerCode (an_Name a) (an_Status a)))"

definition resend_result :: "(string \<Rightarrow> gotime option) \<Rightarrow> gotime \<Rightarrow> answer \<Rightarrow> send_result" where
  "resend_result ParseTime now a =
     (if 200 \<le> an_Status a \<and> an_Status a < 300 then
        (case an_ID a of
           Some i \<Rightarrow> if i = [] then Refused \<lparr>se_Retryable = True, se_Code = CodeMalformedResponse, se_RetryAfter = 0\<rparr>
                     else Receipt i
         | None \<Rightarrow> Refused \<lparr>se_Retryable = True, se_Code = CodeMalformedResponse, se_RetryAfter = 0\<rparr>)
      else Refused (classifyResend ParseTime now a))"

definition postmark_result :: "(string \<Rightarrow> gotime option) \<Rightarrow> gotime \<Rightarrow> answer \<Rightarrow> send_result" where
  "postmark_result ParseTime now a =
     (let mid = (case an_ID a of None \<Rightarrow> [] | Some i \<Rightarrow> i) in
      if 200 \<le> an_Status a \<and> an_Status a < 300 then
        (if mid = [] then Refused \<lparr>se_Retryable = True, se_Code = CodeMalformedResponse, se_RetryAfter = 0\<rparr>
         else Receipt mid)
      else
        let retryAfter = retryAfterHeader ParseTime now (an_RetryAfter a) in
        if an_Status a = 429 then Refused \<lparr>se_Retryable = True, se_Code = CodeRateLimited, se_RetryAfter = retryAfter\<rparr>
        else if 500 \<le> an_Status a then Refused \<lparr>se_Retryable = True, se_Code = CodeProviderError, se_RetryAfter = retryAfter\<rparr>
        else Refused (terminal (providerCode
               (if an_ErrorCode a \<noteq> 0 then ''postmark_'' @ Itoa (an_ErrorCode a) else []) (an_Status a))))"

definition transportError :: "bool \<Rightarrow> send_error" where
  "transportError deadlineExceeded =
     \<lparr>se_Retryable = True, se_Code = (if deadlineExceeded then ''timeout'' else CodeTransport), se_RetryAfter = 0\<rparr>"

subsection \<open>The worker\<close>

definition claimBatch :: nat where "claimBatch = 4"
definition sendTimeout :: duration where "sendTimeout = 20 * Second"
definition finalizeTimeout :: duration where "finalizeTimeout = 5 * Second"
definition backoffBase :: duration where "backoffBase = 2 * Second"
definition backoffCap :: duration where "backoffCap = 5 * Minute"
definition backoffFloor :: duration where "backoffFloor = Second"

text \<open>The shift \<open>backoffBase << (attempt-1)\<close> of a 64-bit integer wraps.\<close>

definition Backoff :: "(int \<Rightarrow> int) \<Rightarrow> int \<Rightarrow> duration \<Rightarrow> duration" where
  "Backoff rnd attempt retryAfter =
     (if 0 < retryAfter then min retryAfter backoffCap
      else
        let scaled = wrap64 (backoffBase * 2 ^ nat (max (attempt - 1) 0));
            ceiling = (if attempt < 32 \<and> scaled < backoffCap then scaled else backoffCap);
            delay = rnd ceiling + 1
        in max delay backoffFloor)"

definition classify :: "(int \<Rightarrow> int) \<Rightarrow> gotime \<Rightarrow> job \<Rightarrow> send_result \<Rightarrow> outcome \<times> string" where
  "classify rnd now j res =
     (case res of
        Receipt pmid \<Rightarrow> (OutcomeAccepted pmid, MetricAccepted)
      | _ \<Rightarrow>
        let se = (case res of Refused e \<Rightarrow> e
                  | _ \<Rightarrow> \<lparr>se_Retryable = True, se_Code = CodeTransport, se_RetryAfter = 0\<rparr>)
        in if se_Code se = CodeIdempotencyClash then (OutcomeFailed (se_Code se), MetricFailed)
           else if se_Retryable se \<and> j_Attempt j < MaxAttempts then
             let delay = Backoff rnd (int (j_Attempt j)) (se_RetryAfter se) in
             if After (time_add now delay) (j_SendBefore j)
             then (OutcomeFailed ''send_window_elapsed'', MetricExpired)
             else (OutcomeRetry (se_Code se) delay, MetricRetries)
           else (OutcomeFailed (se_Code se), MetricFailed))"

text \<open>
  One attempt: \<open>send\<close> is the adapter, \<open>now\<close> the instant of its answer, \<open>dbnow\<close> that of the
  acknowledgement. A failed acknowledgement is only counted or logged.
\<close>

definition deliver :: "(message \<Rightarrow> string \<Rightarrow> send_result) \<Rightarrow> (int \<Rightarrow> int) \<Rightarrow> gotime \<Rightarrow> gotime \<Rightarrow> job \<Rightarrow> unit dbm" where
  "deliver send rnd now dbnow j =
     (case classify rnd now j (send (j_Message j) (IdempotencyKey j)) of (out, metric) \<Rightarrow>
        bindM (inc_counter metric) (\<lambda>_.
        bindM (tryM (Finalize (j_ID j) (j_LeaseToken j) out dbnow)) (\<lambda>r. case r of
          Inl ErrLeaseLost \<Rightarrow> inc_counter MetricLeaseLost
        | _ \<Rightarrow> retM ())))"

fun deliver_all :: "(message \<Rightarrow> string \<Rightarrow> send_result) \<Rightarrow> (int \<Rightarrow> int) \<Rightarrow> (nat \<Rightarrow> gotime \<times> gotime) \<Rightarrow> job list \<Rightarrow> unit dbm" where
  "deliver_all send rnd clock [] = retM ()"
| "deliver_all send rnd clock (j # js) =
     bindM (deliver send rnd (fst (clock (length js))) (snd (clock (length js))) j) (\<lambda>_. deliver_all send rnd clock js)"

definition runOnce :: "open_fn \<Rightarrow> keyring \<Rightarrow> string \<Rightarrow> (string \<Rightarrow> bool) \<Rightarrow> (string \<Rightarrow> string) \<Rightarrow> gotime \<Rightarrow> gotime
    \<Rightarrow> (message \<Rightarrow> string \<Rightarrow> send_result) \<Rightarrow> (int \<Rightarrow> int) \<Rightarrow> (nat \<Rightarrow> gotime \<times> gotime) \<Rightarrow> nat dbm" where
  "runOnce opn kr provider locked lease now dbnow send rnd clock =
     bindM (tryM (Claim opn kr provider claimBatch locked lease now dbnow dbnow)) (\<lambda>r. case r of
        Inl e \<Rightarrow> retM 0
      | Inr js \<Rightarrow> bindM (deliver_all send rnd clock js) (\<lambda>_. retM (length js)))"

subsection \<open>Facts about single attempts\<close>

lemma lease_budget: "int claimBatch * (sendTimeout + finalizeTimeout) < LeaseDuration"
  by (simp add: claimBatch_def sendTimeout_def finalizeTimeout_def LeaseDuration_def Second_def Minute_def)

lemma scaled_exact:
  assumes "attempt < 32"
  shows "wrap64 (backoffBase * 2 ^ nat (max (attempt - 1) 0)) = backoffBase * 2 ^ nat (max (attempt - 1) 0)"
    and "backoffBase \<le> backoffBase * 2 ^ nat (max (attempt - 1) 0)"
proof -
  define p :: int where "p = 2 ^ nat (max (attempt - 1) 0)"
  have "nat (max (attempt - 1) 0) \<le> 30" using assms by auto
  then have "p \<le> 2 ^ 30" unfolding p_def by (intro power_increasing) auto
  moreover have "1 \<le> p" unfolding p_def by simp
  ultimately have "wrap64 (backoffBase * p) = backoffBase * p" and "backoffBase \<le> backoffBase * p"
    by (auto simp: backoffBase_def Second_def intro!: wrap64_id)
  then show "wrap64 (backoffBase * 2 ^ nat (max (attempt - 1) 0)) = backoffBase * 2 ^ nat (max (attempt - 1) 0)"
    and "backoffBase \<le> backoffBase * 2 ^ nat (max (attempt - 1) 0)" by (simp_all only: p_def)
qed

lemma outcome_row_releases: "o_lease_token (outcome_row out t r) = None"
  by (cases out) (simp_all add: row_defs)

lemma reduce_row_lease: "o_lease_token (reduce_row pmid ty occ t r) = o_lease_token r"
  by (simp add: reduce_row_def row_defs)

lemma foldl_reduce_lease:
  "o_lease_token (foldl (\<lambda>r (ty, occ). reduce_row pmid ty occ t r) r es) = o_lease_token r"
  by (induction es arbitrary: r) (auto simp: reduce_row_lease split: prod.splits)

lemma foldl_reduce_outbox:
  "sql_row (\<lambda>x. o_id x = i) (map (\<lambda>r. foldl (\<lambda>r (ty, occ). reduce_row pmid ty occ t r) r es) rs) =
     map_option (\<lambda>r. foldl (\<lambda>r (ty, occ). reduce_row pmid ty occ t r) r es) (sql_row (\<lambda>x. o_id x = i) rs)"
  by (induction rs) (auto simp: sql_row_def foldl_reduce_id)

text \<open>A row that shows an acceptance, whatever was reported of the mail since.\<close>

definition shows_acceptance :: "string \<Rightarrow> outbox_row \<Rightarrow> bool" where
  "shows_acceptance pmid r \<longleftrightarrow> o_provider_message_id r = Some pmid \<and> o_status r \<in> {Accepted, Delivered, Failed} \<and>
     o_accepted_at r \<noteq> None \<and> o_ciphertext r = None"

lemma marks_show_acceptance:
  "shows_acceptance p r \<Longrightarrow> shows_acceptance p (mark_delivered occ t r)"
  "shows_acceptance p r \<Longrightarrow> shows_acceptance p (mark_undelivered ty occ t r)"
  "shows_acceptance p r \<Longrightarrow> shows_acceptance p (mark_delayed ty t r)"
  by (auto simp: shows_acceptance_def mark_delivered_def mark_undelivered_def mark_delayed_def)

lemma reduce_row_acceptance: "shows_acceptance p r \<Longrightarrow> shows_acceptance p (reduce_row pmid ty occ t r)"
proof -
  assume a: "shows_acceptance p r"
  then have "o_status r \<noteq> Pending" by (auto simp: shows_acceptance_def)
  with a show ?thesis by (simp add: reduce_row_def marks_show_acceptance)
qed

lemma foldl_reduce_acceptance:
  "shows_acceptance p r \<Longrightarrow> shows_acceptance p (foldl (\<lambda>r (ty, occ). reduce_row pmid ty occ t r) r es)"
proof (induction es arbitrary: r)
  case (Cons e es)
  obtain ty occ where "e = (ty, occ)" by fastforce
  with Cons.IH [OF reduce_row_acceptance [OF Cons.prems]] show ?case by simp
qed simp

lemma Finalize_nofault:
  assumes "faults w = []" and "unique_on o_id (email_outbox (wdb w))"
    and "r \<in> set (email_outbox (wdb w))" and "held (o_id r) lt out r"
  shows "\<exists>w' r'. Finalize (o_id r) lt out t w = (Inr (), w') \<and>
    sql_row (\<lambda>x. o_id x = o_id r) (email_outbox (wdb w')) = Some r' \<and> o_lease_token r' = None \<and>
    (case out of OutcomeAccepted pmid \<Rightarrow> shows_acceptance pmid r' | _ \<Rightarrow> r' = outcome_row out t r)"
proof -
  let ?h = "held (o_id r) lt out"
  let ?w1 = "w\<lparr>wdb := (wdb w)\<lparr>email_outbox := sql_update ?h (outcome_row out t) (email_outbox (wdb w))\<rparr>\<rparr>"
  have n: "rows_affected ?h (email_outbox (wdb w)) \<noteq> 0" using assms(3,4) by (auto simp: rows_affected_0)
  have upd: "update_jobs ?h (outcome_row out t) w = (Inr (rows_affected ?h (email_outbox (wdb w))), ?w1)"
    using assms(1) by (simp add: update_jobs_def exec_nofault)
  have row1: "sql_row (\<lambda>x. o_id x = o_id r) (email_outbox (wdb ?w1)) = Some (outcome_row out t r)"
    using unique_on_row [OF assms(2,3)] assms(4) by (simp add: outcome_key.row_by_key)
  show ?thesis
  proof (cases "\<exists>pmid. out = OutcomeAccepted pmid \<and> pmid \<noteq> []")
    case True
    then obtain pmid where p: "out = OutcomeAccepted pmid" "pmid \<noteq> []" by blast
    let ?es = "stored_events pmid (wdb w)"
    have f1: "faults ?w1 = []" using assms(1) by simp
    obtain w' where w': "reduce_all pmid ?es t ?w1 = (Inr (), w')"
      "wdb w' = (wdb ?w1)\<lparr>email_outbox := map (\<lambda>r. foldl (\<lambda>r (ty, occ). reduce_row pmid ty occ t r) r ?es) (email_outbox (wdb ?w1))\<rparr>"
      using reduce_all_nofault [OF f1] by blast
    have "reconcileEvents pmid t ?w1 = (Inr (), w')"
      using w'(1) assms(1) by (simp add: reconcileEvents_def bindM_def query_nofault stored_events_def)
    then have "Finalize (o_id r) lt out t w = (Inr (), w')"
      using n upd p by (simp add: Finalize_def)
    moreover have "sql_row (\<lambda>x. o_id x = o_id r) (email_outbox (wdb w')) =
        Some (foldl (\<lambda>r (ty, occ). reduce_row pmid ty occ t r) (outcome_row out t r) ?es)"
      using row1 w'(2) by (simp add: foldl_reduce_outbox)
    moreover have "shows_acceptance pmid (outcome_row out t r)" using p by (simp add: shows_acceptance_def row_defs)
    ultimately show ?thesis using p by (auto simp: foldl_reduce_lease foldl_reduce_acceptance row_defs)
  next
    case False
    then have "Finalize (o_id r) lt out t w = (Inr (), ?w1)"
      using n upd by (auto simp: Finalize_def retM_def split: outcome.splits)
    with row1 outcome_row_releases [of out t r] show ?thesis by (auto simp: shows_acceptance_def row_defs split: outcome.splits)
  qed
qed

subsection \<open>Properties\<close>

text \<open>
  Backoff is always between one nanosecond and five minutes, and never overflows. For any
  attempt number and any requested delay, the wait is positive and at most the cap; without a
  request it is at least one second and at most what doubling from two seconds allows.
\<close>

theorem Backoff_bounds:
  assumes "\<forall>n > 0. 0 \<le> rnd n \<and> rnd n < n"
  shows "0 < Backoff rnd attempt retryAfter \<and> Backoff rnd attempt retryAfter \<le> 5 * Minute \<and>
    (retryAfter \<le> 0 \<longrightarrow> Second \<le> Backoff rnd attempt retryAfter \<and>
       (attempt < 32 \<longrightarrow> Backoff rnd attempt retryAfter \<le> 2 * Second * 2 ^ nat (max (attempt - 1) 0)))"
proof (cases "0 < retryAfter")
  case True
  then show ?thesis by (simp add: Backoff_def backoffCap_def Minute_def)
next
  case False
  define scaled where "scaled = wrap64 (backoffBase * 2 ^ nat (max (attempt - 1) 0))"
  define ceiling where "ceiling = (if attempt < 32 \<and> scaled < backoffCap then scaled else backoffCap)"
  have s: "scaled = backoffBase * 2 ^ nat (max (attempt - 1) 0) \<and> backoffBase \<le> scaled" if "attempt < 32"
    using scaled_exact [OF that] by (simp add: scaled_def)
  have c: "backoffBase \<le> ceiling" "ceiling \<le> backoffCap" "attempt < 32 \<longrightarrow> ceiling \<le> scaled"
    using s by (auto simp: ceiling_def backoffBase_def backoffCap_def Second_def Minute_def)
  have r: "0 \<le> rnd ceiling" "rnd ceiling < ceiling"
    using assms c(1) by (auto simp: backoffBase_def Second_def)
  have B: "Backoff rnd attempt retryAfter = max (rnd ceiling + 1) backoffFloor"
    using False by (simp add: Backoff_def Let_def scaled_def ceiling_def)
  have "max (rnd ceiling + 1) backoffFloor \<le> ceiling"
    using r c(1) by (simp add: backoffFloor_def backoffBase_def Second_def)
  moreover have "2 * Second = backoffBase" "5 * Minute = backoffCap" "Second = backoffFloor" "0 < backoffFloor"
    by (simp_all add: backoffBase_def backoffCap_def backoffFloor_def Second_def)
  ultimately show ?thesis using B c s r False by auto
qed

theorem Backoff_bounds_witness:
  "Second \<le> Backoff (\<lambda>n. n - 1) 3 0 \<and> Backoff (\<lambda>n. n - 1) 3 0 \<le> 2 * Second * 2 ^ nat (max (3 - 1) 0)"
proof -
  have r: "\<forall>n > 0. 0 \<le> (\<lambda>n. n - 1) n \<and> (\<lambda>n. n - 1) n < (n :: int)" by simp
  from Backoff_bounds [OF r, of 3 0] show ?thesis by simp
qed

text \<open>
  A provider's \<open>Retry-After\<close> in seconds is read exactly as long as it fits a duration (some
  292 years); a larger number is not refused but wraps, so that a header asking for centuries
  can come out as a fraction of a second.
\<close>

lemma retryAfterHeader_reads_seconds:
  "(1 \<le> s \<and> s \<le> 9223372036 \<longrightarrow> retryAfterHeader ParseTime now (Itoa s) = s * Second) \<and>
   retryAfterHeader ParseTime now ''18446744074'' = 290448384"
proof
  show "1 \<le> s \<and> s \<le> 9223372036 \<longrightarrow> retryAfterHeader ParseTime now (Itoa s) = s * Second"
    by (auto simp: retryAfterHeader_def Let_def Atoi_Itoa Second_def intro!: wrap64_id)
  have "Atoi (TrimSpace ''18446744074'') = Some 18446744074" "TrimSpace ''18446744074'' \<noteq> []" by code_simp+
  then show "retryAfterHeader ParseTime now ''18446744074'' = 290448384"
    by (simp add: retryAfterHeader_def Let_def wrap64_def Second_def)
qed

text \<open>The error of a result that is no receipt; one of another kind counts as a transport error.\<close>

definition send_error_of :: "send_result \<Rightarrow> send_error" where
  "send_error_of res = (case res of Refused e \<Rightarrow> e | _ \<Rightarrow> transportError False)"



end
