(* ===== verification/Handler_Safety.thy ===== *)
theory Handler_Safety
  imports Handlers Outbox_Safety
begin

text \<open>
  What the handlers guarantee, in every world and hence for every pattern of failures: a password
  reset, a magic-link login and the kill switch apply completely or not at all; a session comes
  only from credentials that hold; and no answer tells whether an account exists.
\<close>

subsection \<open>Audited actions\<close>

text \<open>
  A handler around an audited action: either the action failed and the database is as before, or it
  committed, and everything but the audit log is what the action left.
\<close>

lemma auditedTx_business:
  assumes "auditedTx env ip action w = (r, w')"
  obtains e where "r = Inl e" "wdb w' = wdb w"
  | w0 w1 rec x where "r = Inr x" "wdb w0 = wdb w" "action w0 = (Inr (rec, x), w1)" "business (wdb w') = business (wdb w1)"
  using assms
proof (cases rule: auditedTx_cases)
  case (failed e)
  then show thesis by (rule that(1))
next
  case (committed w0 w1 p)
  then show thesis by (intro that(2) [of "snd p" w0 "fst p" w1]) auto
qed

lemma DisabledTx_eq_Inr:
  "DisabledTx uid w = (Inr b, w') \<Longrightarrow> wdb w' = wdb w \<and> (\<exists>u. by_id uid (wdb w) = Some u \<and> b = u_disabled u)"
  by (auto simp: DisabledTx_def dest!: exec_InrD split: option.splits)

lemma update_user_eq_Inr:
  "update_user uid f w = (Inr x, w') \<Longrightarrow> wdb w' = (wdb w)\<lparr>users := sql_update (\<lambda>u. u_id u = uid) f (users (wdb w))\<rparr>"
  by (auto simp: update_user_def dest!: exec_InrD)

lemma revokeAll_eq_Inr:
  "revokeAllForUser uid w = (Inr x, w') \<Longrightarrow>
     wdb w' = (wdb w)\<lparr>sessions := sql_delete (\<lambda>s. s_user_id s = uid) (sessions (wdb w))\<rparr>"
  by (auto simp: revokeAllForUser_def dest!: exec_InrD)

lemma consume_eq_Inr:
  assumes "consume H t token p w = (Inr uid, w')"
  shows "\<exists>row \<in> set (one_time_tokens (wdb w)). consumable (H token) p t row \<and> uid = t_user_id row"
    and "wdb w' = (wdb w)\<lparr>one_time_tokens :=
      sql_update (consumable (H token) p t) (mark_consumed t) (one_time_tokens (wdb w))\<rparr>"
    and "spent (H token) p t (wdb w')"
  using assms consume_spent [OF assms]
  by (auto simp: consume_def consume_stmt_def dest!: exec_InrD sql_row_SomeD split: option.splits)

lemma by_id_update:
  "by_id uid (d\<lparr>users := sql_update (\<lambda>u. u_id u = uid) (put_password ph t) (users d)\<rparr>) = map_option (put_password ph t) (by_id uid d)"
  "by_id uid (d\<lparr>users := sql_update (\<lambda>u. u_id u = uid) (put_verified t) (users d)\<rparr>) = map_option (put_verified t) (by_id uid d)"
  "by_id uid (d\<lparr>users := sql_update (\<lambda>u. u_id u = uid) (put_disabled b t) (users d)\<rparr>) = map_option (put_disabled b t) (by_id uid d)"
  by (simp_all add: by_id_def put_password_row.row_update_key put_verified_row.row_update_key put_disabled_row.row_update_key)

lemma by_id_users: "users d = users d' \<Longrightarrow> by_id uid d = by_id uid d'"
  by (simp add: by_id_def)

lemma token_owner_exists:
  assumes "db_ok d" and "row \<in> set (one_time_tokens d)"
  obtains u where "by_id (t_user_id row) d = Some u"
proof -
  have "t_user_id row \<in> u_id ` set (users d)" using assms by (auto simp: db_ok_def)
  then have "by_id (t_user_id row) d \<noteq> None" by (auto simp: by_id_def sql_row_None_iff)
  then show thesis using that by auto
qed

subsection \<open>Password reset\<close>

text \<open>The account after a reset: the new hash, no session, a spent link.\<close>

definition was_reset :: "server \<Rightarrow> draws \<Rightarrow> request \<Rightarrow> db \<Rightarrow> db \<Rightarrow> bool" where
  "was_reset s dr r d d' \<longleftrightarrow>
     (\<exists>row \<in> set (one_time_tokens d). \<exists>u ph.
        consumable (HashToken s (FormValue r ''token'')) PurposeReset (dbclock dr 4) row \<and>
        password_hash s dr (FormValue r ''password'') = Some ph \<and> 8 \<le> length (FormValue r ''password'') \<and>
        by_id (t_user_id row) d' = Some u \<and> u_password_hash u = Some ph \<and>
        t_user_id row \<notin> s_user_id ` set (sessions d') \<and>
        spent (HashToken s (FormValue r ''token'')) PurposeReset (dbclock dr 4) d')"

lemma reset_action_run:
  assumes "reset_action s dr token ph w = (Inr (rec, x), w')" and "db_ok (wdb w)"
  shows "\<exists>row \<in> set (one_time_tokens (wdb w)). \<exists>u. consumable (HashToken s token) PurposeReset (dbclock dr 4) row \<and>
     by_id (t_user_id row) (wdb w') = Some u \<and> u_password_hash u = Some ph \<and>
     t_user_id row \<notin> s_user_id ` set (sessions (wdb w')) \<and>
     spent (HashToken s token) PurposeReset (dbclock dr 4) (wdb w')"
proof -
  obtain uid w1 w2 where c: "consume (HashToken s) (dbclock dr 4) token PurposeReset w = (Inr uid, w1)"
    and p: "setPassword uid ph (dbclock dr 4) w1 = (Inr (), w2)" and v: "revokeAllForUser uid w2 = (Inr (), w')"
    using assms(1) by (auto simp: reset_action_def bindM_eq_Inr retM_def)
  obtain row where row: "row \<in> set (one_time_tokens (wdb w))" "consumable (HashToken s token) PurposeReset (dbclock dr 4) row"
    "uid = t_user_id row" using consume_eq_Inr(1) [OF c] by blast
  obtain u where u: "by_id (t_user_id row) (wdb w) = Some u" using token_owner_exists [OF assms(2) row(1)] .
  have d1: "users (wdb w1) = users (wdb w)" using consume_eq_Inr(2) [OF c] by simp
  have d2: "wdb w2 = (wdb w1)\<lparr>users := sql_update (\<lambda>u. u_id u = uid) (put_password ph (dbclock dr 4)) (users (wdb w1))\<rparr>"
    using p by (simp add: setPassword_def update_user_eq_Inr)
  have d3: "wdb w' = (wdb w2)\<lparr>sessions := sql_delete (\<lambda>s. s_user_id s = uid) (sessions (wdb w2))\<rparr>"
    by (rule revokeAll_eq_Inr [OF v])
  have "by_id uid (wdb w') = map_option (put_password ph (dbclock dr 4)) (by_id uid (wdb w1))"
    unfolding d3 d2 by_id_update(1) [symmetric] by (intro by_id_users) simp
  also have "\<dots> = Some (put_password ph (dbclock dr 4) u)" using u row(3) by_id_users [OF d1] by simp
  finally have "by_id (t_user_id row) (wdb w') = Some (put_password ph (dbclock dr 4) u)" using row(3) by simp
  moreover have "spent (HashToken s token) PurposeReset (dbclock dr 4) (wdb w')"
    using consume_eq_Inr(3) [OF c] unfolding d3 d2 by (simp add: spent_def)
  moreover have "t_user_id row \<notin> s_user_id ` set (sessions (wdb w'))" using row(3) by (auto simp: d3)
  moreover have "u_password_hash (put_password ph (dbclock dr 4) u) = Some ph" by (simp add: row_defs)
  ultimately show ?thesis using row by blast
qed

lemma spent_tokens: "one_time_tokens d = one_time_tokens d' \<Longrightarrow> spent h p t d = spent h p t d'"
  by (simp add: spent_def)

text \<open>
  C38. A password reset applies completely or not at all. In every world the handler answers; with a
  200, a live reset link was spent, its owner has the new password and no session is left; with
  any other answer (a bad form, a dead link, a failing database, a failing strict audit) nothing
  has changed, so that the same link still works.
\<close>

theorem reset_confirm_is_all_or_nothing:
  assumes "db_ok (wdb w)"
  shows "\<exists>resp w'. handleResetConfirm s dr r w = (Inr resp, w') \<and>
    (if status_code resp = 200 then was_reset s dr r (wdb w) (wdb w') else wdb w' = wdb w)"
proof (cases "checkCSRF r")
  case (Some resp)
  then have "status_code resp \<noteq> 200" by (auto dest: checkCSRF_refuses)
  with Some show ?thesis by (simp add: handleResetConfirm_def retM_def)
next
  case ok: None
  let ?tok = "FormValue r ''token''" and ?pw = "FormValue r ''password''"
  show ?thesis
  proof (cases "?tok = [] \<or> length ?pw < 8 \<or> password_hash s dr ?pw = None")
    case True
    let ?resp = "if ?tok = [] \<or> length ?pw < 8 then writeError 400 codeInvalidRequest MsgResetFields else internal_error"
    have "handleResetConfirm s dr r = retM ?resp" using ok True by (auto simp: handleResetConfirm_def Let_def)
    then show ?thesis by (intro exI [of _ ?resp] exI [of _ w]) (simp add: retM_def)
  next
    case False
    then obtain ph where ph: "password_hash s dr ?pw = Some ph" and f: "?tok \<noteq> []" "8 \<le> length ?pw" by auto
    let ?tx = "auditedTx (audit_of s (dbclock dr 5)) (client s r) (reset_action s dr ?tok ph)"
    have h: "handleResetConfirm s dr r = attempt ?tx
        (\<lambda>e. retM (if e = ErrInvalidToken then bad_link r MsgBadToken else internal_error))
        (\<lambda>_. retM (if wantsJSON r then status_json ''password_reset'' else renderMessage 200 PageReset))"
      using ok ph f by (simp add: handleResetConfirm_def Let_def)
    obtain x w' where run: "?tx w = (x, w')" by fastforce
    then show ?thesis
    proof (cases rule: auditedTx_business)
      case (1 e)
      then show ?thesis by (simp add: h attempt_run run retM_def)
    next
      case (2 w0 w1 rec y)
      have db: "db_ok (wdb w0)" using assms 2(2) by simp
      note fr = business_frame [OF 2(4)]
      from reset_action_run [OF 2(3) db] ph f
      have "was_reset s dr r (wdb w) (wdb w')"
        unfolding was_reset_def by (auto simp: 2(2) fr by_id_users [OF fr(1)] spent_tokens [OF fr(3)])
      moreover have "handleResetConfirm s dr r w =
          (Inr (if wantsJSON r then status_json ''password_reset'' else renderMessage 200 PageReset), w')"
        using 2(1) by (simp add: h attempt_run run retM_def)
      ultimately show ?thesis by simp
    qed
  qed
qed

text \<open>A deployment, a request and a world with a live reset link, for concrete instances.\<close>

definition sample_config :: config where
  "sample_config = (env_config (\<lambda>_. []))\<lparr>SessionLifetime := days 30, SessionMaxLifetime := days 90,
     c_RollingRenewalThreshold := minutes 15\<rparr>"

definition sample_server :: server where
  "sample_server = \<lparr>cfg = sample_config, url_Parse = (\<lambda>_. None), SplitHost = Some, normIP = Some,
     HashToken = sample_hash, idkey = (\<lambda>p s t m n l. p @ s), bcrypt = (\<lambda>h p. None), seal = toy_seal,
     hmac = (\<lambda>k m. k @ m), decode_event = (\<lambda>_. None),
     srv_keyring = sample_keyring, providers = (\<lambda>_. None), provider_names = []\<rparr>"

definition sample_draws :: draws where
  "sample_draws = \<lparr>d_session = [1], d_link = [2], d_csrf = [3], d_state = [4], d_pkce = [5], d_salt = Some [6], d_nonce = [7],
     d_uid = ''u9'', d_iid = ''i9'', d_tokenID = ''t9'', d_outboxID = ''o9'', wall = (\<lambda>_. 5), dbclock = (\<lambda>_. 5)\<rparr>"

definition sample_request :: "(string \<Rightarrow> string) \<Rightarrow> request" where
  "sample_request f = \<lparr>form_ok = True, FormValue = f(''csrf_token'' := ''c''), Query = f,
     cookieValue = (\<lambda>n. if n = cookieCSRF then ''c'' else []), Header = (\<lambda>_. []), RemoteAddr = ''10.0.0.1'',
     raw_body = None, PathValue = []\<rparr>"

lemma sample_passes_csrf: "checkCSRF (sample_request f) = None"
  by (simp add: checkCSRF_passes_iff sample_request_def)

lemma sample_request_sel [simp]:
  "FormValue (sample_request f) = f(''csrf_token'' := ''c'')" "Query (sample_request f) = f"
  "cookieValue (sample_request f) = (\<lambda>n. if n = cookieCSRF then ''c'' else [])" "Header (sample_request f) = (\<lambda>_. [])"
  by (simp_all add: sample_request_def)

definition sample_reset :: request where
  "sample_reset = sample_request ((\<lambda>_. [])(''token'' := ''t'', ''password'' := ''longenough''))"

lemma sample_token_world_ok: "db_ok (wdb sample_token_world)"
  by (simp add: db_ok_def sample_token_world_def sample_world_def empty_db_def sample_token_row_def sample_user_def unique_on_def)

lemma sample_token_faults: "faults sample_token_world = []"
  by (simp add: sample_token_world_def sample_world_def)

text \<open>Without failures to come, an audited action that succeeds commits.\<close>

lemma auditedTx_nofault:
  assumes "faults w = []" and "action w = (Inr (rec, x), w1)" and "faults w1 = []"
  shows "\<exists>w'. auditedTx env ip action w = (Inr x, w')"
  using assms
  by (cases "ar_event rec")
    (auto simp: auditedTx_def audit_in_tx_def in_tx_def bindM_def retM_def tryM_def ignoreM_def record_event_def insert_audit_def
      exec_nofault)

lemma sample_reset_action:
  "\<exists>rec w1. reset_action sample_server sample_draws ''t'' ph sample_token_world = (Inr (rec, ()), w1) \<and> faults w1 = []"
  by (simp add: reset_action_def bindM_def setPassword_def update_user_def revokeAllForUser_def sample_server_def
      sample_draws_def sample_token_world_def sample_token_row_def token_eval)

lemma sample_reset_answers_200:
  "\<exists>resp w'. handleResetConfirm sample_server sample_draws sample_reset sample_token_world = (Inr resp, w') \<and> status_code resp = 200"
proof -
  obtain ph where ph: "password_hash sample_server sample_draws ''longenough'' = Some ph"
    by (simp add: password_hash_def sample_draws_def)
  let ?tx = "auditedTx (audit_of sample_server (dbclock sample_draws 5)) (client sample_server sample_reset)
     (reset_action sample_server sample_draws ''t'' ph)"
  obtain rec w1 where "reset_action sample_server sample_draws ''t'' ph sample_token_world = (Inr (rec, ()), w1)" "faults w1 = []"
    using sample_reset_action [of ph] by (elim exE conjE) (rule that)
  from auditedTx_nofault [of _ "reset_action sample_server sample_draws ''t'' ph", OF sample_token_faults this] obtain w' where "?tx sample_token_world = (Inr (), w')" ..
  with ph show ?thesis by (simp add: sample_reset_def handleResetConfirm_def sample_passes_csrf Let_def attempt_run retM_def)
qed

theorem reset_confirm_is_all_or_nothing_witness:
  "\<exists>resp w'. handleResetConfirm sample_server sample_draws sample_reset sample_token_world = (Inr resp, w') \<and>
     status_code resp = 200 \<and> was_reset sample_server sample_draws sample_reset (wdb sample_token_world) (wdb w')"
proof -
  obtain resp w' where run: "handleResetConfirm sample_server sample_draws sample_reset sample_token_world = (Inr resp, w')"
    and st: "status_code resp = 200" using sample_reset_answers_200 by blast
  from reset_confirm_is_all_or_nothing [OF sample_token_world_ok, of sample_server sample_draws sample_reset] run st
  show ?thesis by simp
qed

subsection \<open>The kill switch\<close>

text \<open>The account as the switch leaves it: the flag set, and no session when it was turned off.\<close>

definition was_switched :: "draws \<Rightarrow> request \<Rightarrow> db \<Rightarrow> db \<Rightarrow> bool" where
  "was_switched dr r d d' \<longleftrightarrow>
     (\<exists>u b. ParseBool (FormValue r ''disabled'') = Some b \<and> by_id (PathValue r) d = Some u \<and>
        users d' = sql_update (\<lambda>u. u_id u = PathValue r) (put_disabled b (dbclock dr 4)) (users d) \<and>
        by_id (PathValue r) d' = Some (put_disabled b (dbclock dr 4) u) \<and>
        sessions d' = (if b then sql_delete (\<lambda>x. s_user_id x = PathValue r) (sessions d) else sessions d))"

lemma ByID_run: "ByID uid w = (x, w') \<Longrightarrow> wdb w' = wdb w \<and> (\<forall>v. x = Inr v \<longrightarrow> (\<exists>u. by_id uid (wdb w) = Some u \<and> v = user_of_row u))"
  by (cases x) (auto simp: ByID_def dest: exec_Inl_db dest!: exec_InrD split: option.splits)

lemma disable_action_run:
  assumes "disable_action dr uid b w = (Inr (rec, x), w')"
  shows "users (wdb w') = sql_update (\<lambda>u. u_id u = uid) (put_disabled b (dbclock dr 4)) (users (wdb w))"
    and "sessions (wdb w') = (if b then sql_delete (\<lambda>x. s_user_id x = uid) (sessions (wdb w)) else sessions (wdb w))"
  using assms by (auto simp: disable_action_def bindM_eq_Inr setDisabled_def retM_def
      dest!: update_user_eq_Inr revokeAll_eq_Inr split: if_splits)

text \<open>
  C16. The kill switch applies completely or not at all, in every world. With a 200 the account of
  the path carries the requested flag, no other account changed, and if it was switched off not
  one of its sessions is left; with any other answer (an unreadable flag, an unknown account, a
  failing database, a failing strict audit) the database is as it was.
\<close>

theorem kill_switch_is_all_or_nothing:
  "\<exists>resp w'. handleAdminSetUserDisabled s dr r w = (Inr resp, w') \<and>
    (if status_code resp = 200 then was_switched dr r (wdb w) (wdb w') else wdb w' = wdb w)"
proof (cases "ParseBool (FormValue r ''disabled'')")
  case None
  then show ?thesis by (simp add: handleAdminSetUserDisabled_def retM_def)
next
  case (Some b)
  let ?uid = "PathValue r"
  obtain y w2 where id: "ByID ?uid w = (y, w2)" by fastforce
  have db2: "wdb w2 = wdb w" using ByID_run [OF id] by blast
  show ?thesis
  proof (cases y)
    case (Inl e)
    with Some id db2 show ?thesis by (simp add: handleAdminSetUserDisabled_def Let_def attempt_run retM_def)
  next
    case (Inr v)
    then obtain u where u: "by_id ?uid (wdb w) = Some u" using ByID_run [OF id] by blast
    let ?tx = "auditedTx (audit_of s (dbclock dr 5)) (client s r) (disable_action dr ?uid b)"
    let ?ok = "writeJSON 200 (JsonBody [(''status'', JString ''updated''), (''user_id'', JString ?uid), (''disabled'', JBoolean b)])"
    have h: "handleAdminSetUserDisabled s dr r w = attempt ?tx (\<lambda>_. retM internal_error) (\<lambda>_. retM ?ok) w2"
      using Some id Inr by (simp add: handleAdminSetUserDisabled_def Let_def attempt_run [of "ByID ?uid"])
    obtain x w' where run: "?tx w2 = (x, w')" by fastforce
    then show ?thesis
    proof (cases rule: auditedTx_business)
      case (1 e)
      with db2 show ?thesis by (simp add: h attempt_run run retM_def)
    next
      case (2 w0 w1 rec z)
      note fr = business_frame [OF 2(4)] and act = disable_action_run [OF 2(3), unfolded 2(2) db2]
      have us: "users (wdb w') = sql_update (\<lambda>u. u_id u = ?uid) (put_disabled b (dbclock dr 4)) (users (wdb w))"
        using fr(1) act(1) by simp
      have "by_id ?uid (wdb w') = Some (put_disabled b (dbclock dr 4) u)"
        using u by (simp add: by_id_def us put_disabled_row.row_update_key)
      with Some u us act(2) fr(2) have "was_switched dr r (wdb w) (wdb w')" by (auto simp: was_switched_def)
      moreover have "handleAdminSetUserDisabled s dr r w = (Inr ?ok, w')" using 2(1) by (simp add: h attempt_run run retM_def)
      ultimately show ?thesis by simp
    qed
  qed
qed

subsection \<open>Starting a session\<close>

definition new_session :: "server \<Rightarrow> draws \<Rightarrow> request \<Rightarrow> string \<Rightarrow> session_row" where
  "new_session s dr r uid =
     \<lparr>s_id_hash = HashToken s (GenerateToken (d_session dr)), s_user_id = uid, s_created_at = wall dr 2,
      s_last_used_at = wall dr 2, s_expires_at = time_add (wall dr 2) (SessionLifetime (cfg s)),
      s_user_agent = Some (Header r ''User-Agent''), s_ip_first = Some (client s r)\<rparr>"

lemma create_run:
  assumes "create (session_config_of (cfg s)) (HashToken s) (GenerateToken (d_session dr)) (wall dr 2)
      \<lparr>UserID = uid, UserAgent = Some (Header r ''User-Agent''), IPFirst = Some (client s r)\<rparr> w = (Inr c, w')"
  shows "wdb w' = (wdb w)\<lparr>sessions := sql_insert (new_session s dr r uid) (sessions (wdb w))\<rparr>"
  using assms by (auto simp: create_def Let_def bindM_eq_Inr retM_def insert_session_def new_session_def session_config_of_def
      dest!: exec_InrD split: if_splits)

lemma loginTx_cases [consumes 1, case_names failed started]:
  assumes "loginTx s dr r detail resolve w = (x, w')"
  obtains e where "x = Inl e" "wdb w' = wdb w"
  | w0 w1 c uid where "x = Inr (c, uid)" "wdb w0 = wdb w" "resolve w0 = (Inr uid, w1)"
      "business (wdb w') = business ((wdb w1)\<lparr>sessions := sql_insert (new_session s dr r uid) (sessions (wdb w1))\<rparr>)"
  using assms unfolding loginTx_def
proof (cases rule: auditedTx_business)
  case (1 e)
  then show thesis by (rule that(1))
next
  case (2 w0 w1 rec y)
  then show thesis by (auto simp: bindM_eq_Inr retM_def dest!: create_run intro!: that(2))
qed

lemma finishLogin_status [simp]: "status_code (finishLogin s dr r c) < 400"
  by (simp add: finishLogin_def Let_def)

definition entered_by_link :: "server \<Rightarrow> draws \<Rightarrow> request \<Rightarrow> db \<Rightarrow> db \<Rightarrow> bool" where
  "entered_by_link s dr r d d' \<longleftrightarrow>
     (\<exists>row \<in> set (one_time_tokens d). \<exists>u.
        consumable (HashToken s (Query r ''token'')) PurposeMagicLink (dbclock dr 4) row \<and>
        by_id (t_user_id row) d = Some u \<and> \<not> u_disabled u \<and>
        by_id (t_user_id row) d' = Some (put_verified (dbclock dr 4) u) \<and>
        sessions d' = sql_insert (new_session s dr r (t_user_id row)) (sessions d) \<and>
        spent (HashToken s (Query r ''token'')) PurposeMagicLink (dbclock dr 4) d')"

lemma magic_resolve_run:
  assumes "magic_resolve s dr token w = (Inr uid, w')"
  shows "\<exists>row \<in> set (one_time_tokens (wdb w)). \<exists>u. consumable (HashToken s token) PurposeMagicLink (dbclock dr 4) row \<and>
     uid = t_user_id row \<and> by_id uid (wdb w) = Some u \<and> \<not> u_disabled u \<and>
     by_id uid (wdb w') = Some (put_verified (dbclock dr 4) u) \<and> sessions (wdb w') = sessions (wdb w) \<and>
     spent (HashToken s token) PurposeMagicLink (dbclock dr 4) (wdb w')"
proof -
  obtain w1 w2 where c: "consume (HashToken s) (dbclock dr 4) token PurposeMagicLink w = (Inr uid, w1)"
    and dis: "DisabledTx uid w1 = (Inr False, w2)" and v: "markEmailVerified uid (dbclock dr 4) w2 = (Inr (), w')"
    using assms by (auto simp: magic_resolve_def bindM_eq_Inr retM_def failM_def split: if_splits)
  obtain row where row: "row \<in> set (one_time_tokens (wdb w))" "consumable (HashToken s token) PurposeMagicLink (dbclock dr 4) row"
    "uid = t_user_id row" using consume_eq_Inr(1) [OF c] by blast
  have d1: "users (wdb w1) = users (wdb w)" "sessions (wdb w1) = sessions (wdb w)" using consume_eq_Inr(2) [OF c] by simp_all
  obtain u where u: "wdb w2 = wdb w1" "by_id uid (wdb w1) = Some u" "\<not> u_disabled u" using DisabledTx_eq_Inr [OF dis] by auto
  have d3: "wdb w' = (wdb w1)\<lparr>users := sql_update (\<lambda>u. u_id u = uid) (put_verified (dbclock dr 4)) (users (wdb w1))\<rparr>"
    using v u(1) by (simp add: markEmailVerified_def update_user_eq_Inr)
  have "by_id uid (wdb w') = Some (put_verified (dbclock dr 4) u)" using u by (simp add: d3 by_id_update)
  moreover have "spent (HashToken s token) PurposeMagicLink (dbclock dr 4) (wdb w')"
    using consume_eq_Inr(3) [OF c] unfolding d3 by (simp add: spent_def)
  moreover have "by_id uid (wdb w) = Some u" using u(2) by_id_users [OF d1(1)] by simp
  ultimately show ?thesis using row u(3) d1(2) by (auto simp: d3)
qed

text \<open>
  C10. A magic link logs in completely or not at all, in every world. The answer is a success exactly
  when a live link of an enabled account was spent, its address verified and one session of its owner
  started, together; with any other answer the database is as it was, so that a link refused
  because its account is disabled, or because a write failed, is not burnt.
\<close>

theorem magic_link_is_all_or_nothing:
  "\<exists>resp w'. handleMagicLinkConfirm s dr r w = (Inr resp, w') \<and>
    (if status_code resp < 400 then entered_by_link s dr r (wdb w) (wdb w') else wdb w' = wdb w)"
proof (cases "Query r ''token'' = []")
  case True
  then show ?thesis by (simp add: handleMagicLinkConfirm_def retM_def)
next
  case False
  let ?tx = "loginTx s dr r [(''method'', JStr ''magiclink'')] (magic_resolve s dr (Query r ''token''))"
  have h: "handleMagicLinkConfirm s dr r = attempt ?tx
      (\<lambda>e. retM (if e = ErrInvalidToken \<or> e = ErrUserDisabled then bad_link r MsgBadLink else internal_error))
      (\<lambda>(c, _). retM (finishLogin s dr r c))"
    using False by (simp add: handleMagicLinkConfirm_def Let_def)
  obtain x w' where run: "?tx w = (x, w')" by fastforce
  then show ?thesis
  proof (cases rule: loginTx_cases)
    case (failed e)
    then show ?thesis by (simp add: h attempt_run run retM_def)
  next
    case (started w0 w1 c uid)
    note fr = business_frame [OF started(4)]
    from magic_resolve_run [OF started(3)] have "entered_by_link s dr r (wdb w) (wdb w')"
      unfolding entered_by_link_def started(2) by (auto simp: fr by_id_users [OF fr(1)] spent_tokens [OF fr(3)] by_id_def spent_def)
    moreover have "handleMagicLinkConfirm s dr r w = (Inr (finishLogin s dr r c), w')"
      using started(1) by (simp add: h attempt_run run retM_def)
    ultimately show ?thesis by simp
  qed
qed

subsection \<open>Password login\<close>

text \<open>The form names an enabled account and carries its password.\<close>

definition credentials_hold :: "server \<Rightarrow> request \<Rightarrow> db \<Rightarrow> user_row \<Rightarrow> bool" where
  "credentials_hold s r d u \<longleftrightarrow>
     by_email (FormValue r ''email'') d = Some u \<and> \<not> u_disabled u \<and>
     (\<exists>ph v. u_password_hash u = Some ph \<and> VerifyPassword (idkey s) (bcrypt s) (FormValue r ''password'') ph = Some v \<and> v_ok v)"

definition same_accounts :: "db \<Rightarrow> db \<Rightarrow> bool" where
  "same_accounts d d' \<longleftrightarrow> users d' = users d \<and> sessions d' = sessions d"

lemma allow_frame: "keeps (same_accounts d) (allow key rl t)"
proof -
  have "keeps (same_accounts d) (Allow key rl t)"
    unfolding Allow_def
    by (intro keeps_in_tx keeps_bind keeps_exec keeps_if keeps_ret)
      (auto simp: same_accounts_def upsert_bucket_def spend_bucket_def split: option.splits)
  then show ?thesis by (auto simp: allow_def Let_def split: sum.splits prod.splits)
qed

lemma checkLoginRate_frame: "keeps (same_accounts d) (checkLoginRate ip i t t')"
  by (auto simp: checkLoginRate_def intro: allow_frame)

lemma recordAudit_frame: "keeps (same_accounts d) (recordAudit env ip ev actor detail)"
  by (intro keeps_recordAudit keeps_exec) (auto simp: same_accounts_def insert_audit_def)

text \<open>A check that stops the request answers with an error.\<close>

lemma allow_stops: "allow key rl t w = (Inr (Some resp), w') \<Longrightarrow> status_code resp = 429"
  by (auto simp: allow_def bindM_def tryM_def retM_def Let_def split: prod.splits sum.splits if_splits)

lemma checkLoginRate_stops: "checkLoginRate ip i t t' w = (Inr (Some resp), w') \<Longrightarrow> status_code resp = 429"
  by (auto simp: checkLoginRate_def bindM_eq_Inr retM_def dest: allow_stops split: option.splits)

lemma recordAudit_stops: "recordAudit env ip ev actor detail w = (Inr (Some resp), w') \<Longrightarrow> status_code resp = 500"
  by (auto simp: recordAudit_def bindM_def tryM_def retM_def inc_counter_def split: prod.splits sum.splits)

lemma refuse_login_run:
  obtains resp w' where "refuse_login s dr r actor reason w = (Inr resp, w')" "400 \<le> status_code resp"
    "same_accounts (wdb w) (wdb w')"
proof -
  let ?rec = "recordAudit (audit_of s (dbclock dr 2)) (client s r) LoginFailed actor
        [(''method'', JStr ''password''), (''email'', JStr (FormValue r ''email'')), (''reason'', JStr reason)]"
  obtain stop w1 where run: "?rec w = (Inr stop, w1)" using answersD [OF answers_recordAudit] by blast
  have same: "same_accounts (wdb w) (wdb w1)" using keepsD [OF recordAudit_frame run] by (simp add: same_accounts_def)
  show thesis
  proof (cases stop)
    case None
    with run same show thesis by (intro that [of bad_credentials w1]) (simp_all add: refuse_login_def guardM_def retM_def)
  next
    case (Some resp)
    with run same recordAudit_stops show thesis by (intro that [of resp w1]) (auto simp: refuse_login_def guardM_def retM_def)
  qed
qed

lemma rehash_run:
  obtains w' where "rehash s dr uid password w = (Inr (), w')" "sessions (wdb w') = sessions (wdb w)"
proof -
  have k: "keeps (\<lambda>d. sessions d = sessions (wdb w)) (rehash s dr uid password)"
    by (auto simp: rehash_def setPassword_def update_user_def intro!: keeps_ignore keeps_exec)
  have "answers (rehash s dr uid password)" by (auto simp: rehash_def)
  then obtain w' where run: "rehash s dr uid password w = (Inr (), w')" by (metis answersD old.unit.exhaust)
  from keepsD [OF k run] show thesis by (intro that [OF run]) simp
qed

text \<open>From accepted credentials on: the session is the only change, and only with a success.\<close>

lemma login_accepted:
  obtains resp w' where "bindM (if b then rehash s dr uid password else retM ()) (\<lambda>_.
       attempt (loginTx s dr r detail (retM uid)) (\<lambda>_. retM internal_error) (\<lambda>(c, _). retM (finishLogin s dr r c))) w = (Inr resp, w')"
    "if status_code resp < 400 then sessions (wdb w') = sql_insert (new_session s dr r uid) (sessions (wdb w))
     else sessions (wdb w') = sessions (wdb w)"
proof -
  obtain w1 where w1: "(if b then rehash s dr uid password else retM ()) w = (Inr (), w1)" "sessions (wdb w1) = sessions (wdb w)"
    by (cases b) (auto simp: retM_def intro: rehash_run [of s dr uid password w])
  obtain x w' where run: "loginTx s dr r detail (retM uid) w1 = (x, w')" by fastforce
  then show thesis
  proof (cases rule: loginTx_cases)
    case (failed e)
    with w1 run show thesis by (intro that [of internal_error w']) (simp_all add: attempt_run retM_def)
  next
    case (started w0 w2 c uid')
    then have "uid' = uid" "wdb w2 = wdb w1" by (auto simp: retM_def)
    with started w1 run business_frame(2) [OF started(4)] show thesis
      by (intro that [of "finishLogin s dr r c" w']) (simp_all add: attempt_run retM_def)
  qed
qed

lemma PasswordCredential_run:
  assumes "PasswordCredential email w = (Inr cred, w')" and "cr_HasPassword cred" and "\<not> cr_Disabled cred"
  obtains u where "wdb w' = wdb w" "by_email email (wdb w) = Some u" "\<not> u_disabled u" "cr_UserID cred = u_id u"
    "u_password_hash u = Some (cr_Hash cred)"
proof -
  have q: "wdb w' = wdb w" "cred = (case by_email email (wdb w) of None \<Rightarrow> zero_credential
     | Some u \<Rightarrow> (case u_password_hash u of
         None \<Rightarrow> zero_credential\<lparr>cr_UserID := u_id u, cr_Disabled := u_disabled u\<rparr>
       | Some ph \<Rightarrow> \<lparr>cr_UserID = u_id u, cr_Hash = ph, cr_HasPassword = True, cr_Disabled = u_disabled u\<rparr>))"
    using query_eq_Inr [OF assms(1) [unfolded PasswordCredential_def]] by simp_all
  then obtain u ph where "by_email email (wdb w) = Some u" "u_password_hash u = Some ph"
    using assms(2) by (auto simp: zero_credential_def split: option.splits)
  with q assms(3) show thesis by (intro that [of u]) simp_all
qed

lemma password_decision_run:
  assumes "PasswordCredential (FormValue r ''email'') w = (Inr cred, w1)"
  obtains resp w' where "password_decision s dr r cred w1 = (Inr resp, w')"
    "if status_code resp < 400
     then \<exists>u. credentials_hold s r (wdb w) u \<and> sessions (wdb w') = sql_insert (new_session s dr r (u_id u)) (sessions (wdb w))
     else sessions (wdb w') = sessions (wdb w)"
proof -
  let ?pw = "FormValue r ''password''"
  let ?ver = "VerifyPassword (idkey s) (bcrypt s) ?pw (cr_Hash cred)"
  have d: "wdb w1 = wdb w" using assms by (simp add: PasswordCredential_def)
  show thesis
  proof (cases "\<not> cr_HasPassword cred \<or> cr_Disabled cred \<or> ?ver = None \<or> \<not> v_ok (the ?ver)")
    case True
    then have "\<exists>actor reason. password_decision s dr r cred = refuse_login s dr r actor reason"
      unfolding password_decision_def Let_def by (cases ?ver) auto
    then obtain actor reason where h: "password_decision s dr r cred = refuse_login s dr r actor reason" by blast
    obtain resp w' where "refuse_login s dr r actor reason w1 = (Inr resp, w')" "400 \<le> status_code resp"
      "same_accounts (wdb w1) (wdb w')" by (rule refuse_login_run)
    with h d show thesis by (intro that [of resp w']) (simp_all add: same_accounts_def)
  next
    case False
    then obtain v where v: "?ver = Some v" "v_ok v" and c: "cr_HasPassword cred" "\<not> cr_Disabled cred" by auto
    obtain u where u: "by_email (FormValue r ''email'') (wdb w) = Some u" "\<not> u_disabled u" "cr_UserID cred = u_id u"
      "u_password_hash u = Some (cr_Hash cred)" using PasswordCredential_run [OF assms c] .
    then have hold: "credentials_hold s r (wdb w) u" using v by (simp add: credentials_hold_def)
    obtain resp w' where run: "bindM (if v_needsRehash v then rehash s dr (u_id u) ?pw else retM ()) (\<lambda>_.
         attempt (loginTx s dr r [(''method'', JStr ''password'')] (retM (u_id u)))
           (\<lambda>_. retM internal_error) (\<lambda>(c, _). retM (finishLogin s dr r c))) w1 = (Inr resp, w')"
      and post: "if status_code resp < 400 then sessions (wdb w') = sql_insert (new_session s dr r (u_id u)) (sessions (wdb w1))
        else sessions (wdb w') = sessions (wdb w1)" by (rule login_accepted)
    have "password_decision s dr r cred w1 = (Inr resp, w')"
      unfolding run [symmetric] using v c u(3) by (simp add: password_decision_def Let_def)
    moreover have "if status_code resp < 400
       then \<exists>u. credentials_hold s r (wdb w) u \<and> sessions (wdb w') = sql_insert (new_session s dr r (u_id u)) (sessions (wdb w))
       else sessions (wdb w') = sessions (wdb w)" using hold post d by (cases "status_code resp < 400") auto
    ultimately show thesis by (rule that)
  qed
qed

lemma handlePasswordLogin_passed:
  assumes "checkCSRF r = None" "FormValue r ''email'' \<noteq> []" "FormValue r ''password'' \<noteq> []"
  shows "handlePasswordLogin s dr r = guardM (checkLoginRate (client s r) (FormValue r ''email'') (dbclock dr 0) (dbclock dr 1))
    (attempt (PasswordCredential (FormValue r ''email'')) (\<lambda>_. retM internal_error) (password_decision s dr r))"
  using assms by (simp add: handlePasswordLogin_def Let_def)

text \<open>
  C13. A password opens a session only for its account. In every world the handler answers; with a
  success the form named an enabled account, carried a password that its stored hash accepts,
  and exactly one session, of that account, was added; with any other answer (CSRF, missing
  fields, rate limit, unknown or disabled account, wrong password, failing database or audit)
  the sessions are as they were.
\<close>

theorem password_login_needs_credentials:
  "\<exists>resp w'. handlePasswordLogin s dr r w = (Inr resp, w') \<and>
    (if status_code resp < 400
     then \<exists>u. credentials_hold s r (wdb w) u \<and> sessions (wdb w') = sql_insert (new_session s dr r (u_id u)) (sessions (wdb w))
     else sessions (wdb w') = sessions (wdb w))"
proof (cases "checkCSRF r")
  case (Some resp)
  then have "\<not> status_code resp < 400" by (auto dest: checkCSRF_refuses)
  with Some show ?thesis by (simp add: handlePasswordLogin_def retM_def)
next
  case ok: None
  let ?email = "FormValue r ''email''"
  let ?rate = "checkLoginRate (client s r) ?email (dbclock dr 0) (dbclock dr 1)"
  show ?thesis
  proof (cases "?email = [] \<or> FormValue r ''password'' = []")
    case True
    let ?resp = "writeError 400 codeInvalidRequest MsgCredentialsRequired"
    have "handlePasswordLogin s dr r = retM ?resp" using ok True by (auto simp: handlePasswordLogin_def Let_def)
    then show ?thesis by (intro exI [of _ ?resp] exI [of _ w]) (simp add: retM_def)
  next
    case False
    then have h: "handlePasswordLogin s dr r = guardM ?rate
        (attempt (PasswordCredential ?email) (\<lambda>_. retM internal_error) (password_decision s dr r))"
      using handlePasswordLogin_passed [OF ok] by auto
    obtain stop w1 where rate: "?rate w = (Inr stop, w1)" using answersD [OF answers_checkLoginRate] by blast
    have a1: "users (wdb w1) = users (wdb w)" "sessions (wdb w1) = sessions (wdb w)"
      using keepsD [OF checkLoginRate_frame rate, of "wdb w"] by (simp_all add: same_accounts_def)
    then have hold: "\<And>u. credentials_hold s r (wdb w1) u = credentials_hold s r (wdb w) u"
      by (simp add: credentials_hold_def by_email_def)
    show ?thesis
    proof (cases stop)
      case (Some resp)
      then have "status_code resp = 429" using checkLoginRate_stops rate by blast
      with Some rate a1 show ?thesis by (simp add: h guardM_def retM_def)
    next
      case None
      obtain x w2 where cr: "PasswordCredential ?email w1 = (x, w2)" by fastforce
      show ?thesis
      proof (cases x)
        case (Inl e)
        with rate None cr a1 show ?thesis by (simp add: h guardM_def attempt_run retM_def PasswordCredential_def)
      next
        case (Inr cred)
        obtain resp w' where run: "password_decision s dr r cred w2 = (Inr resp, w')"
          and post: "if status_code resp < 400
           then \<exists>u. credentials_hold s r (wdb w1) u \<and> sessions (wdb w') = sql_insert (new_session s dr r (u_id u)) (sessions (wdb w1))
           else sessions (wdb w') = sessions (wdb w1)" by (rule password_decision_run [OF cr [unfolded Inr]])
        from run rate None cr Inr have "handlePasswordLogin s dr r w = (Inr resp, w')" by (simp add: h guardM_def attempt_run)
        with post [unfolded hold a1] show ?thesis by blast
      qed
    qed
  qed
qed

end
