(* ===== verification/Server_Safety.thy ===== *)
theory Server_Safety
  imports Server Handler_Safety
begin

text \<open>
  Properties of the whole service: its routes, its guarded surfaces, the invariants every request,
  worker cycle and maintenance pass keeps, and that maintenance removes only what no longer
  matters.
\<close>

subsection \<open>Routes\<close>

lemmas register_defs = routes_def registerOps_def registerEndUser_def registerService_def registerAdmin_def
  registerWebhooks_def registerDescriptor_def

lemmas serve_defs = ServeHTTP_def with_headers_def withLogging_def

text \<open>No two patterns claim the same request: the order of registration is immaterial.\<close>

fun overlap :: "segment list \<Rightarrow> segment list \<Rightarrow> bool" where
  "overlap [] [] = True"
| "overlap (Lit a # ps) (Lit b # qs) = (a = b \<and> overlap ps qs)"
| "overlap (p # ps) (q # qs) = overlap ps qs"
| "overlap _ _ = False"

lemma match_overlap: "match_path ps xs \<noteq> None \<Longrightarrow> match_path qs xs \<noteq> None \<Longrightarrow> overlap ps qs"
proof (induction ps xs arbitrary: qs rule: match_path.induct)
  case 1
  then show ?case by (cases qs) auto
next
  case (2 a ps x xs)
  then show ?case by (cases qs; cases "hd qs") (auto split: if_splits)
next
  case (3 ps x xs)
  then show ?case by (cases qs; cases "hd qs") (auto split: if_splits)
qed auto

definition disjoint_patterns :: "pattern \<Rightarrow> pattern \<Rightarrow> bool" where
  "disjoint_patterns p q \<longleftrightarrow> fst p \<noteq> fst q \<or> \<not> overlap (fst (snd p)) (fst (snd q))"

fun pairwise_disjoint :: "pattern list \<Rightarrow> bool" where
  "pairwise_disjoint [] = True"
| "pairwise_disjoint (p # ps) = (list_all (disjoint_patterns p) ps \<and> pairwise_disjoint ps)"

lemma routes_disjoint: "pairwise_disjoint routes"
  by code_simp

lemma route_methods: "p \<in> set routes \<Longrightarrow> fst p = ''GET'' \<or> fst p = ''POST''"
  by (auto simp: register_defs)

lemma disjoint_patterns_sym: "disjoint_patterns p q \<longleftrightarrow> disjoint_patterns q p"
proof -
  have "overlap ps qs = overlap qs ps" for ps qs by (induction ps qs rule: overlap.induct) auto
  then show ?thesis by (auto simp: disjoint_patterns_def)
qed

lemma pairwise_disjointD:
  "pairwise_disjoint ps \<Longrightarrow> p \<in> set ps \<Longrightarrow> q \<in> set ps \<Longrightarrow> p = q \<or> disjoint_patterns p q"
  by (induction ps) (auto simp: list_all_iff disjoint_patterns_sym)

lemma one_route_per_request:
  assumes "p \<in> set routes" "q \<in> set routes" "matches meth path p" "matches meth path q"
  shows "p = q"
proof -
  have "fst p = fst q"
    using assms route_methods [OF assms(1)] route_methods [OF assms(2)] by (auto simp: matches_def method_matches_def)
  moreover have "overlap (fst (snd p)) (fst (snd q))" using assms(3,4) by (intro match_overlap) (auto simp: matches_def)
  ultimately show ?thesis using pairwise_disjointD [OF routes_disjoint assms(1,2)] by (auto simp: disjoint_patterns_def)
qed

subsection \<open>Guarded surfaces\<close>

definition guarded_by :: "server \<Rightarrow> string list \<Rightarrow> string option" where
  "guarded_by s path =
     (if take 2 path = [''v1'', ''admin''] then Some (AdminAPIKey (cfg s))
      else if path = [''v1'', ''introspect''] \<or> take 2 path = [''v1'', ''sessions''] then Some (ServiceToken (cfg s))
      else None)"

definition admin_routes :: "route set" where
  "admin_routes = {AdminGetUser, AdminRevokeSessions, AdminSetDisabled}"

text \<open>Read off the table: what the first two segments of a pattern say about its handler.\<close>

fun guard_consistent :: "pattern \<Rightarrow> bool" where
  "guard_consistent (_, Lit a # Lit b # _, rt) =
     (a = ''v1'' \<longrightarrow> (b = ''admin'' \<longrightarrow> rt \<in> admin_routes) \<and>
        (b = ''introspect'' \<or> b = ''sessions'' \<longrightarrow> rt \<in> {Introspect, SessionRevoke}))"
| "guard_consistent (_, Lit a # _, rt) = (a \<noteq> ''v1'')"
| "guard_consistent _ = False"

lemma routes_consistent: "list_all guard_consistent routes"
  by (simp add: register_defs admin_routes_def)

lemma guarded_route:
  assumes "(meth, segs, rt) \<in> set routes" and "match_path segs path \<noteq> None" and "guarded_by s path = Some key"
  shows "(rt \<in> admin_routes \<and> key = AdminAPIKey (cfg s)) \<or> (rt \<in> {Introspect, SessionRevoke} \<and> key = ServiceToken (cfg s))"
proof -
  have ok: "guard_consistent (meth, segs, rt)" using assms(1) routes_consistent by (auto simp: list_all_iff)
  obtain y ys where path: "path = ''v1'' # y # ys"
    using assms(3) by (cases path; cases "tl path") (auto simp: guarded_by_def split: if_splits)
  obtain a ps where a: "segs = Lit a # ps" using ok by (cases "(meth, segs, rt)" rule: guard_consistent.cases) auto
  with assms(2) path have "a = ''v1''" by (auto split: if_splits)
  with ok a obtain b qs where "segs = Lit ''v1'' # Lit b # qs" by (cases "(meth, segs, rt)" rule: guard_consistent.cases) auto
  with assms(2) path ok have "segs = Lit ''v1'' # Lit y # qs" by (auto split: if_splits)
  with ok assms(3) path show ?thesis by (auto simp: guarded_by_def split: if_splits)
qed

lemma guarded_handle:
  assumes "(rt \<in> admin_routes \<and> key = AdminAPIKey (cfg s)) \<or> (rt \<in> {Introspect, SessionRevoke} \<and> key = ServiceToken (cfg s))"
    and "key = [] \<or> bearerToken r \<noteq> key"
  shows "\<exists>resp. handle doc s dr rt r = retM resp \<and> (status_code resp = 401 \<or> status_code resp = 503)"
  using assms(1)
proof
  assume rt: "rt \<in> admin_routes \<and> key = AdminAPIKey (cfg s)"
  then have "\<exists>h. handle doc s dr rt r = requireAdminKey key r h" by (auto simp: handle_def Let_def admin_routes_def)
  with admin_gate.closed [OF assms(2)] show ?thesis by metis
next
  assume rt: "rt \<in> {Introspect, SessionRevoke} \<and> key = ServiceToken (cfg s)"
  then have "\<exists>h. handle doc s dr rt r = requireServiceToken key r h" by (auto simp: handle_def Let_def)
  with service_gate.closed [OF assms(2)] show ?thesis by metis
qed

lemma bearerToken_path [simp]: "bearerToken (r\<lparr>PathValue := v\<rparr>) = bearerToken r"
  by (simp add: bearerToken_def)

lemma ServeHTTP_of_mux:
  assumes "mux doc s dr meth path r w = (Inr resp, w')"
  shows "\<exists>resp' w''. ServeHTTP doc s dr reqid meth path r w = (Inr resp', w'') \<and> wdb w'' = wdb w' \<and>
    status_code resp' = status_code resp \<and> resp_body resp' = resp_body resp \<and> resp_cookies resp' = resp_cookies resp"
  using assms by (simp add: serve_defs inc_counter_def retM_def bindM_def)

text \<open>
  C5. Without its key a guarded surface does nothing. A request below \<open>/v1/admin/\<close>, or to the
  introspection and revocation endpoints, whose bearer token is not the configured key (or while
  none is configured) is refused with 401 or 503, or matches no route at all, and leaves the
  database as it was, in every world and whatever else it carries.
\<close>

theorem guarded_surface_needs_its_key:
  assumes "guarded_by s path = Some key" and "key = [] \<or> bearerToken r \<noteq> key"
  shows "\<exists>resp w'. ServeHTTP doc s dr reqid meth path r w = (Inr resp, w') \<and> wdb w' = wdb w \<and>
    status_code resp \<in> {401, 503, 404, 405}"
proof -
  have "\<exists>resp. mux doc s dr meth path r = retM resp \<and> status_code resp \<in> {401, 503, 404, 405}"
  proof (cases "find (matches meth path) routes")
    case None
    then show ?thesis by (auto simp: mux_def text_response_def)
  next
    case (Some p)
    obtain m segs rt where p: "p = (m, segs, rt)" by (cases p)
    have "(m, segs, rt) \<in> set routes" "match_path segs path \<noteq> None"
      using sql_row_SomeD [unfolded sql_row_def, OF Some] p by (auto simp: matches_def)
    from guarded_handle [OF guarded_route [OF this assms(1)], of "r\<lparr>PathValue := the (match_path segs path)\<rparr>" doc dr] assms(2)
    show ?thesis using Some p by (auto simp: mux_def)
  qed
  then obtain resp where "mux doc s dr meth path r w = (Inr resp, w)" "status_code resp \<in> {401, 503, 404, 405}"
    by (auto simp: retM_def)
  with ServeHTTP_of_mux [OF this(1), of reqid] show ?thesis by auto
qed

theorem guarded_surface_needs_its_key_witness:
  "\<exists>resp w'. ServeHTTP (\<lambda>_. []) (sample_server\<lparr>cfg := sample_config\<lparr>AdminAPIKey := ''k''\<rparr>\<rparr>) sample_draws None ''POST''
      [''v1'', ''admin'', ''users'', ''u1'', ''disable''] sample_reset sample_world = (Inr resp, w') \<and>
    wdb w' = wdb sample_world \<and> status_code resp \<in> {401, 503, 404, 405}"
  by (rule guarded_surface_needs_its_key [where key = "''k''"])
    (simp_all add: guarded_by_def bearerToken_def sample_reset_def sample_server_def)

lemma keeps_case_prod [intro!]: "(\<And>a b. keeps P (k a b)) \<Longrightarrow> keeps P (case v of (a, b) \<Rightarrow> k a b)"
  by (cases v) auto

subsection \<open>Every request is answered\<close>

lemma answers_gates: "answers h \<Longrightarrow> answers (requireServiceToken key r h)" "answers h \<Longrightarrow> answers (requireAdminKey key r h)"
  by (auto simp: requireServiceToken_def requireAdminKey_def Let_def)

lemma answers_webhook: "answers (handleResendWebhook mac decode secret now t r)"
  by (auto simp: handleResendWebhook_def Let_def split: option.splits sum.splits)

lemma answers_handle: "answers (handle doc s dr rt r)"
  unfolding handle_def Let_def by (cases rt) (auto intro!: answers_gates answers_webhook)

lemma answers_mux: "answers (mux doc s dr meth path r)"
  unfolding mux_def by (auto intro!: answers_handle)

text \<open>Identifiers safe to echo into a header and a log line.\<close>

definition printable :: "string \<Rightarrow> bool" where
  "printable v \<longleftrightarrow> v \<noteq> [] \<and> (\<forall>c \<in> set v. 0x21 \<le> (of_char c :: nat) \<and> (of_char c :: nat) \<le> 0x7e)"

lemma hex_digit_printable: "n < 16 \<Longrightarrow> 0x21 \<le> (of_char (hex_digit n) :: nat) \<and> (of_char (hex_digit n) :: nat) \<le> 0x7e"
  by (auto simp: hex_digit_def of_char_of)

lemma hex_printable: "bs \<noteq> [] \<Longrightarrow> printable (hex bs)"
proof -
  have "unat b < 256" for b :: byte using unsigned_less [where 'a = nat, of b] by simp
  then have "unat b div 16 < 16" "unat b mod 16 < 16" for b :: byte by (simp_all add: less_mult_imp_div_less)
  then show "bs \<noteq> [] \<Longrightarrow> printable (hex bs)"
    by (cases bs) (auto simp: printable_def hex_def hex_byte_def hex_digit_printable)
qed

lemma hex_int_printable: "c \<in> set (hex_int n) \<Longrightarrow> 0x21 \<le> (of_char c :: nat) \<and> (of_char c :: nat) \<le> 0x7e"
proof (induction n rule: hex_int.induct)
  case (1 n)
  show ?case
  proof (cases "n < 16")
    case True
    with 1(2) show ?thesis by (simp add: hex_int.simps [of n] hex_digit_printable)
  next
    case False
    with 1(2) have "c \<in> set (hex_int (n div 16)) \<or> c = hex_digit (n mod 16)" by (auto simp: hex_int.simps [of n])
    with 1(1) False show ?thesis by (auto simp: hex_digit_printable)
  qed
qed

lemma newRequestID_printable: "reqid \<noteq> Some [] \<Longrightarrow> printable (newRequestID reqid t)"
proof (cases reqid)
  case None
  then show ?thesis by (auto simp: newRequestID_def printable_def dest: hex_int_printable)
next
  case (Some bs)
  assume "reqid \<noteq> Some []"
  with Some show ?thesis by (auto simp: newRequestID_def intro: hex_printable)
qed

lemma validRequestID_printable: "validRequestID raw \<noteq> [] \<Longrightarrow> printable (validRequestID raw) \<and> validRequestID raw = TrimSpace raw"
  by (auto simp: validRequestID_def Let_def printable_def list_ex_iff not_less split: if_splits)

text \<open>
  C9. Every request is answered. Whatever is asked of the server and whatever fails underneath
  (in every world), a response comes back that carries all the security headers and a request
  identifier: the caller's own, trimmed, when it was acceptable, a generated one otherwise, and in
  either case not empty and made of visible ASCII characters only.
\<close>

theorem every_request_is_answered:
  assumes "reqid \<noteq> Some []"
  shows "\<exists>resp w' i. ServeHTTP doc s dr reqid meth path r w = (Inr resp, w') \<and>
    set (securityHeaders (buildCSP (url_Parse s) (cfg s)) (CookieSecure (cfg s))) \<subseteq> set (resp_headers resp) \<and>
    (''X-Request-Id'', i) \<in> set (resp_headers resp) \<and> printable i \<and>
    (i = TrimSpace (Header r ''X-Request-Id'') \<or> validRequestID (Header r ''X-Request-Id'') = [])"
proof -
  let ?i = "withRequestID (newRequestID reqid (wall dr 9)) r"
  obtain resp w' where m: "mux doc s dr meth path r w = (Inr resp, w')" using answersD [OF answers_mux] by blast
  let ?resp = "resp\<lparr>resp_headers := securityHeaders (buildCSP (url_Parse s) (cfg s)) (CookieSecure (cfg s)) @ [(''X-Request-Id'', ?i)] @ resp_headers resp\<rparr>"
  have "\<exists>w''. ServeHTTP doc s dr reqid meth path r w = (Inr ?resp, w'')"
    using m by (simp add: serve_defs inc_counter_def retM_def bindM_def)
  then obtain w'' where "ServeHTTP doc s dr reqid meth path r w = (Inr ?resp, w'')" ..
  moreover have "printable ?i \<and> (?i = TrimSpace (Header r ''X-Request-Id'') \<or> validRequestID (Header r ''X-Request-Id'') = [])"
    using newRequestID_printable [OF assms] validRequestID_printable by (auto simp: withRequestID_def Let_def)
  ultimately show ?thesis by (intro exI [of _ ?resp] exI [of _ w''] exI [of _ ?i]) auto
qed

theorem every_request_is_answered_witness:
  "\<exists>resp w' i. ServeHTTP (\<lambda>_. []) sample_server sample_draws None ''GET'' [''readyz''] sample_reset (sample_world\<lparr>faults := [True]\<rparr>)
      = (Inr resp, w') \<and> (''X-Frame-Options'', ''DENY'') \<in> set (resp_headers resp) \<and>
    (''X-Request-Id'', i) \<in> set (resp_headers resp) \<and> printable i"
proof -
  have "(None :: bytes option) \<noteq> Some []" by simp
  from every_request_is_answered [OF this, of "\<lambda>_. []" sample_server sample_draws "''GET''" "[''readyz'']" sample_reset
      "sample_world\<lparr>faults := [True]\<rparr>"]
  show ?thesis by (auto simp: securityHeaders_def)
qed

subsection \<open>Interface: a property of the database that the stores keep\<close>

text \<open>
  What the handlers, the worker and the maintenance loop rely on: each operation of a store keeps
  \<open>P\<close>, in every world. The clients only compose operations, so they keep \<open>P\<close> too. \<open>sc\<close> is the
  configuration of the session store.
\<close>

locale store_invariant =
  fixes P :: "db \<Rightarrow> bool" and sc :: session_config
  assumes k_create: "keeps P (create sc H token now inp)"
    and k_validate: "keeps P (Validate sc H now token)"
    and k_revoke: "keeps P (revoke H token)"
    and k_revoke_all: "keeps P (revokeAllForUser uid)"
    and k_signup: "keeps P (createWithPassword uid email ph t)"
    and k_password: "keeps P (setPassword uid ph t)"
    and k_verified: "keeps P (markEmailVerified uid t)"
    and k_disabled: "keeps P (setDisabled uid b t)"
    and k_oauth: "keeps P (UpsertByOAuth uid iid t p b)"
    and k_issue: "keeps P (IssueTx H tok tid now t uid pu ttl)"
    and k_consume: "keeps P (consume H t tok pu)"
    and k_queue: "keeps P (QueueTx sl kr oid nonce t inp')"
    and k_event: "keeps P (RecordProviderEvent svix pmid ty occ t)"
    and k_allow: "keeps P (Allow key rl t)"
    and k_audit: "keeps P (exec (insert_audit env ev actor ip detail))"
    and k_claim: "keeps P (Claim opn kr provider limit locked lease now t t')"
    and k_finalize: "keeps P (Finalize jid lt out t)"
    and k_purge_sessions: "keeps P (PurgeExpired_sessions t)"
    and k_purge_tokens: "keeps P (PurgeExpired_tokens t)"
    and k_purge_buckets: "keeps P (PurgeStale age t)"
    and k_purge_audit: "keeps P (PurgeOlderThan age t)"
    and k_purge_jobs: "keeps P (PurgeFinished age t t')"
begin

lemmas store_ops = k_create k_validate k_revoke k_revoke_all k_signup k_password k_verified k_disabled k_oauth k_issue
  k_consume k_queue k_event k_allow k_audit k_claim k_finalize k_purge_sessions k_purge_tokens k_purge_buckets
  k_purge_audit k_purge_jobs

lemma k_recordAudit: "keeps P (recordAudit env ip ev actor detail)"
  by (rule keeps_recordAudit) (rule k_audit)

lemma k_auditedTx: "keeps P action \<Longrightarrow> keeps P (auditedTx env ip action)"
  by (rule keeps_auditedTx) (auto intro: k_audit)

lemma k_rate: "keeps P (checkLoginRate ip i t t')"
  by (rule checkLoginRate_keeps) (rule k_allow)

lemma k_ByID: "keeps P (ByID uid)" and k_ByEmail: "keeps P (ByEmail email)" and k_cred: "keeps P (PasswordCredential email)"
  and k_DisabledTx: "keeps P (DisabledTx uid)"
  by (auto simp: ByID_def ByEmail_def PasswordCredential_def DisabledTx_def intro!: keeps_exec split: option.splits)

lemma k_link: "keeps P (queueOneTimeLinkTx s dr uid dest pu path subject ttl)"
  by (auto simp: queueOneTimeLinkTx_def Let_def intro!: k_issue k_queue)

lemma k_loginTx: "session_config_of (cfg s) = sc \<Longrightarrow> keeps P resolve \<Longrightarrow> keeps P (loginTx s dr r detail resolve)"
  unfolding loginTx_def by (intro k_auditedTx keeps_bind keeps_ret) (simp_all add: k_create)

lemmas steps = k_recordAudit k_auditedTx k_rate k_ByID k_ByEmail k_cred k_DisabledTx k_link k_loginTx store_ops

lemma k_refuse: "keeps P (refuse_login s dr r actor reason)" and k_rehash: "keeps P (rehash s dr uid password)"
  by (auto simp: refuse_login_def rehash_def intro!: steps)

lemma k_queue_masked: "keeps P queue \<Longrightarrow> keeps P (queue_masked s dr r ev uid queue)"
  by (auto simp: queue_masked_def intro!: steps)

lemma k_actions:
  "keeps P (signup_action s dr email ph)" "keeps P (logout_action s token)" "keeps P (reset_action s dr token ph)"
  "keeps P (disable_action dr uid b)" "keeps P (magic_resolve s dr token)"
  by (auto simp: signup_action_def logout_action_def reset_action_def disable_action_def magic_resolve_def intro!: steps)

lemma k_decision: "session_config_of (cfg s) = sc \<Longrightarrow> keeps P (password_decision s dr r cred)"
  unfolding password_decision_def Let_def
  by (intro keeps_if keeps_case_option keeps_bind keeps_attempt keeps_ret k_refuse k_rehash k_loginTx keeps_case_prod) simp_all

lemma k_oauth_login: "session_config_of (cfg s) = sc \<Longrightarrow> keeps P (oauth_login s dr r profile)"
  unfolding oauth_login_def Let_def
  by (intro keeps_if keeps_bind keeps_attempt keeps_ret keeps_guard k_recordAudit k_oauth k_loginTx keeps_case_prod) simp_all

lemma keeps_case_exchange:
  "(\<And>x. keeps P (k x)) \<Longrightarrow> keeps P m \<Longrightarrow> keeps P n \<Longrightarrow>
   keeps P (case e of Exchanged x \<Rightarrow> k x | ExchangeFailed \<Rightarrow> m | ExchangePanics \<Rightarrow> n)"
  by (cases e) simp_all

lemmas handler_steps = steps k_refuse k_rehash k_queue_masked k_actions k_decision k_oauth_login

lemma k_handlers:
  assumes "session_config_of (cfg s) = sc"
  shows "keeps P (handleOAuthCallback s dr r)" "keeps P (handlePasswordLogin s dr r)" "keeps P (handleSignup s dr r)"
    "keeps P (handleLogout s dr r)" "keeps P (handleResetRequest s dr r)" "keeps P (handleMagicLinkRequest s dr r)"
    "keeps P (handleResetConfirm s dr r)" "keeps P (handleVerify s dr r)" "keeps P (handleMagicLinkConfirm s dr r)"
    "keeps P (handleIntrospect s dr r)" "keeps P (handleSessionRevoke s dr r)" "keeps P (handleAdminGetUser s dr r)"
    "keeps P (handleAdminRevokeUserSessions s dr r)" "keeps P (handleAdminSetUserDisabled s dr r)"
    "keeps P (handleResendWebhook mac decode secret now t r)"
  unfolding handleOAuthCallback_def handlePasswordLogin_def handleSignup_def handleLogout_def handleResetRequest_def
    handleMagicLinkRequest_def handleResetConfirm_def handleVerify_def handleMagicLinkConfirm_def handleIntrospect_def
    handleSessionRevoke_def handleAdminGetUser_def handleAdminRevokeUserSessions_def handleAdminSetUserDisabled_def
    handleResendWebhook_def Let_def assms
  by (intro keeps_if keeps_case_option keeps_case_sum keeps_case_exchange keeps_bind keeps_attempt keeps_ret keeps_inc keeps_try keeps_guard
      keeps_case_prod handler_steps assms)+

lemma k_handle: "session_config_of (cfg s) = sc \<Longrightarrow> keeps P (handle doc s dr rt r)"
  unfolding handle_def Let_def
  by (cases rt) (simp_all add: k_handlers service_gate.gate_keeps admin_gate.gate_keeps keeps_attempt)

lemma k_serve: "session_config_of (cfg s) = sc \<Longrightarrow> keeps P (ServeHTTP doc s dr reqid meth path r)"
proof -
  assume "session_config_of (cfg s) = sc"
  then have "keeps P (mux doc s dr meth path r)"
    unfolding mux_def by (intro keeps_case_option keeps_ret keeps_case_prod k_handle)
  then show ?thesis unfolding serve_defs by (intro keeps_bind keeps_inc keeps_ret)
qed

lemma k_deliver_all: "keeps P (deliver_all send rnd clock js)"
proof (induction js)
  case (Cons j js)
  have "keeps P (deliver send rnd now t j)" for now t
    unfolding deliver_def by (auto intro!: k_finalize split: prod.splits sum.splits err.splits)
  with Cons show ?case by auto
qed simp

lemma k_worker: "keeps P (runOnce opn kr provider locked lease now t send rnd clock)"
  unfolding runOnce_def by (auto intro!: k_claim k_deliver_all split: sum.splits)

lemma k_maintenance: "keeps P (maintenance_pass c clk)"
  unfolding maintenance_pass_def
  by (intro keeps_bind keeps_ignore keeps_if keeps_ret k_purge_sessions k_purge_tokens k_purge_buckets k_purge_audit k_purge_jobs)

end

subsection \<open>Service histories\<close>

text \<open>Everything the process does to the database, one request, worker cycle or maintenance pass at a time.\<close>

inductive service_step :: "session_config \<Rightarrow> world \<Rightarrow> world \<Rightarrow> bool" for sc where
  sv_request: "session_config_of (cfg s) = sc \<Longrightarrow> ServeHTTP doc s dr reqid meth path r w = (resp, w') \<Longrightarrow> service_step sc w w'"
| sv_worker: "runOnce opn kr provider locked lease now t send rnd clock w = (n, w') \<Longrightarrow> service_step sc w w'"
| sv_maintenance: "maintenance_pass c clk w = (u, w') \<Longrightarrow> service_step sc w w'"

sublocale store_invariant \<subseteq> preserved "service_step sc" "\<lambda>w. P (wdb w)"
proof
  fix w w' assume "service_step sc w w'" and P: "P (wdb w)"
  then show "P (wdb w')"
  proof cases
    case (sv_request s doc dr reqid meth path r resp)
    then show ?thesis using keepsD [OF k_serve] P by blast
  next
    case (sv_worker opn kr provider locked lease now t send rnd clock n)
    from keepsD [OF k_worker this P] show ?thesis .
  next
    case (sv_maintenance c clk u)
    from keepsD [OF k_maintenance this P] show ?thesis .
  qed
qed

end
