(* ===== verification/Service_Invariants.thy ===== *)
theory Service_Invariants
  imports Server_Safety
begin

text \<open>
  The invariants of the running service, as interpretations of \<open>store_invariant\<close>: the constraints of
  the schema, the absolute cap on sessions, one live link per user and purpose, well-formed mail
  jobs. Most operations touch tables an invariant does not mention; the frame lemmas deal
  with those once.
\<close>

subsection \<open>Frames\<close>

lemma frame_sessions:
  assumes "\<And>d ss. P d \<Longrightarrow> P (d\<lparr>sessions := ss\<rparr>)"
  shows "keeps P (create sc H token now inp)" "keeps P (Validate sc H now token)" "keeps P (revoke H token)"
    "keeps P (revokeAllForUser uid)" "keeps P (PurgeExpired_sessions t)"
  unfolding create_def Validate_def validate_row_def revoke_def revokeAllForUser_def PurgeExpired_sessions_def Let_def
  by (auto simp: insert_session_def update_session_def delete_session_def revoke_stmt_def assms
      intro!: keeps_exec split: if_splits option.splits)

lemma frame_users:
  assumes "\<And>d us. P d \<Longrightarrow> P (d\<lparr>users := us\<rparr>)" and "\<And>d is. P d \<Longrightarrow> P (d\<lparr>identities := is\<rparr>)"
  shows "keeps P (createWithPassword uid email ph t)" "keeps P (setPassword uid ph t)" "keeps P (markEmailVerified uid t)"
    "keeps P (setDisabled uid b t)" "keeps P (UpsertByOAuth uid iid t p b)"
  unfolding createWithPassword_def setPassword_def markEmailVerified_def setDisabled_def UpsertByOAuth_def update_user_def
    link_identity_def
  by (auto simp: insert_user_def insert_identity_def assms intro!: keeps_exec split: if_splits option.splits)

lemma frame_tokens:
  assumes "\<And>d ts. P d \<Longrightarrow> P (d\<lparr>one_time_tokens := ts\<rparr>)"
  shows "keeps P (IssueTx H tok tid now t uid pu ttl)" "keeps P (consume H t tok pu)"
  unfolding IssueTx_def consume_def
  by (auto simp: supersede_stmt_def insert_token_def consume_stmt_def assms intro!: keeps_exec split: if_splits option.splits)

lemma frame_token_purge:
  assumes "\<And>d ts. P d \<Longrightarrow> P (d\<lparr>one_time_tokens := ts\<rparr>)" and "\<And>d rs. P d \<Longrightarrow> P (d\<lparr>email_outbox := rs\<rparr>)"
  shows "keeps P (PurgeExpired_tokens t)"
  unfolding PurgeExpired_tokens_def by (auto simp: assms intro!: keeps_exec)

text \<open>Every \<open>UPDATE\<close> of jobs in the code leaves identifier, owner and link alone.\<close>

definition identity_kept :: "(outbox_row \<Rightarrow> outbox_row) \<Rightarrow> bool" where
  "identity_kept f \<longleftrightarrow> (\<forall>r. o_id (f r) = o_id r \<and> o_user_id (f r) = o_user_id r \<and> o_token_id (f r) = o_token_id r)"

lemma updates_keep_identity [simp]:
  "identity_kept (cancel_job t)" "identity_kept (mark_delivered occ t)" "identity_kept (mark_undelivered ty occ t)"
  "identity_kept (mark_sent occ t)" "identity_kept (mark_delayed ty t)" "identity_kept (retire_job st reason t)"
  "identity_kept (lease_job lease t)" "identity_kept (accept_job pmid t)" "identity_kept (retry_job code ri t)"
  "identity_kept (fail_job code t)"
  by (simp_all add: identity_kept_def row_defs)

lemma outcome_keeps_identity [simp]: "identity_kept (outcome_row out t)"
  by (cases out) simp_all

lemma frame_reduce:
  assumes "\<And>p f. identity_kept f \<Longrightarrow> keeps P (update_jobs p f)"
  shows "keeps P (reduceEvent pmid ty occ t)"
  unfolding reduceEvent_def Let_def by (intro keeps_if keeps_bind keeps_inc keeps_ret assms updates_keep_identity outcome_keeps_identity)

lemma frame_finalize:
  assumes "\<And>p f. identity_kept f \<Longrightarrow> keeps P (update_jobs p f)"
  shows "keeps P (Finalize jid lt out t)"
proof -
  have "keeps P (reduce_all pmid es t)" for pmid es by (induction es) (auto intro!: frame_reduce assms)
  then show ?thesis unfolding Finalize_def reconcileEvents_def by (auto intro!: assms split: outcome.splits)
qed

lemma frame_claim:
  assumes up: "\<And>p f. identity_kept f \<Longrightarrow> keeps P (update_jobs p f)" and lease: "\<And>ids lease t. keeps P (exec (lease_stmt ids lease t))"
  shows "keeps P (Claim opn kr provider limit locked lease now t t')"
proof -
  have "keeps P (retire ids st reason t)" for ids st reason unfolding retire_def by (auto intro!: up)
  then have tx: "keeps P (claim_tx provider limit locked lease now t)"
    unfolding claim_tx_def Let_def by (intro keeps_bind keeps_query keeps_if keeps_fail keeps_ret lease)
  have dec: "keeps P (decrypt_jobs opn kr t' cs)" for cs
  proof (induction cs)
    case (Cons a cs)
    then show ?case by (cases a) (auto intro!: frame_finalize up split: sum.splits)
  qed simp
  show ?thesis unfolding Claim_def
    by (auto intro!: keeps_bind keeps_try keeps_in_tx keeps_repeat tx dec split: sum.splits err.splits prod.splits)
qed

lemma frame_event:
  assumes "\<And>p f. identity_kept f \<Longrightarrow> keeps P (update_jobs p f)" and "keeps P (exec (insert_event svix pmid ty occ t))"
  shows "keeps P (RecordProviderEvent svix pmid ty occ t)"
  unfolding RecordProviderEvent_def by (intro keeps_bind keeps_if keeps_inc keeps_ret frame_reduce assms)

lemma frame_jobs:
  assumes "\<And>d rs. P d \<Longrightarrow> P (d\<lparr>email_outbox := rs\<rparr>)" and "\<And>d es. P d \<Longrightarrow> P (d\<lparr>email_events := es\<rparr>)"
  shows "keeps P (QueueTx sl kr oid nonce t inp)" "keeps P (RecordProviderEvent svix pmid ty occ t)"
    "keeps P (Claim opn kr provider limit locked lease now t t')" "keeps P (Finalize jid lt out t)" "keeps P (PurgeFinished age t t')"
proof -
  have up: "keeps P (update_jobs p f)" for p f unfolding update_jobs_def by (auto simp: assms intro!: keeps_exec)
  show "keeps P (QueueTx sl kr oid nonce t inp)"
    unfolding QueueTx_def by (auto simp: supersede_jobs_def insert_job_def assms intro!: keeps_exec split: sum.splits prod.splits if_splits)
  show "keeps P (RecordProviderEvent svix pmid ty occ t)"
    by (rule frame_event [OF up]) (auto simp: insert_event_def assms intro!: keeps_exec split: if_splits)
  show "keeps P (Claim opn kr provider limit locked lease now t t')"
    by (rule frame_claim [OF up]) (auto simp: lease_stmt_def assms intro!: keeps_exec)
  show "keeps P (Finalize jid lt out t)" by (rule frame_finalize [OF up])
  show "keeps P (PurgeFinished age t t')" unfolding PurgeFinished_def by (auto simp: assms intro!: keeps_exec)
qed

lemma frame_buckets:
  assumes "\<And>d bs. P d \<Longrightarrow> P (d\<lparr>rate_limit_buckets := bs\<rparr>)"
  shows "keeps P (Allow key rl t)" "keeps P (PurgeStale age t)"
  unfolding Allow_def PurgeStale_def
  by (auto simp: upsert_bucket_def spend_bucket_def assms intro!: keeps_exec split: option.splits)

lemma frame_audit:
  assumes "\<And>d as. P d \<Longrightarrow> P (d\<lparr>audit_log := as\<rparr>)"
  shows "keeps P (exec (insert_audit env ev actor ip detail))" "keeps P (PurgeOlderThan age t)"
  unfolding PurgeOlderThan_def by (auto simp: insert_audit_def assms intro!: keeps_exec)

subsection \<open>The cap on sessions\<close>

interpretation cap_held: store_invariant "\<lambda>d. cap_configured sc \<longrightarrow> capped sc d" sc for sc
proof (unfold_locales, goal_cases)
  case (1 H token now inp)
  show ?case using capped_create [of sc H token now inp] by (auto simp: cap_configured_def keeps_def)
next
  case (2 H now token)
  show ?case using capped_Validate [of sc H now token] by (auto simp: cap_configured_def keeps_def)
next
  case (3 H token)
  show ?case using capped_revoke [of sc H token] by (auto simp: keeps_def)
next
  case (4 uid)
  show ?case unfolding revokeAllForUser_def by (auto simp: capped_def intro!: keeps_exec)
next
  case (18 t)
  show ?case unfolding PurgeExpired_sessions_def by (auto simp: capped_def intro!: keeps_exec)
qed (rule frame_users frame_tokens frame_token_purge frame_jobs frame_buckets frame_audit; simp add: capped_def)+

subsection \<open>One live link\<close>

lemma one_live_keeps:
  assumes "\<And>w r w'. m w = (r, w') \<Longrightarrow> token_step H (\<lambda>_. True) w w'"
  shows "keeps (\<lambda>d. one_live (one_time_tokens d)) m"
  by (rule keepsI) (rule live_inv.step_inv [OF assms])

interpretation links_live: store_invariant "\<lambda>d. one_live (one_time_tokens d)" sc for sc
proof (unfold_locales, goal_cases)
  case (10 H tok tid now t uid pu ttl)
  show ?case by (rule one_live_keeps [of _ H]) (auto intro: tk_issue)
next
  case (11 H t tok pu)
  show ?case by (rule one_live_keeps [of _ H]) (rule tk_consume)
next
  case (19 t)
  show ?case by (rule one_live_keeps [of _ "\<lambda>_. []"]) (rule tk_purge)
qed (rule frame_sessions frame_users frame_jobs frame_buckets frame_audit; simp)+

subsection \<open>Well-formed jobs\<close>

interpretation jobs_formed: store_invariant ok_rows.jobs_inv sc for sc
proof (unfold_locales, goal_cases)
  case (12 sl kr oid nonce t inp')
  show ?case by (rule ok_rows.keeps_QueueTx) simp
next
  case (13 svix pmid ty occ t)
  show ?case by (rule ok_rows.keeps_RecordProviderEvent)
next
  case (16 opn kr provider limit locked lease now t t')
  show ?case by (rule ok_rows.keeps_Claim) simp_all
next
  case (17 jid lt out t)
  show ?case by (rule ok_rows.keeps_Finalize) simp
next
  case (19 t)
  show ?case by (rule ok_rows.keeps_PurgeExpired_tokens)
next
  case (22 age t t')
  show ?case by (rule ok_rows.keeps_PurgeFinished)
qed (rule frame_sessions frame_users frame_tokens frame_buckets frame_audit; simp add: ok_rows.jobs_inv_def)+

subsection \<open>The constraints of the schema\<close>

lemma schema_sessions:
  "keeps db_ok (create sc H token now inp)" "keeps db_ok (Validate sc H now token)" "keeps db_ok (revoke H token)"
  "keeps db_ok (revokeAllForUser uid)" "keeps db_ok (PurgeExpired_sessions t)"
proof -
  have del: "db_ok (d\<lparr>sessions := sql_delete p (sessions d)\<rparr>)" if "db_ok d" for p d
    using that by (auto simp: db_ok_def)
  have upd: "db_ok (d\<lparr>sessions := sql_update p (touch_renew now e) (sessions d)\<rparr>)"
    "db_ok (d\<lparr>sessions := sql_update p (touch_only now) (sessions d)\<rparr>)" if "db_ok d" for p d now e
    using that by (auto simp: db_ok_def renew_row.unique_kept touch_row.unique_kept set_sql_update row_defs)
  show "keeps db_ok (create sc H token now inp)"
    unfolding create_def Let_def by (auto simp: insert_session_def db_ok_def user_exists_iff intro!: keeps_exec split: if_splits)
  show "keeps db_ok (Validate sc H now token)"
    unfolding Validate_def validate_row_def Let_def
    by (auto simp: update_session_def delete_session_def del upd intro!: keeps_exec split: option.splits)
  show "keeps db_ok (revoke H token)" "keeps db_ok (revokeAllForUser uid)" "keeps db_ok (PurgeExpired_sessions t)"
    unfolding revoke_def revokeAllForUser_def PurgeExpired_sessions_def
    by (auto simp: revoke_stmt_def del intro!: keeps_exec split: option.splits)
qed

lemma schema_users:
  "keeps db_ok (createWithPassword uid email ph t)" "keeps db_ok (setPassword uid ph t)" "keeps db_ok (markEmailVerified uid t)"
  "keeps db_ok (setDisabled uid b t)"
  using account_operations_keep_schema by blast+

lemma t_ids_update: "t_id ` set (sql_update p (mark_consumed t) ts) = t_id ` set ts"
  using consume_row.keys_kept [where p = p and rs = ts] by (metis list.set_map)

lemma schema_tokens:
  "keeps db_ok (IssueTx H tok tid now t uid pu ttl)" "keeps db_ok (consume H t tok pu)" "keeps db_ok (PurgeExpired_tokens t)"
proof -
  have upd: "db_ok (d\<lparr>one_time_tokens := sql_update p (mark_consumed t) (one_time_tokens d)\<rparr>)" if "db_ok d" for p d t
  proof -
    have "\<forall>x \<in> set (sql_update p (mark_consumed t) (one_time_tokens d)). t_user_id x \<in> u_id ` set (users d)"
      using that by (auto simp: db_ok_def set_sql_update row_defs)
    with that show ?thesis by (simp add: db_ok_def consume_row.unique_kept t_ids_update)
  qed
  have ins: "db_ok (d\<lparr>one_time_tokens := sql_insert x (one_time_tokens d)\<rparr>)"
    if "db_ok d" "key_free t_id (t_id x) (one_time_tokens d)" "user_exists d (t_user_id x)" for d x
    using that by (auto simp: db_ok_def user_exists_iff)
  show "keeps db_ok (IssueTx H tok tid now t uid pu ttl)"
    unfolding IssueTx_def by (auto simp: supersede_stmt_def insert_token_def upd ins intro!: keeps_exec split: if_splits)
  show "keeps db_ok (consume H t tok pu)"
    unfolding consume_def by (auto simp: consume_stmt_def upd intro!: keeps_exec split: option.splits)
  have purge: "db_ok (d\<lparr>one_time_tokens := sql_delete dead (one_time_tokens d),
      email_outbox := sql_update (\<lambda>_. True) (detach_token dead (one_time_tokens d)) (email_outbox d)\<rparr>)" if ok: "db_ok d" for d dead
  proof -
    have "k \<in> t_id ` {x \<in> set (one_time_tokens d). \<not> dead x}"
      if "r \<in> set (email_outbox d)" "o_token_id (detach_token dead (one_time_tokens d) r) = Some k" for r k
    proof -
      have "o_token_id r = Some k" "\<not> list_ex (\<lambda>x. t_id x = k \<and> dead x) (one_time_tokens d)"
        using that(2) by (auto simp: detach_token_def split: option.splits if_splits)
      moreover then have "k \<in> t_id ` set (one_time_tokens d)" using ok that(1) by (simp add: db_ok_def)
      ultimately show ?thesis by (auto simp: list_ex_iff)
    qed
    moreover have "o_user_id (detach_token dead (one_time_tokens d) r) = o_user_id r" for r
      by (simp add: detach_token_def split: option.splits)
    ultimately show ?thesis using ok
      by (simp add: db_ok_def detach_row.unique_kept unique_on_delete set_sql_update)
  qed
  show "keeps db_ok (PurgeExpired_tokens t)"
    unfolding PurgeExpired_tokens_def by (rule keeps_exec) (auto simp: purge)
qed

lemma schema_update_jobs:
  assumes "identity_kept f" and "db_ok d"
  shows "db_ok (d\<lparr>email_outbox := sql_update p f (email_outbox d)\<rparr>)"
proof -
  have "keyed_update o_id f" using assms(1) by unfold_locales (simp add: identity_kept_def)
  from keyed_update.unique_kept [OF this] assms show ?thesis by (auto simp: db_ok_def set_sql_update identity_kept_def)
qed

lemma schema_jobs:
  "keeps db_ok (QueueTx sl kr oid nonce t inp)" "keeps db_ok (RecordProviderEvent svix pmid ty occ t)"
  "keeps db_ok (Claim opn kr provider limit locked lease now t t')" "keeps db_ok (Finalize jid lt out t)"
  "keeps db_ok (PurgeFinished age t t')"
proof -
  have up: "keeps db_ok (update_jobs p f)" if "identity_kept f" for p f
    unfolding update_jobs_def using that by (auto intro!: keeps_exec schema_update_jobs)
  have ins: "keeps db_ok (exec (insert_job x))" for x
    by (rule keeps_exec) (auto simp: insert_job_def db_ok_def user_exists_iff token_exists_def list_ex_iff split: if_splits option.splits)
  have sup: "keeps db_ok (exec (supersede_jobs uid p t))" for uid p
    by (rule keeps_exec) (auto simp: supersede_jobs_def schema_update_jobs)
  show "keeps db_ok (QueueTx sl kr oid nonce t inp)"
    unfolding QueueTx_def by (auto intro!: ins sup split: sum.splits)
  show "keeps db_ok (RecordProviderEvent svix pmid ty occ t)"
    by (rule frame_event [OF up]) (auto simp: insert_event_def db_ok_def intro!: keeps_exec split: if_splits)
  show "keeps db_ok (Claim opn kr provider limit locked lease now t t')"
    by (rule frame_claim [OF up]) (auto simp: lease_stmt_def schema_update_jobs intro!: keeps_exec)
  show "keeps db_ok (Finalize jid lt out t)" by (rule frame_finalize [OF up])
  show "keeps db_ok (PurgeFinished age t t')"
    unfolding PurgeFinished_def by (intro keeps_bind keeps_ret keeps_exec) (auto simp: db_ok_def)
qed

lemma schema_buckets: "keeps db_ok (Allow key rl t)" "keeps db_ok (PurgeStale age t)"
proof -
  have "keeps db_ok (exec (upsert_bucket key rl t))"
    by (rule keeps_exec)
      (auto simp: upsert_bucket_def db_ok_def refill_row.unique_kept key_free_iff sql_row_None_iff split: option.splits)
  moreover have "keeps db_ok (exec (spend_bucket key))"
    by (rule keeps_exec) (auto simp: spend_bucket_def db_ok_def spend_row.unique_kept)
  ultimately show "keeps db_ok (Allow key rl t)" unfolding Allow_def by auto
  show "keeps db_ok (PurgeStale age t)" unfolding PurgeStale_def by (rule keeps_exec) (auto simp: db_ok_def)
qed

interpretation schema_held: store_invariant db_ok sc for sc
  by unfold_locales (rule schema_sessions schema_users UpsertByOAuth_keeps schema_tokens schema_jobs schema_buckets
      frame_audit; simp add: db_ok_def)+

subsection \<open>The invariants of the service\<close>

text \<open>The state of a sound deployment.\<close>

definition service_inv :: "session_config \<Rightarrow> db \<Rightarrow> bool" where
  "service_inv sc d \<longleftrightarrow> db_ok d \<and> capped sc d \<and> one_live (one_time_tokens d) \<and> (\<forall>r \<in> set (email_outbox d). job_ok r)"

text \<open>
  C40. The invariants of the whole service. Starting from a sound database (the empty one, say), any
  sequence of HTTP requests (to any route, with any content), worker cycles and maintenance
  passes, with any failures along the way, keeps it sound: the constraints of the schema hold, no
  session outlives its absolute cap, each user has at most one live link per purpose, and every
  finished mail job has dropped its payload and its lease.
\<close>

theorem service_keeps_invariants:
  assumes "(service_step sc)\<^sup>*\<^sup>* w w'" and "cap_configured sc" and "service_inv sc (wdb w)"
  shows "service_inv sc (wdb w')"
proof -
  have "db_ok (wdb w')" using schema_held.run_inv [OF assms(1)] assms(3) by (simp add: service_inv_def)
  moreover have "capped sc (wdb w')" using cap_held.run_inv [OF assms(1)] assms(2,3) by (simp add: service_inv_def)
  moreover have "one_live (one_time_tokens (wdb w'))"
    using links_live.run_inv [OF assms(1)] assms(3) by (simp add: service_inv_def)
  moreover have "ok_rows.jobs_inv (wdb w')"
    using jobs_formed.run_inv [OF assms(1)] assms(3) by (simp add: service_inv_def ok_rows.jobs_inv_def db_ok_def)
  ultimately show ?thesis by (simp add: service_inv_def ok_rows.jobs_inv_def)
qed

text \<open>A password login served from the empty database, and the pass of the maintenance loop after it.\<close>

theorem service_keeps_invariants_witness:
  "\<exists>w1 w2 w'. ServeHTTP (\<lambda>_. []) sample_server sample_draws None ''POST'' [''login''] sample_reset w1 = (Inr (fst w2), snd w2) \<and>
     (service_step (session_config_of sample_config))\<^sup>*\<^sup>* w1 w' \<and> wdb w1 = empty_db \<and>
     service_inv (session_config_of sample_config) (wdb w')"
proof -
  let ?sc = "session_config_of sample_config" and ?w = "\<lparr>wdb = empty_db, faults = [], counters = []\<rparr> :: world"
  have "answers (ServeHTTP (\<lambda>_. []) sample_server sample_draws None ''POST'' [''login''] sample_reset)"
    unfolding serve_defs by (auto intro: answers_mux)
  then obtain resp w1 where run: "ServeHTTP (\<lambda>_. []) sample_server sample_draws None ''POST'' [''login''] sample_reset ?w = (Inr resp, w1)"
    by (metis answersD)
  obtain u w2 where pass: "maintenance_pass sample_config (\<lambda>_. 9) w1 = (u, w2)" by fastforce
  have "service_step ?sc ?w w1" by (rule sv_request [OF _ run]) (simp add: sample_server_def)
  moreover have "service_step ?sc w1 w2" by (rule sv_maintenance [OF pass])
  ultimately have steps: "(service_step ?sc)\<^sup>*\<^sup>* ?w w2" by simp
  have cap: "cap_configured ?sc" by code_simp
  have "service_inv ?sc (wdb ?w)" by (simp add: service_inv_def db_ok_empty) (simp add: capped_def one_live_def empty_db_def)
  from service_keeps_invariants [OF steps cap this] run steps show ?thesis
    by (intro exI [of _ ?w] exI [of _ "(resp, w1)"] exI [of _ w2]) simp
qed

end
