(* ===== verification/Maintenance.thy ===== *)
theory Maintenance
  imports Server_Safety
begin

text \<open>
  The maintenance loop (\<open>cmd/sesamo/serve.go\<close>) removes only rows that can no longer affect
  behaviour: what a session token, a one-time link and a rate-limit key are good for is the same
  before and after a pass, whichever of its statements fail.
\<close>

subsection \<open>What a pass leaves\<close>

definition expired_at :: "gotime \<Rightarrow> session_row \<Rightarrow> bool" where
  "expired_at t s \<longleftrightarrow> s_expires_at s \<le> t"

definition stale_at :: "gotime \<Rightarrow> bucket_row \<Rightarrow> bool" where
  "stale_at t b \<longleftrightarrow> b_updated_at b < t - 24 * Hour"

text \<open>Each of the tables is as it was or purged.\<close>

definition purged :: "(nat \<Rightarrow> gotime) \<Rightarrow> db \<Rightarrow> db \<Rightarrow> bool" where
  "purged clk d d' \<longleftrightarrow> users d' = users d \<and> identities d' = identities d \<and>
     sessions d' \<in> {sessions d, sql_delete (expired_at (clk 0)) (sessions d)} \<and>
     one_time_tokens d' \<in> {one_time_tokens d, sql_delete (dead_token (clk 1)) (one_time_tokens d)} \<and>
     rate_limit_buckets d' \<in> {rate_limit_buckets d, sql_delete (stale_at (clk 2)) (rate_limit_buckets d)}"

lemma sql_delete_twice [simp]: "sql_delete p (sql_delete p rs) = sql_delete p rs"
  by (simp add: sql_delete_def)

lemma maintenance_purges:
  assumes "maintenance_pass c clk w = (r, w')"
  shows "purged clk (wdb w) (wdb w')"
proof -
  have "keeps (purged clk (wdb w)) (maintenance_pass c clk)"
    unfolding maintenance_pass_def PurgeExpired_sessions_def PurgeExpired_tokens_def PurgeStale_def PurgeOlderThan_def
      PurgeFinished_def expired_at_def [symmetric] stale_at_def [symmetric]
    by (intro keeps_bind keeps_ignore keeps_if keeps_ret keeps_exec) (auto simp: purged_def)
  from keepsD [OF this assms] show ?thesis by (simp add: purged_def)
qed

lemma purged_live_join:
  assumes "purged clk d d'" "unique_on s_id_hash (sessions d)" "clk 0 \<le> now"
  shows "live_join now h d' = live_join now h d"
proof -
  have us: "users d' = users d" using assms(1) by (simp add: purged_def)
  from assms(1) consider "sessions d' = sessions d" | "sessions d' = sql_delete (\<lambda>s. s_expires_at s \<le> clk 0) (sessions d)"
    by (auto simp: purged_def expired_at_def [abs_def])
  then show ?thesis
  proof cases
    case 1
    have "session_join_user h d' = session_join_user h d" unfolding session_join_user_def 1 us ..
    then show ?thesis by (simp add: live_join_def)
  next
    case 2
    then show ?thesis by (rule purge_keeps_live_join [OF assms(2,3) us])
  qed
qed

lemma purged_consumable:
  "purged clk d d' \<Longrightarrow> clk 1 \<le> t \<Longrightarrow>
     sql_row (consumable h p t) (one_time_tokens d') = sql_row (consumable h p t) (one_time_tokens d)"
  by (auto simp: purged_def purge_keeps_consumable)

lemma purged_avail:
  assumes "purged clk d d'" "unique_on b_key (rate_limit_buckets d)" "bucket_ok key d (clk 2)" "clk 2 \<le> t"
    and "rl \<in> {loginIPRule, loginIdentityRule}"
  shows "avail key rl d' t = avail key rl d t"
proof -
  have rule: "rule_ok rl" "Capacity rl \<le> secs (24 * Hour) * RefillPerSec rl" using assms(5) login_rules_refill by auto
  from assms(1) consider "rate_limit_buckets d' = rate_limit_buckets d"
    | "rate_limit_buckets d' = sql_delete (\<lambda>b. b_updated_at b < clk 2 - 24 * Hour) (rate_limit_buckets d)"
    by (auto simp: purged_def stale_at_def [abs_def])
  then show ?thesis
  proof cases
    case 1
    then show ?thesis by (simp add: avail_def)
  next
    case 2
    then show ?thesis by (rule purge_keeps_avail [OF assms(2) rule assms(3,4)])
  qed
qed

subsection \<open>What the decisions depend on\<close>

lemma consume_result:
  assumes "faults v = faults v'"
    and "sql_row (consumable (H token) p t) (one_time_tokens (wdb v)) = sql_row (consumable (H token) p t) (one_time_tokens (wdb v'))"
  shows "fst (consume H t token p v) = fst (consume H t token p v')"
  using assms by (cases "fails_now (faults v')")
    (simp_all add: consume_def exec_def next_fault_eq consume_stmt_def del: next_fault_db split: option.splits)

text \<open>Validation, when the token stands for no live session and when it does.\<close>

lemma exec_update_result: "fst (exec (update_session h f) v) = (if fails_now (faults v) then Inl ErrBackend else Inr ())"
  by (simp add: exec_def next_fault_eq update_session_def del: next_fault_db)

lemma bind_ret_result: "fst (bindM m (\<lambda>_. retM x) v) = map_sum id (\<lambda>_. x) (fst (m v))"
  by (auto simp: bindM_def retM_def split: prod.splits sum.splits)

lemma ret_result: "fst (retM x v) = Inr x"
  by (simp add: retM_def)

lemma ignore_result: "fst (ignoreM m v) = Inr ()"
  by (simp add: ignoreM_def)

lemmas results = exec_update_result bind_ret_result ret_result ignore_result

lemma Validate_result:
  "fst (Validate sc H now token v) =
     (if fails_now (faults v) then Inl ErrBackend
      else case session_join_user (H token) (wdb v) of
        None \<Rightarrow> Inr \<lparr>r_kind = KindNotFound, r_user = None, r_expires_at = zero_time, r_renewed = False\<rparr>
      | Some (s, u) \<Rightarrow> fst (validate_row sc (H token) now s u (v\<lparr>faults := tl (faults v)\<rparr>)))"
  by (cases "fails_now (faults v)")
    (simp_all add: Validate_def Let_def bindM_def query_def exec_def next_fault_eq ret_result del: next_fault_db split: option.splits)

lemma Validate_dead:
  assumes "live_join now (H token) (wdb v) = None"
  shows "if fails_now (faults v) then fst (Validate sc H now token v) = Inl ErrBackend
    else \<exists>res. fst (Validate sc H now token v) = Inr res \<and> r_user res = None"
proof -
  have "fst (validate_row sc (H token) now s u x) = Inr \<lparr>r_kind = KindExpired, r_user = None, r_expires_at = zero_time, r_renewed = False\<rparr>"
    if "u_disabled u \<or> s_expires_at s \<le> now" for s u x
    using that by (auto simp: validate_row_def After_def results)
  with assms show ?thesis by (auto simp: Validate_result live_join_def split: option.splits if_splits)
qed

lemma Validate_live:
  assumes "live_join now (H token) (wdb v) = Some (s, u)" and "live_join now (H token) (wdb v') = Some (s, u)"
    and "faults v = faults v'"
  shows "fst (Validate sc H now token v) = fst (Validate sc H now token v')"
proof -
  have "session_join_user (H token) (wdb v) = Some (s, u)" "session_join_user (H token) (wdb v') = Some (s, u)"
    and live: "\<not> u_disabled u" "now < s_expires_at s"
    using assms(1,2) by (auto simp: live_join_def split: option.splits if_splits)
  moreover have "fst (validate_row sc (H token) now s u (v\<lparr>faults := bs\<rparr>)) = fst (validate_row sc (H token) now s u (v'\<lparr>faults := bs\<rparr>))" for bs
    using live by (simp add: validate_row_def Let_def results After_def)
  ultimately show ?thesis using assms(3) by (simp add: Validate_result)
qed

lemma introspect_result:
  assumes "faults v = faults v'"
    and "live_join (wall dr 0) (HashToken s (introspectToken s r)) (wdb v) = live_join (wall dr 0) (HashToken s (introspectToken s r)) (wdb v')"
  shows "fst (handleIntrospect s dr r v) = fst (handleIntrospect s dr r v')"
proof -
  let ?val = "Validate (session_config_of (cfg s)) (HashToken s) (wall dr 0) (introspectToken s r)"
  define decide where "decide x = (case x of Inl _ \<Rightarrow> internal_error
    | Inr res \<Rightarrow> (case r_user res of
          None \<Rightarrow> writeJSON 200 (IntrospectBody inactive)
        | Some u \<Rightarrow>
            if r_kind res \<noteq> KindValid then writeJSON 200 (IntrospectBody inactive)
            else (writeJSON 200 (IntrospectBody (active_as u (r_expires_at res))))
                   \<lparr>resp_headers := (if r_renewed res then [(''X-Session-Renewed'', ''1'')] else [])\<rparr>))"
    for x :: "err + validate_result"
  have h: "fst (handleIntrospect s dr r x) =
      Inr (if introspectToken s r = [] then writeJSON 200 (IntrospectBody inactive) else decide (fst (?val x)))" for x
    by (auto simp: handleIntrospect_def Let_def attempt_run retM_def decide_def split: prod.splits sum.splits option.splits)
  have "decide (fst (?val v)) = decide (fst (?val v'))"
  proof (cases "live_join (wall dr 0) (HashToken s (introspectToken s r)) (wdb v)")
    case None
    note dead = Validate_dead [of "wall dr 0" "HashToken s" "introspectToken s r" _ "session_config_of (cfg s)"]
    from dead [OF None] dead [of v'] None assms show ?thesis by (auto simp: decide_def split: if_splits)
  next
    case (Some su)
    then show ?thesis using Validate_live assms by (cases su) (metis (no_types, lifting))
  qed
  then show ?thesis by (simp add: h)
qed

subsection \<open>Maintenance is invisible\<close>

text \<open>
  C6. Maintenance is invisible. Take a world \<open>w\<close> and the world \<open>w'\<close> a pass leaves, with any failures
  during the pass, and later calls made under equal failures, one in the database of \<open>w\<close> and one in that of
  \<open>w'\<close>: introspection gives the same answer for every session token, a one-time link is
  consumed or refused alike, and the login limiter lets through and makes wait alike.
\<close>

theorem maintenance_is_invisible:
  assumes "maintenance_pass c clk w = (u, w')" and "db_ok (wdb w)" and "\<forall>key. bucket_ok key (wdb w) (clk 2)"
    and "wdb v = wdb w" and "wdb v' = wdb w'" and "faults v = faults v'"
  shows "(clk 0 \<le> wall dr 0 \<longrightarrow> fst (handleIntrospect s dr r v') = fst (handleIntrospect s dr r v)) \<and>
    (clk 1 \<le> t \<longrightarrow> fst (consume H t token p v') = fst (consume H t token p v)) \<and>
    (clk 2 \<le> t \<and> rl \<in> {loginIPRule, loginIdentityRule} \<longrightarrow> fst (Allow key rl t v') = fst (Allow key rl t v))"
proof (intro conjI impI)
  have pg: "purged clk (wdb v) (wdb v')" using maintenance_purges [OF assms(1)] assms(4,5) by simp
  have ok: "unique_on s_id_hash (sessions (wdb v))" "unique_on b_key (rate_limit_buckets (wdb v))"
    using assms(2,4) by (simp_all add: db_ok_def)
  show "fst (handleIntrospect s dr r v') = fst (handleIntrospect s dr r v)" if "clk 0 \<le> wall dr 0"
    using assms(6) by (intro introspect_result) (simp_all add: purged_live_join [OF pg ok(1) that])
  show "fst (consume H t token p v') = fst (consume H t token p v)" if "clk 1 \<le> t"
    using assms(6) by (intro consume_result) (simp_all add: purged_consumable [OF pg that])
  show "fst (Allow key rl t v') = fst (Allow key rl t v)" if "clk 2 \<le> t \<and> rl \<in> {loginIPRule, loginIdentityRule}"
    using assms(3,4,6) that by (intro Allow_result) (auto simp: purged_avail [OF pg ok(2)])
qed

theorem maintenance_is_invisible_witness:
  "\<exists>u w'. maintenance_pass sample_config (\<lambda>_. 6) sample_token_world = (u, w') \<and>
     fst (consume sample_hash 7 ''t'' PurposeReset (sample_token_world\<lparr>wdb := wdb w'\<rparr>)) = Inr ''u1''"
proof -
  obtain u w' where pass: "maintenance_pass sample_config (\<lambda>_. 6) sample_token_world = (u, w')" by fastforce
  have b: "\<forall>key. bucket_ok key (wdb sample_token_world) 6"
    by (simp add: bucket_ok_def sample_token_world_def sample_world_def empty_db_def sql_row_def)
  have "fst (consume sample_hash 7 ''t'' PurposeReset (sample_token_world\<lparr>wdb := wdb w'\<rparr>))
      = fst (consume sample_hash 7 ''t'' PurposeReset sample_token_world)"
    using maintenance_is_invisible [OF pass sample_token_world_ok, of sample_token_world "sample_token_world\<lparr>wdb := wdb w'\<rparr>"
        sample_draws sample_server sample_reset 7 sample_hash "''t''" PurposeReset loginIPRule "[]"] b by simp
  with pass sample_consume show ?thesis by simp
qed

subsection \<open>Queued mail whose link is spent\<close>

text \<open>
  The pass is not invisible to the mail queue. A queued mail whose link was used is canceled when
  it is claimed; once a pass has purged the used link, the job no longer refers to it and the same
  claim hands the mail out.
\<close>

definition spent_link_world :: world where
  "spent_link_world = sample_queue_world\<lparr>wdb := (wdb sample_queue_world)\<lparr>one_time_tokens := [sample_token_row\<lparr>t_consumed_at := Some 7\<rparr>]\<rparr>\<rparr>"

definition claim_at_8 :: "job list dbm" where
  "claim_at_8 = Claim toy_open sample_keyring ''log'' 4 (\<lambda>_. False) (\<lambda>_. ''L'') 8 8 8"

lemma spent_link_is_canceled:
  "fst (claim_at_8 spent_link_world) = Inr [] \<and> map o_status (email_outbox (wdb (snd (claim_at_8 spent_link_world)))) = [Canceled]"
  by code_simp

lemma purge_hands_out_spent_link:
  "case fst (claim_at_8 (snd (PurgeExpired_tokens 8 spent_link_world))) of
     Inl e \<Rightarrow> False | Inr js \<Rightarrow> map (m_Body \<circ> j_Message) js = [''link'']"
  by code_simp

end
