(* ===== verification/Enumeration.thy ===== *)
theory Enumeration
  imports Handler_Safety
begin

text \<open>
  No answer tells whether an account exists. Two worlds look the same to a visitor when they agree
  on the failures to come and on the rate-limit buckets; their accounts may be anything. The
  relational judgement \<open>related\<close> says that two computations give equal errors or related results in
  any two such worlds and leave two such worlds again; it is proved for the steps of the
  handlers and composed along \<open>bindM\<close>. Time is not part of the model: what is shown is about the
  answers, not about how long they take, and not about the counters.
\<close>

text \<open>The accounts of each side are named, so that a step may rely on them.\<close>

definition view :: "user_row list \<Rightarrow> user_row list \<Rightarrow> world \<Rightarrow> world \<Rightarrow> bool" where
  "view us vs w v \<longleftrightarrow> faults w = faults v \<and> rate_limit_buckets (wdb w) = rate_limit_buckets (wdb v) \<and>
     users (wdb w) = us \<and> users (wdb v) = vs"

definition same_view :: "world \<Rightarrow> world \<Rightarrow> bool" where
  "same_view w v \<longleftrightarrow> faults w = faults v \<and> rate_limit_buckets (wdb w) = rate_limit_buckets (wdb v)"

definition outcome_rel :: "(world \<Rightarrow> world \<Rightarrow> bool) \<Rightarrow> ('a \<Rightarrow> 'b \<Rightarrow> bool) \<Rightarrow> (err + 'a) \<times> world \<Rightarrow> (err + 'b) \<times> world \<Rightarrow> bool" where
  "outcome_rel R Q p q \<longleftrightarrow> R (snd p) (snd q) \<and> rel_sum (=) Q (fst p) (fst q)"

definition related :: "user_row list \<Rightarrow> user_row list \<Rightarrow> ('a \<Rightarrow> 'b \<Rightarrow> bool) \<Rightarrow> 'a dbm \<Rightarrow> 'b dbm \<Rightarrow> bool" where
  "related us vs Q m n \<longleftrightarrow> (\<forall>w v. view us vs w v \<longrightarrow> outcome_rel (view us vs) Q (m w) (n v))"

definition same_answer :: "user_row list \<Rightarrow> user_row list \<Rightarrow> 'a dbm \<Rightarrow> 'a dbm \<Rightarrow> bool" where
  "same_answer us vs m n \<longleftrightarrow> (\<forall>w v. view us vs w v \<longrightarrow> fst (m w) = fst (n v))"

lemma view_refl_users: "same_view w v \<longleftrightarrow> view (users (wdb w)) (users (wdb v)) w v"
  by (simp add: same_view_def view_def)

lemma relatedD: "related us vs Q m n \<Longrightarrow> view us vs w v \<Longrightarrow> outcome_rel (view us vs) Q (m w) (n v)"
  by (simp add: related_def)

lemma related_ret [intro!]: "Q x y \<Longrightarrow> related us vs Q (retM x) (retM y)"
  by (simp add: related_def outcome_rel_def retM_def)

lemma related_fail [intro!]: "related us vs Q (failM e) (failM e)"
  by (simp add: related_def outcome_rel_def failM_def)

lemma related_inc [intro!]: "related us vs (=) (inc_counter n) (inc_counter n)"
  by (simp add: related_def outcome_rel_def inc_counter_def view_def)

lemma outcome_rel_cases:
  assumes "outcome_rel R Q p q"
  obtains e w v where "p = (Inl e, w)" "q = (Inl e, v)" "R w v"
  | x y w v where "p = (Inr x, w)" "q = (Inr y, v)" "Q x y" "R w v"
  using assms by (cases p; cases q) (auto simp: outcome_rel_def elim: rel_sum.cases)

lemma related_bind [intro]:
  assumes "related us vs Q m n" and "\<And>x y. Q x y \<Longrightarrow> related us vs P (k x) (l y)"
  shows "related us vs P (bindM m k) (bindM n l)"
  unfolding related_def
proof (intro allI impI)
  fix w v assume "view us vs w v"
  then have "outcome_rel (view us vs) Q (m w) (n v)" by (rule relatedD [OF assms(1)])
  then show "outcome_rel (view us vs) P (bindM m k w) (bindM n l v)"
  proof (cases rule: outcome_rel_cases)
    case (1 e w' v')
    then show ?thesis by (simp add: outcome_rel_def)
  next
    case (2 x y w' v')
    with relatedD [OF assms(2) [OF 2(3)] 2(4)] show ?thesis by simp
  qed
qed

lemma related_try [intro]: "related us vs Q m n \<Longrightarrow> related us vs (rel_sum (=) Q) (tryM m) (tryM n)"
  by (fastforce simp: related_def tryM_def outcome_rel_def split: prod.splits)

lemma view_fault:
  assumes "view us vs w v"
  obtains b w' v' where "next_fault w = (b, w')" "next_fault v = (b, v')" "view us vs w' v'"
proof (cases "faults v")
  case Nil
  with assms show thesis by (intro that [of False w v]) (simp_all add: view_def)
next
  case (Cons b bs)
  with assms show thesis by (intro that [of b "w\<lparr>faults := bs\<rparr>" "v\<lparr>faults := bs\<rparr>"]) (simp_all add: view_def next_fault_def)
qed

lemma related_exec:
  assumes "\<And>d e. \<lbrakk>users d = us; users e = vs; rate_limit_buckets d = rate_limit_buckets e\<rbrakk> \<Longrightarrow>
      rel_sum (=) (rel_prod Q (\<lambda>d' e'. users d' = us \<and> users e' = vs \<and> rate_limit_buckets d' = rate_limit_buckets e'))
        (stmt d) (stmt' e)"
  shows "related us vs Q (exec stmt) (exec stmt')"
  unfolding related_def
proof (intro allI impI)
  fix w v assume vw: "view us vs w v"
  then obtain b w' v' where f: "next_fault w = (b, w')" "next_fault v = (b, v')" and v': "view us vs w' v'"
    by (rule view_fault)
  have s: "rel_sum (=) (rel_prod Q (\<lambda>d' e'. users d' = us \<and> users e' = vs \<and> rate_limit_buckets d' = rate_limit_buckets e'))
        (stmt (wdb w')) (stmt' (wdb v'))" using v' by (intro assms) (simp_all add: view_def)
  show "outcome_rel (view us vs) Q (exec stmt w) (exec stmt' v)"
    using f v' s by (cases b) (auto simp: exec_def outcome_rel_def view_def elim!: rel_sum.cases)
qed

lemma related_query:
  assumes "\<And>d e. users d = us \<Longrightarrow> users e = vs \<Longrightarrow> Q (q d) (q' e)"
  shows "related us vs Q (query q) (query q')"
  unfolding query_def using assms by (intro related_exec) simp

lemma related_in_tx [intro]:
  assumes "related us vs Q m n"
  shows "related us vs Q (in_tx m) (in_tx n)"
  unfolding related_def
proof (intro allI impI)
  fix w v assume "view us vs w v"
  then obtain b w1 v1 where f: "next_fault w = (b, w1)" "next_fault v = (b, v1)" and v1: "view us vs w1 v1"
    by (rule view_fault)
  from relatedD [OF assms v1] show "outcome_rel (view us vs) Q (in_tx m w) (in_tx n v)"
  proof (cases rule: outcome_rel_cases)
    case (1 e w2 v2)
    with f v1 show ?thesis by (cases b) (simp_all add: in_tx_def outcome_rel_def view_def)
  next
    case (2 x y w2 v2)
    obtain c w3 v3 where g: "next_fault w2 = (c, w3)" "next_fault v2 = (c, v3)" and v3: "view us vs w3 v3"
      using 2(4) by (rule view_fault)
    with f v1 2 show ?thesis by (cases b; cases c) (simp_all add: in_tx_def outcome_rel_def view_def)
  qed
qed

subsection \<open>The steps of the handlers\<close>

lemma related_Allow: "related us vs (=) (Allow key rl t) (Allow key rl t)"
proof -
  have "related us vs (=) (exec (upsert_bucket key rl t)) (exec (upsert_bucket key rl t))"
    by (intro related_exec) (auto simp: upsert_bucket_def split: option.splits)
  moreover have "related us vs (=) (exec (spend_bucket key)) (exec (spend_bucket key))"
    by (intro related_exec) (auto simp: spend_bucket_def)
  ultimately show ?thesis unfolding Allow_def by (auto intro!: related_in_tx related_bind)
qed

lemma related_allow: "related us vs (=) (allow key rl t) (allow key rl t)"
  unfolding allow_def
  by (rule related_bind [OF related_try [OF related_Allow]]) (auto simp: Let_def elim!: rel_sum.cases)

lemma related_checkLoginRate: "related us vs (=) (checkLoginRate ip i t t') (checkLoginRate ip i t t')"
  unfolding checkLoginRate_def
  by (rule related_bind [OF related_allow]) (auto intro: related_allow split: option.splits)

text \<open>An audit write fails or not, whoever is named in it.\<close>

lemma related_recordAudit: "related us vs (=) (recordAudit env ip ev actor detail) (recordAudit env ip ev actor' detail')"
proof -
  have "related us vs (=) (exec (insert_audit env ev actor ip detail)) (exec (insert_audit env ev actor' ip detail'))"
    by (intro related_exec) (auto simp: insert_audit_def)
  from related_try [OF this] have "related us vs (=) (record_event env ev actor ip detail) (record_event env ev actor' ip detail')"
    unfolding record_event_def by (rule related_bind) (auto elim!: rel_sum.cases)
  from related_try [OF this] show ?thesis
    unfolding recordAudit_def by (rule related_bind) (auto elim!: rel_sum.cases intro!: related_bind [OF related_inc])
qed

lemma same_answer_ret [intro!]: "same_answer us vs (retM x) (retM x)"
  by (simp add: same_answer_def retM_def)

lemma same_answer_bind:
  assumes "related us vs Q m n" and "\<And>x y. Q x y \<Longrightarrow> same_answer us vs (k x) (l y)"
  shows "same_answer us vs (bindM m k) (bindM n l)"
  unfolding same_answer_def
proof (intro allI impI)
  fix w v assume "view us vs w v"
  then have "outcome_rel (view us vs) Q (m w) (n v)" by (rule relatedD [OF assms(1)])
  then show "fst (bindM m k w) = fst (bindM n l v)"
    by (cases rule: outcome_rel_cases) (use assms(2) in \<open>auto simp: same_answer_def\<close>)
qed

lemma same_answer_guard:
  assumes "related us vs (=) check check" and "same_answer us vs k l"
  shows "same_answer us vs (guardM check k) (guardM check l)"
  unfolding guardM_def using assms(2)
  by (intro same_answer_bind [OF assms(1)]) (auto split: option.splits)

text \<open>A computation with one answer, whatever it meets.\<close>

lemma constant_answer: "answers m \<Longrightarrow> fst (bindM m (\<lambda>_. retM c) w) = Inr c"
  by (drule answersD [of m w]) (auto simp: retM_def)

lemma same_answer_constant: "answers m \<Longrightarrow> answers n \<Longrightarrow> same_answer us vs (bindM m (\<lambda>_. retM c)) (bindM n (\<lambda>_. retM c))"
  by (simp add: same_answer_def constant_answer)

subsection \<open>Answers that do not depend on the accounts\<close>

lemma signup_same_answer: "same_answer us vs (handleSignup s dr r) (handleSignup s dr r)"
proof -
  have masked: "same_answer us vs
      (attempt m (\<lambda>e. bindM (if is_audit_error e then retM () else inc_counter n) (\<lambda>_. retM c)) (\<lambda>_. retM c))
      (attempt m (\<lambda>e. bindM (if is_audit_error e then retM () else inc_counter n) (\<lambda>_. retM c)) (\<lambda>_. retM c))"
    for m :: "unit dbm" and n and c :: response
    by (auto simp: same_answer_def attempt_run retM_def inc_counter_def split: prod.splits sum.splits)
  show ?thesis
    unfolding handleSignup_def Let_def using masked
    by (auto intro!: same_answer_guard related_recordAudit split: option.splits)
qed

lemma answers_queue_masked [intro!]: "answers (queue_masked s dr r ev uid queue)"
  by (auto simp: queue_masked_def)

text \<open>A lookup whose outcome decides what is mailed and not what is answered.\<close>

lemma bind_try: "bindM (tryM m) k w = (case m w of (x, w') \<Rightarrow> k x w')"
  by (simp add: bindM_def tryM_def split: prod.splits)

lemma lookup_constant:
  assumes "\<And>x. answers (act x)"
  shows "same_answer us vs (bindM (tryM m) (\<lambda>found. bindM (act found) (\<lambda>_. retM c))) (bindM (tryM m) (\<lambda>found. bindM (act found) (\<lambda>_. retM c)))"
  unfolding same_answer_def by (simp add: bind_try constant_answer [OF assms] split: prod.splits)

lemma reset_same_answer: "same_answer us vs (handleResetRequest s dr r) (handleResetRequest s dr r)"
  unfolding handleResetRequest_def Let_def
  by (auto intro!: same_answer_guard related_checkLoginRate lookup_constant split: option.splits sum.splits)

lemma magiclink_same_answer: "same_answer us vs (handleMagicLinkRequest s dr r) (handleMagicLinkRequest s dr r)"
  unfolding handleMagicLinkRequest_def Let_def
  by (auto intro!: same_answer_guard related_checkLoginRate lookup_constant split: option.splits sum.splits)

text \<open>A refused password login: the same answer for an unknown, a disabled and a wrongly guessed account.\<close>

lemma refuse_same_answer: "same_answer us vs (refuse_login s dr r actor reason) (refuse_login s dr r actor' reason')"
  unfolding refuse_login_def guardM_def
  by (rule same_answer_bind [OF related_recordAudit]) (auto split: option.splits)

definition credential_of :: "string \<Rightarrow> db \<Rightarrow> credential" where
  "credential_of email d = (case by_email email d of
       None \<Rightarrow> zero_credential
     | Some u \<Rightarrow> (case u_password_hash u of
         None \<Rightarrow> zero_credential\<lparr>cr_UserID := u_id u, cr_Disabled := u_disabled u\<rparr>
       | Some ph \<Rightarrow> \<lparr>cr_UserID = u_id u, cr_Hash = ph, cr_HasPassword = True, cr_Disabled = u_disabled u\<rparr>))"

lemma PasswordCredential_query: "PasswordCredential email = query (credential_of email)"
  by (simp add: PasswordCredential_def credential_of_def [abs_def])

lemma decision_refuses:
  assumes "\<And>u. \<not> credentials_hold s r d u"
  shows "\<exists>actor reason. password_decision s dr r (credential_of (FormValue r ''email'') d) = refuse_login s dr r actor reason"
proof -
  let ?c = "credential_of (FormValue r ''email'') d"
  let ?ver = "VerifyPassword (idkey s) (bcrypt s) (FormValue r ''password'') (cr_Hash ?c)"
  have "\<not> cr_HasPassword ?c \<or> cr_Disabled ?c \<or> ?ver = None \<or> \<not> v_ok (the ?ver)"
  proof (rule ccontr)
    assume "\<not> ?thesis"
    then have c: "cr_HasPassword ?c" "\<not> cr_Disabled ?c" "?ver \<noteq> None" "v_ok (the ?ver)" by auto
    then obtain u ph where u: "by_email (FormValue r ''email'') d = Some u" "u_password_hash u = Some ph"
      by (auto simp: credential_of_def zero_credential_def split: option.splits)
    with c have "credentials_hold s r d u" by (auto simp: credential_of_def credentials_hold_def)
    with assms show False by blast
  qed
  then show ?thesis unfolding password_decision_def Let_def by (cases ?ver) auto
qed

lemma login_same_answer:
  assumes bad: "\<And>d u. users d = us \<Longrightarrow> \<not> credentials_hold s r d u" "\<And>d u. users d = vs \<Longrightarrow> \<not> credentials_hold s r d u"
  shows "same_answer us vs (handlePasswordLogin s dr r) (handlePasswordLogin s dr r)"
proof -
  let ?email = "FormValue r ''email''"
  let ?ok = "\<lambda>c d. same_answer us vs (password_decision s dr r c) (password_decision s dr r d)"
  have "?ok (credential_of ?email d) (credential_of ?email e)" if "users d = us" "users e = vs" for d e
  proof -
    note us = that
    obtain a x where c: "password_decision s dr r (credential_of ?email d) = refuse_login s dr r a x"
      using decision_refuses [OF bad(1) [OF us(1)]] by blast
    obtain b y where e: "password_decision s dr r (credential_of ?email e) = refuse_login s dr r b y"
      using decision_refuses [OF bad(2) [OF us(2)]] by blast
    show ?thesis unfolding c e by (rule refuse_same_answer)
  qed
  then have "related us vs ?ok (PasswordCredential ?email) (PasswordCredential ?email)"
    unfolding PasswordCredential_query by (rule related_query [of us vs ?ok "credential_of ?email" "credential_of ?email"])
  from related_try [OF this]
  have "same_answer us vs (attempt (PasswordCredential ?email) (\<lambda>_. retM internal_error) (password_decision s dr r))
     (attempt (PasswordCredential ?email) (\<lambda>_. retM internal_error) (password_decision s dr r))"
    unfolding attempt_def by (rule same_answer_bind) (auto elim!: rel_sum.cases)
  then show ?thesis
    unfolding handlePasswordLogin_def Let_def by (auto intro!: same_answer_guard related_checkLoginRate split: option.splits)
qed

text \<open>
  C39. No answer tells whether an account exists. Take any two databases (with and without an account
  for the address of the form, say) in which a visitor meets the same rate-limit buckets and the
  same failures: signup, reset request and magic-link request give the same answer, and so does
  a password login whose credentials hold in neither, be the address unknown, the account
  disabled, without a password, or the password wrong.
\<close>

theorem answers_reveal_no_account:
  assumes "same_view w v"
  shows "fst (handleSignup s dr r w) = fst (handleSignup s dr r v) \<and>
    fst (handleResetRequest s dr r w) = fst (handleResetRequest s dr r v) \<and>
    fst (handleMagicLinkRequest s dr r w) = fst (handleMagicLinkRequest s dr r v) \<and>
    ((\<forall>u. \<not> credentials_hold s r (wdb w) u) \<and> (\<forall>u. \<not> credentials_hold s r (wdb v) u) \<longrightarrow>
      fst (handlePasswordLogin s dr r w) = fst (handlePasswordLogin s dr r v))"
proof (intro conjI impI)
  let ?us = "users (wdb w)" and ?vs = "users (wdb v)"
  have vw: "view ?us ?vs w v" using assms by (simp add: view_refl_users)
  note ans = signup_same_answer [of ?us ?vs s dr r] reset_same_answer [of ?us ?vs s dr r] magiclink_same_answer [of ?us ?vs s dr r]
  show "fst (handleSignup s dr r w) = fst (handleSignup s dr r v)"
    "fst (handleResetRequest s dr r w) = fst (handleResetRequest s dr r v)"
    "fst (handleMagicLinkRequest s dr r w) = fst (handleMagicLinkRequest s dr r v)"
    using ans vw by (simp_all add: same_answer_def)
  assume bad: "(\<forall>u. \<not> credentials_hold s r (wdb w) u) \<and> (\<forall>u. \<not> credentials_hold s r (wdb v) u)"
  have "same_answer ?us ?vs (handlePasswordLogin s dr r) (handlePasswordLogin s dr r)"
    by (rule login_same_answer) (use bad in \<open>simp_all add: credentials_hold_def by_email_def\<close>)
  with vw show "fst (handlePasswordLogin s dr r w) = fst (handlePasswordLogin s dr r v)" by (simp add: same_answer_def)
qed

text \<open>The sample world, and the same one without its account.\<close>

definition emptied_world :: world where
  "emptied_world = \<lparr>wdb = empty_db, faults = [], counters = []\<rparr>"

definition sample_form :: request where
  "sample_form = sample_request ((\<lambda>_. [])(''email'' := ''a@b.c'', ''password'' := ''longenough''))"

theorem answers_reveal_no_account_witness:
  "same_view sample_world emptied_world \<and> by_email ''a@b.c'' (wdb sample_world) \<noteq> None \<and> by_email ''a@b.c'' (wdb emptied_world) = None \<and>
   fst (handleResetRequest sample_server sample_draws sample_form sample_world) =
     fst (handleResetRequest sample_server sample_draws sample_form emptied_world) \<and>
   fst (handlePasswordLogin sample_server sample_draws sample_form sample_world) =
     fst (handlePasswordLogin sample_server sample_draws sample_form emptied_world)"
proof -
  have v: "same_view sample_world emptied_world"
    by (simp add: same_view_def sample_world_def emptied_world_def empty_db_def)
  have e: "by_email ''a@b.c'' (wdb sample_world) = Some sample_user" "by_email ''a@b.c'' (wdb emptied_world) = None"
    by (simp_all add: by_email_def sample_world_def emptied_world_def empty_db_def sql_row_def sample_user_def)
  then have "\<forall>u. \<not> credentials_hold sample_server sample_form (wdb sample_world) u"
    "\<forall>u. \<not> credentials_hold sample_server sample_form (wdb emptied_world) u"
    by (simp_all add: credentials_hold_def sample_form_def sample_user_def)
  with answers_reveal_no_account [OF v, of sample_server sample_draws sample_form] v e show ?thesis by simp
qed

end
