(* ===== verification/Oauth.thy ===== *)
theory Oauth
  imports Handlers "HOL-Library.Char_ord" "HOL-Library.List_Lexorder"
begin

text \<open>
  The identity providers (\<open>internal/oauth\<close>) and their registration (\<open>buildProviders\<close> in
  \<open>internal/http/server.go\<close>). The network is a function from an outgoing request to a reply
  (\<open>NoReply\<close>: the client returned an error); a body is read up to the code's limit. SHA-256, RSA
  and ECDSA, the PEM and PKCS#8 parsers and the JSON codec are fields of \<open>idp_lib\<close>. The cache of
  signing keys is part of a provider's state and is returned updated. A Go panic is the error
  \<open>Panic\<close>.
\<close>

subsection \<open>\<open>url.Values\<close>\<close>

definition unreserved :: "char \<Rightarrow> bool" where
  "unreserved c \<longleftrightarrow>
     (let n = (of_char c :: nat) in
      48 \<le> n \<and> n \<le> 57 \<or> 65 \<le> n \<and> n \<le> 90 \<or> 97 \<le> n \<and> n \<le> 122
      \<or> c = CHR ''-'' \<or> c = CHR ''_'' \<or> c = CHR ''.'' \<or> c = CHR ''~'')"

definition upper_hex :: "nat \<Rightarrow> char" where
  "upper_hex n = (if n < 10 then char_of (48 + n) else char_of (55 + n))"

fun QueryEscape :: "string \<Rightarrow> string" where
  "QueryEscape [] = []"
| "QueryEscape (c # cs) =
     (if unreserved c then [c] else if c = CHR '' '' then ''+''
      else [CHR ''%'', upper_hex (of_char c div 16), upper_hex (of_char c mod 16)]) @ QueryEscape cs"

type_synonym url_values = "(string \<times> string) list"

definition Values_Encode :: "url_values \<Rightarrow> string" where
  "Values_Encode vs = Join CHR ''&'' (map (\<lambda>(k, v). QueryEscape k @ CHR ''='' # QueryEscape v) (sort_key fst vs))"

subsection \<open>The outside\<close>

record outgoing =
  o_Method :: string
  o_URL :: string
  o_Headers :: "(string \<times> string) list"
  o_Body :: string

datatype reply = NoReply | Reply int bytes

type_synonym network = "outgoing \<Rightarrow> reply"

record IDTokenClaims =
  cl_Iss :: string
  cl_Aud :: string
  cl_Sub :: string
  cl_Exp :: int
  cl_Email :: string
  cl_EmailVerified :: bool
  cl_Name :: string
  cl_Picture :: string

record jwk =
  jwk_Kid :: string
  jwk_Kty :: string
  jwk_Alg :: string
  jwk_N :: string
  jwk_E :: string

record rsa_key =
  rsa_N :: nat
  rsa_E :: int

record ec_key =
  ec_order :: nat
  ec_D :: nat

datatype private_key = ECKey ec_key | OtherKey

record github_user =
  gu_ID :: int
  gu_Name :: string
  gu_AvatarURL :: string

record github_email =
  ge_Email :: string
  ge_Primary :: bool
  ge_Verified :: bool

record idp_lib =
  sha256 :: "bytes \<Rightarrow> bytes"
  VerifyPKCS1v15 :: "rsa_key \<Rightarrow> bytes \<Rightarrow> bytes \<Rightarrow> bool"
  ecdsa_Sign :: "ec_key \<Rightarrow> bytes \<Rightarrow> (nat \<times> nat) option"
  pem_Decode :: "string \<Rightarrow> bytes option"
  ParsePKCS8PrivateKey :: "bytes \<Rightarrow> private_key option"
  json_quote :: "string \<Rightarrow> string"
  json_header :: "bytes \<Rightarrow> (string \<times> string) option"
  json_claims :: "bytes \<Rightarrow> IDTokenClaims option"
  json_jwks :: "bytes \<Rightarrow> jwk list option"
  json_id_token :: "bytes \<Rightarrow> string option"
  json_access_token :: "bytes \<Rightarrow> string option"
  json_user :: "bytes \<Rightarrow> github_user option"
  json_emails :: "bytes \<Rightarrow> github_email list option"

datatype oauth_err =
    ErrFetch | ErrStatus int | ErrDecode | ErrMissingToken
  | ErrMalformedJWT | ErrJWTHeader | ErrJWTHeaderJSON | ErrJWTAlg string | ErrUnknownKid string
  | ErrJWTSig | ErrSignatureInvalid | ErrJWTPayload | ErrJWTPayloadJSON
  | ErrBadIssuer string | ErrBadAudience string | ErrIDTokenExpired
  | ErrEmailNotVerified | ErrNoVerifiedPrimaryEmail
  | ErrNoPEMBlock | ErrPKCS8 | ErrNotEC | ErrSign
  | Panic

text \<open>One call: send, insist on status 200, decode at most \<open>limit\<close> bytes of the body.\<close>

definition fetch :: "network \<Rightarrow> nat \<Rightarrow> (bytes \<Rightarrow> 'a option) \<Rightarrow> outgoing \<Rightarrow> oauth_err + 'a" where
  "fetch net limit decode req =
     (case net req of
        NoReply \<Rightarrow> Inl ErrFetch
      | Reply st body \<Rightarrow>
          if st \<noteq> 200 then Inl (ErrStatus st)
          else case decode (take limit body) of None \<Rightarrow> Inl ErrDecode | Some x \<Rightarrow> Inr x)"

definition post_form :: "string \<Rightarrow> (string \<times> string) list \<Rightarrow> url_values \<Rightarrow> outgoing" where
  "post_form u hs form =
     \<lparr>o_Method = ''POST'', o_URL = u, o_Headers = (''Content-Type'', ''application/x-www-form-urlencoded'') # hs,
      o_Body = Values_Encode form\<rparr>"

definition get_bearer :: "string \<Rightarrow> string \<Rightarrow> outgoing" where
  "get_bearer u token =
     \<lparr>o_Method = ''GET'', o_URL = u,
      o_Headers = [(''Authorization'', ''Bearer '' @ token), (''Accept'', ''application/vnd.github+json'')], o_Body = []\<rparr>"

definition get_plain :: "string \<Rightarrow> outgoing" where
  "get_plain u = \<lparr>o_Method = ''GET'', o_URL = u, o_Headers = [], o_Body = []\<rparr>"

definition limit_64K :: nat where "limit_64K = 64 * 1024"
definition limit_256K :: nat where "limit_256K = 256 * 1024"

subsection \<open>PKCE (\<open>oauth.go\<close>)\<close>

record pkce =
  Verifier :: string
  Challenge :: string

definition pkceChallengeFromVerifier :: "idp_lib \<Rightarrow> string \<Rightarrow> string" where
  "pkceChallengeFromVerifier lib verifier = EncodeToString RawURLEncoding (sha256 lib (bytes_of verifier))"

definition NewPKCE :: "idp_lib \<Rightarrow> bytes \<Rightarrow> pkce" where
  "NewPKCE lib b =
     (let verifier = EncodeToString RawURLEncoding b
      in \<lparr>Verifier = verifier, Challenge = pkceChallengeFromVerifier lib verifier\<rparr>)"

subsection \<open>Signing keys and id tokens (\<open>jwks.go\<close>)\<close>

record jwksCache =
  jwks_url :: string
  jwks_keys :: "string \<rightharpoonup> rsa_key"
  fetchedAt :: gotime
  jwks_ttl :: duration

definition newJWKSCache :: "string \<Rightarrow> jwksCache" where
  "newJWKSCache u = \<lparr>jwks_url = u, jwks_keys = Map.empty, fetchedAt = zero_time, jwks_ttl = Hour\<rparr>"

definition SetBytes :: "bytes \<Rightarrow> nat" where
  "SetBytes bs = foldl (\<lambda>n b. n * 256 + unat b) 0 bs"

text \<open>
  The exponent is copied right-aligned into eight bytes (a longer one makes the slice bound
  negative, a panic) and its \<open>uint64\<close> value converted to \<open>int\<close>.
\<close>

definition toRSA :: "jwk \<Rightarrow> oauth_err + rsa_key" where
  "toRSA k =
     (case DecodeString RawURLEncoding (jwk_N k) of
        None \<Rightarrow> Inl ErrDecode
      | Some nb \<Rightarrow> (case DecodeString RawURLEncoding (jwk_E k) of
          None \<Rightarrow> Inl ErrDecode
        | Some eb \<Rightarrow>
            if 8 < length eb then Inl Panic
            else Inr \<lparr>rsa_N = SetBytes nb, rsa_E = wrap64 (int (SetBytes eb))\<rparr>))"

fun parse_keys :: "jwk list \<Rightarrow> (string \<rightharpoonup> rsa_key) \<Rightarrow> oauth_err + (string \<rightharpoonup> rsa_key)" where
  "parse_keys [] parsed = Inr parsed"
| "parse_keys (k # ks) parsed =
     (if jwk_Kty k \<noteq> ''RSA'' then parse_keys ks parsed
      else case toRSA k of
        Inl e \<Rightarrow> if e = Panic then Inl Panic else parse_keys ks parsed
      | Inr pub \<Rightarrow> parse_keys ks (parsed(jwk_Kid k \<mapsto> pub)))"

definition refresh :: "idp_lib \<Rightarrow> network \<Rightarrow> gotime \<Rightarrow> jwksCache \<Rightarrow> oauth_err option \<times> jwksCache" where
  "refresh lib net now c =
     (case fetch net limit_256K (json_jwks lib) (get_plain (jwks_url c)) of
        Inl e \<Rightarrow> (Some e, c)
      | Inr ks \<Rightarrow> (case parse_keys ks Map.empty of
          Inl e \<Rightarrow> (Some e, c)
        | Inr parsed \<Rightarrow> (None, c\<lparr>jwks_keys := parsed, fetchedAt := now\<rparr>)))"

text \<open>The age of the cache is computed and ignored: a cached key is used whatever its age.\<close>

definition key :: "idp_lib \<Rightarrow> network \<Rightarrow> gotime \<Rightarrow> jwksCache \<Rightarrow> string \<Rightarrow> (oauth_err + rsa_key) \<times> jwksCache" where
  "key lib net now c kid =
     (case jwks_keys c kid of
        Some k \<Rightarrow> (Inr k, c)
      | None \<Rightarrow> (case refresh lib net now c of
          (Some e, c') \<Rightarrow> (Inl e, c')
        | (None, c') \<Rightarrow> (case jwks_keys c' kid of
            None \<Rightarrow> (Inl (ErrUnknownKid kid), c')
          | Some k \<Rightarrow> (Inr k, c'))))"

text \<open>From the key on: signature, payload, issuer, audience, expiry.\<close>

definition verify_signed :: "idp_lib \<Rightarrow> gotime \<Rightarrow> rsa_key \<Rightarrow> string \<Rightarrow> string \<Rightarrow> string \<Rightarrow> string \<Rightarrow> string
    \<Rightarrow> oauth_err + IDTokenClaims" where
  "verify_signed lib now pub p0 p1 p2 wantIss wantAud =
     (case DecodeString RawURLEncoding p2 of
        None \<Rightarrow> Inl ErrJWTSig
      | Some sig \<Rightarrow>
          if \<not> VerifyPKCS1v15 lib pub (sha256 lib (bytes_of (p0 @ ''.'' @ p1))) sig then Inl ErrSignatureInvalid
          else case DecodeString RawURLEncoding p1 of
            None \<Rightarrow> Inl ErrJWTPayload
          | Some payloadJSON \<Rightarrow> (case json_claims lib payloadJSON of
              None \<Rightarrow> Inl ErrJWTPayloadJSON
            | Some claims \<Rightarrow>
                if cl_Iss claims \<noteq> wantIss \<and> cl_Iss claims \<noteq> ''https://'' @ wantIss
                then Inl (ErrBadIssuer (cl_Iss claims))
                else if cl_Aud claims \<noteq> wantAud then Inl (ErrBadAudience (cl_Aud claims))
                else if cl_Exp claims \<le> Unix now then Inl ErrIDTokenExpired
                else Inr claims))"

text \<open>\<open>tf\<close> is the clock when keys are fetched, \<open>now\<close> the clock when the expiry is checked.\<close>

definition verifyIDToken :: "idp_lib \<Rightarrow> network \<Rightarrow> gotime \<Rightarrow> gotime \<Rightarrow> jwksCache \<Rightarrow> string \<Rightarrow> string \<Rightarrow> string
    \<Rightarrow> (oauth_err + IDTokenClaims) \<times> jwksCache" where
  "verifyIDToken lib net tf now c raw wantIss wantAud =
     (case Split CHR ''.'' raw of
        [p0, p1, p2] \<Rightarrow>
          (case DecodeString RawURLEncoding p0 of
             None \<Rightarrow> (Inl ErrJWTHeader, c)
           | Some headerJSON \<Rightarrow> (case json_header lib headerJSON of
               None \<Rightarrow> (Inl ErrJWTHeaderJSON, c)
             | Some (alg, kid) \<Rightarrow>
                 if alg \<noteq> ''RS256'' then (Inl (ErrJWTAlg alg), c)
                 else case key lib net tf c kid of
                   (Inl e, c') \<Rightarrow> (Inl e, c')
                 | (Inr pub, c') \<Rightarrow> (verify_signed lib now pub p0 p1 p2 wantIss wantAud, c')))
      | _ \<Rightarrow> (Inl ErrMalformedJWT, c))"

subsection \<open>Google (\<open>google.go\<close>)\<close>

definition strPtr :: "string \<Rightarrow> string option" where
  "strPtr s = (if s = [] then None else Some s)"

definition googleAuthorizeURL :: string where "googleAuthorizeURL = ''https://accounts.google.com/o/oauth2/v2/auth''"
definition googleTokenURL :: string where "googleTokenURL = ''https://oauth2.googleapis.com/token''"
definition googleJWKSURL :: string where "googleJWKSURL = ''https://www.googleapis.com/oauth2/v3/certs''"
definition googleIssuer :: string where "googleIssuer = ''accounts.google.com''"

record google =
  g_clientID :: string
  g_clientSecret :: string
  g_redirectURI :: string
  g_jwks :: jwksCache

definition NewGoogle :: "string \<Rightarrow> string \<Rightarrow> string \<Rightarrow> google" where
  "NewGoogle clientID clientSecret redirectURI =
     \<lparr>g_clientID = clientID, g_clientSecret = clientSecret, g_redirectURI = redirectURI,
      g_jwks = newJWKSCache googleJWKSURL\<rparr>"

definition google_AuthorizeURL :: "idp_lib \<Rightarrow> google \<Rightarrow> string \<Rightarrow> string \<Rightarrow> string" where
  "google_AuthorizeURL lib g state codeVerifier =
     googleAuthorizeURL @ ''?'' @ Values_Encode
       [(''client_id'', g_clientID g), (''redirect_uri'', g_redirectURI g), (''response_type'', ''code''),
        (''scope'', ''openid email profile''), (''state'', state),
        (''code_challenge'', pkceChallengeFromVerifier lib codeVerifier), (''code_challenge_method'', ''S256''),
        (''access_type'', ''online''), (''prompt'', ''select_account'')]"

definition google_token_request :: "google \<Rightarrow> string \<Rightarrow> string \<Rightarrow> outgoing" where
  "google_token_request g code codeVerifier =
     post_form googleTokenURL []
       [(''client_id'', g_clientID g), (''client_secret'', g_clientSecret g), (''code'', code),
        (''grant_type'', ''authorization_code''), (''redirect_uri'', g_redirectURI g), (''code_verifier'', codeVerifier)]"

definition google_Exchange :: "idp_lib \<Rightarrow> network \<Rightarrow> gotime \<Rightarrow> gotime \<Rightarrow> google \<Rightarrow> string \<Rightarrow> string
    \<Rightarrow> (oauth_err + oauth_profile) \<times> google" where
  "google_Exchange lib net tf now g code codeVerifier =
     (case fetch net limit_64K (json_id_token lib) (google_token_request g code codeVerifier) of
        Inl e \<Rightarrow> (Inl e, g)
      | Inr idToken \<Rightarrow>
          if idToken = [] then (Inl ErrMissingToken, g)
          else case verifyIDToken lib net tf now (g_jwks g) idToken googleIssuer (g_clientID g) of
            (Inl e, c) \<Rightarrow> (Inl e, g\<lparr>g_jwks := c\<rparr>)
          | (Inr claims, c) \<Rightarrow>
              (if \<not> cl_EmailVerified claims then Inl ErrEmailNotVerified
               else Inr \<lparr>p_Provider = ''google'', p_Sub = cl_Sub claims, p_Email = cl_Email claims, p_EmailVerified = True,
                         p_Name = strPtr (cl_Name claims), p_PictureURL = strPtr (cl_Picture claims)\<rparr>,
               g\<lparr>g_jwks := c\<rparr>))"

subsection \<open>GitHub (\<open>github.go\<close>)\<close>

definition githubAuthorizeURL :: string where "githubAuthorizeURL = ''https://github.com/login/oauth/authorize''"
definition githubTokenURL :: string where "githubTokenURL = ''https://github.com/login/oauth/access_token''"
definition githubUserURL :: string where "githubUserURL = ''https://api.github.com/user''"
definition githubEmailsURL :: string where "githubEmailsURL = ''https://api.github.com/user/emails''"

record github =
  h_clientID :: string
  h_clientSecret :: string
  h_redirectURI :: string

definition NewGitHub :: "string \<Rightarrow> string \<Rightarrow> string \<Rightarrow> github" where
  "NewGitHub clientID clientSecret redirectURI =
     \<lparr>h_clientID = clientID, h_clientSecret = clientSecret, h_redirectURI = redirectURI\<rparr>"

definition github_AuthorizeURL :: "idp_lib \<Rightarrow> github \<Rightarrow> string \<Rightarrow> string \<Rightarrow> string" where
  "github_AuthorizeURL lib g state codeVerifier =
     githubAuthorizeURL @ ''?'' @ Values_Encode
       [(''client_id'', h_clientID g), (''redirect_uri'', h_redirectURI g), (''scope'', ''read:user user:email''),
        (''state'', state), (''code_challenge'', pkceChallengeFromVerifier lib codeVerifier),
        (''code_challenge_method'', ''S256'')]"

definition github_token_request :: "github \<Rightarrow> string \<Rightarrow> string \<Rightarrow> outgoing" where
  "github_token_request g code codeVerifier =
     post_form githubTokenURL [(''Accept'', ''application/json'')]
       [(''client_id'', h_clientID g), (''client_secret'', h_clientSecret g), (''code'', code),
        (''redirect_uri'', h_redirectURI g), (''code_verifier'', codeVerifier)]"

definition fetchUser :: "idp_lib \<Rightarrow> network \<Rightarrow> string \<Rightarrow> oauth_err + oauth_profile" where
  "fetchUser lib net token =
     (case fetch net limit_64K (json_user lib) (get_bearer githubUserURL token) of
        Inl e \<Rightarrow> Inl e
      | Inr u \<Rightarrow> Inr \<lparr>p_Provider = ''github'', p_Sub = Itoa (gu_ID u), p_Email = [], p_EmailVerified = False,
                      p_Name = strPtr (gu_Name u), p_PictureURL = strPtr (gu_AvatarURL u)\<rparr>)"

fun primary_verified :: "github_email list \<Rightarrow> oauth_err + string" where
  "primary_verified [] = Inl ErrNoVerifiedPrimaryEmail"
| "primary_verified (e # es) = (if ge_Primary e \<and> ge_Verified e then Inr (ge_Email e) else primary_verified es)"

definition fetchPrimaryEmail :: "idp_lib \<Rightarrow> network \<Rightarrow> string \<Rightarrow> oauth_err + string" where
  "fetchPrimaryEmail lib net token =
     (case fetch net limit_64K (json_emails lib) (get_bearer githubEmailsURL token) of
        Inl e \<Rightarrow> Inl e
      | Inr emails \<Rightarrow> primary_verified emails)"

definition github_Exchange :: "idp_lib \<Rightarrow> network \<Rightarrow> github \<Rightarrow> string \<Rightarrow> string \<Rightarrow> oauth_err + oauth_profile" where
  "github_Exchange lib net g code codeVerifier =
     (case fetch net limit_64K (json_access_token lib) (github_token_request g code codeVerifier) of
        Inl e \<Rightarrow> Inl e
      | Inr token \<Rightarrow>
          if token = [] then Inl ErrMissingToken
          else case fetchUser lib net token of
            Inl e \<Rightarrow> Inl e
          | Inr profile \<Rightarrow> (case fetchPrimaryEmail lib net token of
              Inl e \<Rightarrow> Inl e
            | Inr email \<Rightarrow> Inr (profile\<lparr>p_Email := email, p_EmailVerified := True\<rparr>)))"

subsection \<open>Apple (\<open>apple.go\<close>)\<close>

definition appleAuthorizeURL :: string where "appleAuthorizeURL = ''https://appleid.apple.com/auth/authorize''"
definition appleTokenURL :: string where "appleTokenURL = ''https://appleid.apple.com/auth/token''"
definition appleJWKSURL :: string where "appleJWKSURL = ''https://appleid.apple.com/auth/keys''"
definition appleIssuer :: string where "appleIssuer = ''https://appleid.apple.com''"

record apple =
  a_clientID :: string
  a_teamID :: string
  a_keyID :: string
  a_privateKey :: ec_key
  a_redirectURI :: string
  a_jwks :: jwksCache

definition parseECPrivateKey :: "idp_lib \<Rightarrow> string \<Rightarrow> oauth_err + ec_key" where
  "parseECPrivateKey lib pemStr =
     (case pem_Decode lib (TrimSpace pemStr) of
        None \<Rightarrow> Inl ErrNoPEMBlock
      | Some block \<Rightarrow> (case ParsePKCS8PrivateKey lib block of
          None \<Rightarrow> Inl ErrPKCS8
        | Some OtherKey \<Rightarrow> Inl ErrNotEC
        | Some (ECKey ec) \<Rightarrow> Inr ec))"

definition NewApple :: "idp_lib \<Rightarrow> string \<Rightarrow> string \<Rightarrow> string \<Rightarrow> string \<Rightarrow> string \<Rightarrow> oauth_err + apple" where
  "NewApple lib clientID teamID keyID privateKeyPEM redirectURI =
     (case parseECPrivateKey lib privateKeyPEM of
        Inl e \<Rightarrow> Inl e
      | Inr k \<Rightarrow> Inr \<lparr>a_clientID = clientID, a_teamID = teamID, a_keyID = keyID, a_privateKey = k,
                      a_redirectURI = redirectURI, a_jwks = newJWKSCache appleJWKSURL\<rparr>)"

definition apple_AuthorizeURL :: "idp_lib \<Rightarrow> apple \<Rightarrow> string \<Rightarrow> string \<Rightarrow> string" where
  "apple_AuthorizeURL lib a state codeVerifier =
     appleAuthorizeURL @ ''?'' @ Values_Encode
       [(''client_id'', a_clientID a), (''redirect_uri'', a_redirectURI a), (''response_type'', ''code''),
        (''scope'', ''name email''), (''state'', state), (''response_mode'', ''query''),
        (''code_challenge'', pkceChallengeFromVerifier lib codeVerifier), (''code_challenge_method'', ''S256'')]"

text \<open>\<open>FillBytes\<close>: big-endian, zero-padded to the width; a value that does not fit panics.\<close>

fun be_bytes :: "nat \<Rightarrow> nat \<Rightarrow> bytes" where
  "be_bytes 0 n = []"
| "be_bytes (Suc w) n = be_bytes w (n div 256) @ [of_nat (n mod 256)]"

definition FillBytes :: "nat \<Rightarrow> nat \<Rightarrow> bytes option" where
  "FillBytes w n = (if n < 256 ^ w then Some (be_bytes w n) else None)"

text \<open>\<open>json.Marshal\<close> of a map: the keys in order, the values already encoded.\<close>

definition json_object :: "(string \<Rightarrow> string) \<Rightarrow> (string \<times> string) list \<Rightarrow> string" where
  "json_object quote kvs = ''{'' @ Join CHR '','' (map (\<lambda>(k, v). quote k @ '':'' @ v) (sort_key fst kvs)) @ ''}''"

definition client_secret_input :: "idp_lib \<Rightarrow> gotime \<Rightarrow> apple \<Rightarrow> string" where
  "client_secret_input lib now a =
     (let str = json_quote lib;
          hb = json_object str [(''alg'', str ''ES256''), (''kid'', str (a_keyID a)), (''typ'', str ''JWT'')];
          cb = json_object str [(''iss'', str (a_teamID a)), (''iat'', Itoa (Unix now)),
                 (''exp'', Itoa (Unix (time_add now (5 * Minute)))), (''aud'', str appleIssuer), (''sub'', str (a_clientID a))]
      in EncodeToString RawURLEncoding (bytes_of hb) @ ''.'' @ EncodeToString RawURLEncoding (bytes_of cb))"

definition clientSecretJWT :: "idp_lib \<Rightarrow> gotime \<Rightarrow> apple \<Rightarrow> oauth_err + string" where
  "clientSecretJWT lib now a =
     (let signingInput = client_secret_input lib now a in
      case ecdsa_Sign lib (a_privateKey a) (sha256 lib (bytes_of signingInput)) of
        None \<Rightarrow> Inl ErrSign
      | Some (r, s) \<Rightarrow> (case (FillBytes 32 r, FillBytes 32 s) of
          (Some rb, Some sb) \<Rightarrow> Inr (signingInput @ ''.'' @ EncodeToString RawURLEncoding (rb @ sb))
        | _ \<Rightarrow> Inl Panic))"

definition apple_token_request :: "apple \<Rightarrow> string \<Rightarrow> string \<Rightarrow> string \<Rightarrow> outgoing" where
  "apple_token_request a secret code codeVerifier =
     post_form appleTokenURL []
       [(''client_id'', a_clientID a), (''client_secret'', secret), (''code'', code),
        (''grant_type'', ''authorization_code''), (''redirect_uri'', a_redirectURI a), (''code_verifier'', codeVerifier)]"

text \<open>\<open>ts\<close> is the clock when the client secret is signed.\<close>

definition apple_Exchange :: "idp_lib \<Rightarrow> network \<Rightarrow> gotime \<Rightarrow> gotime \<Rightarrow> gotime \<Rightarrow> apple \<Rightarrow> string \<Rightarrow> string
    \<Rightarrow> (oauth_err + oauth_profile) \<times> apple" where
  "apple_Exchange lib net ts tf now a code codeVerifier =
     (case clientSecretJWT lib ts a of
        Inl e \<Rightarrow> (Inl e, a)
      | Inr secret \<Rightarrow> (case fetch net limit_64K (json_id_token lib) (apple_token_request a secret code codeVerifier) of
          Inl e \<Rightarrow> (Inl e, a)
        | Inr idToken \<Rightarrow>
            if idToken = [] then (Inl ErrMissingToken, a)
            else case verifyIDToken lib net tf now (a_jwks a) idToken appleIssuer (a_clientID a) of
              (Inl e, c) \<Rightarrow> (Inl e, a\<lparr>a_jwks := c\<rparr>)
            | (Inr claims, c) \<Rightarrow>
                (if \<not> cl_EmailVerified claims then Inl ErrEmailNotVerified
                 else Inr \<lparr>p_Provider = ''apple'', p_Sub = cl_Sub claims, p_Email = cl_Email claims, p_EmailVerified = True,
                           p_Name = strPtr (cl_Name claims), p_PictureURL = None\<rparr>,
                 a\<lparr>a_jwks := c\<rparr>)))"

subsection \<open>The registry (\<open>oauth.go\<close>) and its construction (\<open>buildProviders\<close>)\<close>

datatype idp = GoogleP google | GitHubP github | AppleP apple

primrec Name :: "idp \<Rightarrow> string" where
  "Name (GoogleP g) = ''google''"
| "Name (GitHubP g) = ''github''"
| "Name (AppleP a) = ''apple''"

primrec idp_AuthorizeURL :: "idp_lib \<Rightarrow> idp \<Rightarrow> string \<Rightarrow> string \<Rightarrow> string" where
  "idp_AuthorizeURL lib (GoogleP g) state v = google_AuthorizeURL lib g state v"
| "idp_AuthorizeURL lib (GitHubP g) state v = github_AuthorizeURL lib g state v"
| "idp_AuthorizeURL lib (AppleP a) state v = apple_AuthorizeURL lib a state v"

text \<open>The readings of the clock during one exchange: signing, fetching keys, checking the expiry.\<close>

record exchange_clock =
  t_sign :: gotime
  t_fetch :: gotime
  t_check :: gotime

primrec idp_Exchange :: "idp_lib \<Rightarrow> network \<Rightarrow> exchange_clock \<Rightarrow> idp \<Rightarrow> string \<Rightarrow> string
    \<Rightarrow> (oauth_err + oauth_profile) \<times> idp" where
  "idp_Exchange lib net t (GoogleP g) c v = apsnd GoogleP (google_Exchange lib net (t_fetch t) (t_check t) g c v)"
| "idp_Exchange lib net t (GitHubP g) c v = (github_Exchange lib net g c v, GitHubP g)"
| "idp_Exchange lib net t (AppleP a) c v = apsnd AppleP (apple_Exchange lib net (t_sign t) (t_fetch t) (t_check t) a c v)"

type_synonym registry = "string \<rightharpoonup> idp"

definition NewRegistry :: registry where "NewRegistry = Map.empty"

definition Add :: "idp \<Rightarrow> registry \<Rightarrow> registry" where "Add p reg = reg(Name p \<mapsto> p)"

definition Get :: "registry \<Rightarrow> string \<Rightarrow> idp option" where "Get reg name = reg name"

text \<open>The order of \<open>Names\<close> is Go's map order, so it is a set.\<close>

definition Names :: "registry \<Rightarrow> string set" where "Names reg = dom reg"

definition buildProviders :: "idp_lib \<Rightarrow> config \<Rightarrow> oauth_err + registry" where
  "buildProviders lib c =
     (let r1 = (if oauth_Enabled (Google c)
                then Add (GoogleP (NewGoogle (ClientID (Google c)) (ClientSecret (Google c)) (RedirectURI (Google c)))) NewRegistry
                else NewRegistry);
          r2 = (if oauth_Enabled (GitHub c)
                then Add (GitHubP (NewGitHub (ClientID (GitHub c)) (ClientSecret (GitHub c)) (RedirectURI (GitHub c)))) r1
                else r1)
      in if apple_Enabled (Apple c)
         then case NewApple lib (apple_ClientID (Apple c)) (TeamID (Apple c)) (KeyID (Apple c)) (PrivateKey (Apple c))
                     (apple_RedirectURI (Apple c)) of
             Inl e \<Rightarrow> Inl e
           | Inr ap \<Rightarrow> Inr (Add (AppleP ap) r2)
         else Inr r2)"

text \<open>A provider as the handlers see it during one request.\<close>

definition as_provider :: "idp_lib \<Rightarrow> network \<Rightarrow> exchange_clock \<Rightarrow> idp \<Rightarrow> provider" where
  "as_provider lib net t p =
     \<lparr>AuthorizeURL = idp_AuthorizeURL lib p,
      Exchange = (\<lambda>c v. case fst (idp_Exchange lib net t p c v) of
        Inl e \<Rightarrow> if e = Panic then ExchangePanics else ExchangeFailed
      | Inr profile \<Rightarrow> Exchanged profile)\<rparr>"

end
