(* ===== verification/Oauth_Safety.thy ===== *)
theory Oauth_Safety
  imports Oauth Handler_Safety
begin

text \<open>
  What the providers promise. An id token is accepted exactly when it is vouched for: three parts,
  RS256, a signature under a key of the provider's published set, and issuer, audience and expiry
  in order. A registry that grew out of \<open>buildProviders\<close> only ever trusts keys some reply of the
  provider's key endpoint contained. The contract a provider offers the login callback is the
  locale \<open>provider_contract\<close>, interpreted for every provider of the registry: the callback
  writes nothing unless the state cookie matches and the identity is vouched for. Parameters
  written into a URL or a form are read back unchanged.
\<close>

subsection \<open>Replies and keys\<close>

lemma fetch_Inr:
  "fetch net limit decode req = Inr x \<longleftrightarrow> (\<exists>body. net req = Reply 200 body \<and> decode (take limit body) = Some x)"
  by (auto simp: fetch_def split: reply.splits option.splits)

text \<open>The keys a published set stands for: its RSA entries that parse, the last one of an id.\<close>

definition jwk_entry :: "jwk \<Rightarrow> (string \<times> rsa_key) list" where
  "jwk_entry j = (if jwk_Kty j = ''RSA'' then case toRSA j of Inr k \<Rightarrow> [(jwk_Kid j, k)] | Inl _ \<Rightarrow> [] else [])"

definition signing_keys :: "jwk list \<Rightarrow> string \<rightharpoonup> rsa_key" where
  "signing_keys ks = map_of (rev (concat (map jwk_entry ks)))"

definition parseable :: "jwk list \<Rightarrow> bool" where
  "parseable ks \<longleftrightarrow> list_all (\<lambda>j. jwk_Kty j = ''RSA'' \<longrightarrow> toRSA j \<noteq> Inl Panic) ks"

lemma signing_keys_Nil [simp]: "signing_keys [] = Map.empty"
  by (simp add: signing_keys_def)

lemma signing_keys_Cons: "signing_keys (j # ks) = map_of (jwk_entry j) ++ signing_keys ks"
  by (simp add: signing_keys_def jwk_entry_def split: sum.splits)

lemma parse_keys_eq:
  "parse_keys ks m = (if parseable ks then Inr (m ++ signing_keys ks) else Inl Panic)"
proof (induction ks arbitrary: m)
  case (Cons j ks)
  show ?case
  proof (cases "jwk_Kty j = ''RSA''")
    case True
    then show ?thesis
      by (cases "toRSA j") (simp_all add: Cons parseable_def signing_keys_Cons jwk_entry_def)
  next
    case False
    then show ?thesis by (simp add: Cons parseable_def signing_keys_Cons jwk_entry_def)
  qed
qed (simp add: parseable_def)

lemma signing_keys_published:
  assumes "signing_keys ks kid = Some k"
  shows "\<exists>j \<in> set ks. jwk_Kty j = ''RSA'' \<and> jwk_Kid j = kid \<and> toRSA j = Inr k"
proof -
  from assms have "(kid, k) \<in> set (concat (map jwk_entry ks))"
    unfolding signing_keys_def using map_of_SomeD by fastforce
  then obtain j where j: "j \<in> set ks" "(kid, k) \<in> set (jwk_entry j)" by auto
  have "jwk_Kty j = ''RSA'' \<and> jwk_Kid j = kid \<and> toRSA j = Inr k"
    using j(2) by (cases "jwk_Kty j = ''RSA''"; cases "toRSA j") (simp_all add: jwk_entry_def)
  with j(1) show ?thesis by blast
qed

text \<open>What the key endpoint publishes at the moment, if anything can be read from it.\<close>

definition published_keys :: "idp_lib \<Rightarrow> network \<Rightarrow> string \<Rightarrow> (string \<rightharpoonup> rsa_key) option" where
  "published_keys lib net u =
     (case net (get_plain u) of
        NoReply \<Rightarrow> None
      | Reply st body \<Rightarrow> if st \<noteq> 200 then None
          else case json_jwks lib (take limit_256K body) of
            None \<Rightarrow> None
          | Some ks \<Rightarrow> if parseable ks then Some (signing_keys ks) else None)"

definition published :: "idp_lib \<Rightarrow> network \<Rightarrow> string \<Rightarrow> string \<Rightarrow> rsa_key \<Rightarrow> bool" where
  "published lib net u kid k \<longleftrightarrow> (\<exists>m. published_keys lib net u = Some m \<and> m kid = Some k)"

definition trusted :: "idp_lib \<Rightarrow> network \<Rightarrow> jwksCache \<Rightarrow> string \<Rightarrow> rsa_key \<Rightarrow> bool" where
  "trusted lib net c kid k \<longleftrightarrow>
     jwks_keys c kid = Some k \<or> jwks_keys c kid = None \<and> published lib net (jwks_url c) kid k"

lemma refresh_reads:
  "published_keys lib net (jwks_url c) = Some m \<Longrightarrow> refresh lib net now c = (None, c\<lparr>jwks_keys := m, fetchedAt := now\<rparr>)"
  "published_keys lib net (jwks_url c) = None \<Longrightarrow> \<exists>e. refresh lib net now c = (Some e, c)"
  by (auto simp: refresh_def fetch_def published_keys_def parse_keys_eq split: reply.splits option.splits if_splits)

lemma refresh_cases:
  obtains (read) m where "published_keys lib net (jwks_url c) = Some m"
      "refresh lib net now c = (None, c\<lparr>jwks_keys := m, fetchedAt := now\<rparr>)"
  | (failed) e where "published_keys lib net (jwks_url c) = None" "refresh lib net now c = (Some e, c)"
  using refresh_reads(1) [of lib net c _ now] refresh_reads(2) [of lib net c now]
  by (cases "published_keys lib net (jwks_url c)") blast+

lemma key_trusted: "fst (key lib net now c kid) = Inr k \<longleftrightarrow> trusted lib net c kid k"
  by (rule refresh_cases [of lib net c now])
     (auto simp: key_def trusted_def published_def split: option.splits)

text \<open>A lookup leaves the cache as it was or replaces it by a published set.\<close>

lemma key_cache:
  "jwks_url (snd (key lib net now c kid)) = jwks_url c"
  "jwks_keys (snd (key lib net now c kid)) i = Some k \<Longrightarrow> jwks_keys c i = Some k \<or> published lib net (jwks_url c) i k"
  by (rule refresh_cases [of lib net c now]; auto simp: key_def published_def split: option.splits)+

subsection \<open>Id tokens\<close>

lemma Split_parts: "p \<in> set (Split sep s) \<Longrightarrow> sep \<notin> set p"
  by (induction sep s arbitrary: p rule: Split.induct) (auto split: if_splits list.splits)

lemma Split_three:
  "Split sep s = [a, b, c] \<longleftrightarrow>
     s = a @ sep # b @ sep # c \<and> sep \<notin> set a \<and> sep \<notin> set b \<and> sep \<notin> set c"
proof
  assume parts: "Split sep s = [a, b, c]"
  have "s = Join sep (Split sep s)" by simp
  with parts Split_parts [of _ sep s] show "s = a @ sep # b @ sep # c \<and> sep \<notin> set a \<and> sep \<notin> set b \<and> sep \<notin> set c"
    by simp
qed (simp add: Split_append Split_no_sep)

text \<open>The claims of a token the provider's key \<open>k\<close> signed for this client and that has not expired.\<close>

definition vouched_token :: "idp_lib \<Rightarrow> gotime \<Rightarrow> (string \<Rightarrow> rsa_key \<Rightarrow> bool) \<Rightarrow> string \<Rightarrow> string \<Rightarrow> string
    \<Rightarrow> IDTokenClaims \<Rightarrow> bool" where
  "vouched_token lib now trust raw iss aud cl \<longleftrightarrow>
     (\<exists>h p sg kid k hb pb sb.
        raw = h @ ''.'' @ p @ ''.'' @ sg \<and> CHR ''.'' \<notin> set h \<union> set p \<union> set sg
        \<and> DecodeString RawURLEncoding h = Some hb \<and> json_header lib hb = Some (''RS256'', kid) \<and> trust kid k
        \<and> DecodeString RawURLEncoding sg = Some sb
        \<and> VerifyPKCS1v15 lib k (sha256 lib (bytes_of (h @ ''.'' @ p))) sb
        \<and> DecodeString RawURLEncoding p = Some pb \<and> json_claims lib pb = Some cl
        \<and> (cl_Iss cl = iss \<or> cl_Iss cl = ''https://'' @ iss) \<and> cl_Aud cl = aud \<and> Unix now < cl_Exp cl)"

lemma verify_signed_Inr:
  "verify_signed lib now k h p sg iss aud = Inr cl \<longleftrightarrow>
     (\<exists>pb sb. DecodeString RawURLEncoding sg = Some sb
        \<and> VerifyPKCS1v15 lib k (sha256 lib (bytes_of (h @ ''.'' @ p))) sb
        \<and> DecodeString RawURLEncoding p = Some pb \<and> json_claims lib pb = Some cl
        \<and> (cl_Iss cl = iss \<or> cl_Iss cl = ''https://'' @ iss) \<and> cl_Aud cl = aud \<and> Unix now < cl_Exp cl)"
  unfolding verify_signed_def by (auto split: option.splits if_splits)

lemma verifyIDToken_three:
  "fst (verifyIDToken lib net tf now c raw iss aud) = Inr cl \<longleftrightarrow>
     (\<exists>h p sg kid k hb. Split CHR ''.'' raw = [h, p, sg] \<and> DecodeString RawURLEncoding h = Some hb
        \<and> json_header lib hb = Some (''RS256'', kid) \<and> trusted lib net c kid k
        \<and> verify_signed lib now k h p sg iss aud = Inr cl)"
  unfolding verifyIDToken_def key_trusted [of lib net tf, symmetric]
  by (auto split: list.splits option.splits prod.splits sum.splits)

lemma id_token_vouched:
  "fst (verifyIDToken lib net tf now c raw iss aud) = Inr cl \<longleftrightarrow>
     vouched_token lib now (trusted lib net c) raw iss aud cl"
proof -
  have dot: "a @ ''.'' @ b @ ''.'' @ d = a @ CHR ''.'' # b @ CHR ''.'' # d" for a b d :: string by simp
  show ?thesis
    unfolding verifyIDToken_three vouched_token_def Split_three verify_signed_Inr dot by blast
qed

text \<open>
  C8. \<open>verifyIDToken\<close> accepts a token, with these claims, exactly when it has three dot-separated
  parts, its header names RS256 and a key id, its signature verifies over the first two parts
  under the cached key of that id or, when none is cached, the key the provider's endpoint
  publishes at the moment, and its payload decodes to claims with the wanted issuer (with or
  without \<open>https://\<close>), exactly the wanted audience, and an expiry still to come.
\<close>

theorem id_token_accepted_exactly_when_vouched:
  "fst (verifyIDToken lib net tf now c raw iss aud) = Inr cl \<longleftrightarrow>
     vouched_token lib now (trusted lib net c) raw iss aud cl"
  by (rule id_token_vouched)

subsection \<open>The registry over the life of the process\<close>

text \<open>
  The registry after any number of exchanges, with any provider of it, any code and verifier, and
  whatever the network answered. \<open>nets\<close> are the networks seen so far.
\<close>

inductive registry_reach :: "idp_lib \<Rightarrow> config \<Rightarrow> network list \<Rightarrow> registry \<Rightarrow> bool"
  for lib :: idp_lib and cf :: config where
  boot: "buildProviders lib cf = Inr reg \<Longrightarrow> registry_reach lib cf [] reg"
| exchange: "registry_reach lib cf nets reg \<Longrightarrow> Get reg name = Some p \<Longrightarrow>
     registry_reach lib cf (net # nets) (Add (snd (idp_Exchange lib net t p c v)) reg)"

definition cache_published :: "idp_lib \<Rightarrow> network list \<Rightarrow> string \<Rightarrow> jwksCache \<Rightarrow> bool" where
  "cache_published lib nets u c \<longleftrightarrow>
     jwks_url c = u \<and> (\<forall>kid k. jwks_keys c kid = Some k \<longrightarrow> (\<exists>net \<in> set nets. published lib net u kid k))"

lemma cache_published_new [simp]: "cache_published lib nets u (newJWKSCache u)"
  by (simp add: cache_published_def newJWKSCache_def)

lemma cache_published_more: "cache_published lib nets u c \<Longrightarrow> cache_published lib (net # nets) u c"
  by (auto simp: cache_published_def)

lemma cache_published_key:
  "cache_published lib nets u c \<Longrightarrow> cache_published lib (net # nets) u (snd (key lib net now c kid))"
  using key_cache [of lib net now c kid] unfolding cache_published_def by (metis list.set_intros)

lemma verifyIDToken_cache:
  "snd (verifyIDToken lib net tf now c raw iss aud) = c \<or>
   (\<exists>kid. snd (verifyIDToken lib net tf now c raw iss aud) = snd (key lib net tf c kid))"
  unfolding verifyIDToken_def by (auto split: list.splits option.splits prod.splits sum.splits) (metis snd_conv)+

lemma cache_published_verify:
  assumes "cache_published lib nets u c"
  shows "cache_published lib (net # nets) u (snd (verifyIDToken lib net tf now c raw iss aud))"
  using verifyIDToken_cache [of lib net tf now c raw iss aud] cache_published_key [OF assms] cache_published_more [OF assms]
  by metis

text \<open>What stays true of a registered provider: its configuration, and that its keys were published.\<close>

definition idp_sound :: "idp_lib \<Rightarrow> config \<Rightarrow> network list \<Rightarrow> idp \<Rightarrow> bool" where
  "idp_sound lib cf nets p =
     (case p of
        GoogleP g \<Rightarrow> oauth_Enabled (Google cf) \<and> g_clientID g = ClientID (Google cf)
          \<and> cache_published lib nets googleJWKSURL (g_jwks g)
      | GitHubP h \<Rightarrow> oauth_Enabled (GitHub cf) \<and> h_clientID h = ClientID (GitHub cf)
      | AppleP a \<Rightarrow> apple_Enabled (Apple cf) \<and> a_clientID a = apple_ClientID (Apple cf)
          \<and> cache_published lib nets appleJWKSURL (a_jwks a))"

lemma google_Exchange_state:
  "snd (google_Exchange lib net tf now g c v) = g \<or>
   (\<exists>raw. snd (google_Exchange lib net tf now g c v) = g\<lparr>g_jwks := snd (verifyIDToken lib net tf now (g_jwks g) raw googleIssuer (g_clientID g))\<rparr>)"
  unfolding google_Exchange_def by (auto split: sum.splits prod.splits) (metis snd_conv)+

lemma apple_Exchange_state:
  "snd (apple_Exchange lib net ts tf now a c v) = a \<or>
   (\<exists>raw. snd (apple_Exchange lib net ts tf now a c v) = a\<lparr>a_jwks := snd (verifyIDToken lib net tf now (a_jwks a) raw appleIssuer (a_clientID a))\<rparr>)"
  unfolding apple_Exchange_def by (auto split: sum.splits prod.splits) (metis snd_conv)+

lemma idp_Exchange_sound:
  assumes "idp_sound lib cf nets p"
  shows "idp_sound lib cf (net # nets) (snd (idp_Exchange lib net t p c v))"
proof (cases p)
  case (GoogleP g)
  with assms google_Exchange_state [of lib net "t_fetch t" "t_check t" g c v] show ?thesis
    by (auto simp: idp_sound_def intro: cache_published_more cache_published_verify)
next
  case (AppleP a)
  with assms apple_Exchange_state [of lib net "t_sign t" "t_fetch t" "t_check t" a c v] show ?thesis
    by (auto simp: idp_sound_def intro: cache_published_more cache_published_verify)
qed (use assms in \<open>simp add: idp_sound_def\<close>)

lemma idp_sound_more: "idp_sound lib cf nets p \<Longrightarrow> idp_sound lib cf (net # nets) p"
  by (cases p) (auto simp: idp_sound_def intro: cache_published_more)

lemma buildProviders_sound: "buildProviders lib cf = Inr reg \<Longrightarrow> Get reg name = Some p \<Longrightarrow> idp_sound lib cf [] p"
  by (auto simp: buildProviders_def Let_def NewRegistry_def Add_def Get_def NewApple_def NewGoogle_def NewGitHub_def idp_sound_def
      split: if_splits sum.splits)

lemma registry_sound:
  "registry_reach lib cf nets reg \<Longrightarrow> Get reg name = Some p \<Longrightarrow> idp_sound lib cf nets p"
proof (induction arbitrary: name p rule: registry_reach.induct)
  case (boot reg)
  then show ?case by (rule buildProviders_sound)
next
  case (exchange nets reg name' q net t c v)
  then show ?case
    by (auto simp: Get_def Add_def intro: idp_Exchange_sound idp_sound_more split: if_splits)
qed

subsection \<open>What the login callback may rely on\<close>

text \<open>
  The contract between a provider and the callback: a profile is only handed over with evidence
  for it, and the evidence covers a verified address.
\<close>

locale provider_contract =
  fixes exch :: "string \<Rightarrow> string \<Rightarrow> exchange_result"
    and evidence :: "string \<Rightarrow> string \<Rightarrow> oauth_profile \<Rightarrow> bool"
  assumes vouches: "exch c v = Exchanged p \<Longrightarrow> evidence c v p"
    and verified: "exch c v = Exchanged p \<Longrightarrow> p_EmailVerified p"
begin

lemma callback_needs_evidence:
  assumes prov: "providers s (PathValue r) = Some prov" and exch: "Exchange prov = exch"
    and run: "handleOAuthCallback s dr r w = (res, w')" and changed: "wdb w' \<noteq> wdb w"
  shows "\<exists>profile. Query r ''state'' \<noteq> [] \<and> cookieValue r cookieOAuthState = Query r ''state'' \<and> Query r ''code'' \<noteq> []
    \<and> p_EmailVerified profile \<and> evidence (Query r ''code'') (cookieValue r cookiePKCE) profile"
proof -
  have keep: "wdb (snd (bindM (inc_counter n) (\<lambda>_. retM x) w)) = wdb w" for n and x :: response
    by (simp add: bindM_def inc_counter_def retM_def)
  from run changed prov exch have "Query r ''code'' \<noteq> [] \<and> Query r ''state'' \<noteq> []
      \<and> cookieValue r cookieOAuthState = Query r ''state''"
    by (auto simp: handleOAuthCallback_def Let_def retM_def split: if_splits)
  moreover from this run changed prov exch obtain profile where
    "exch (Query r ''code'') (cookieValue r cookiePKCE) = Exchanged profile"
    using keep by (cases "exch (Query r ''code'') (cookieValue r cookiePKCE)")
      (auto simp: handleOAuthCallback_def Let_def bindM_def inc_counter_def retM_def)
  ultimately show ?thesis using vouches verified by blast
qed

end

text \<open>
  The evidence behind a profile: for Google and Apple the verified claims of a token their
  token endpoint returned for this code and verifier; for GitHub the primary address the API
  reports as verified to the holder of the access token it returned.
\<close>

definition vouched_claims :: "idp_lib \<Rightarrow> network \<Rightarrow> gotime \<Rightarrow> (string \<Rightarrow> rsa_key \<Rightarrow> bool) \<Rightarrow> outgoing \<Rightarrow> string \<Rightarrow> string
    \<Rightarrow> oauth_profile \<Rightarrow> bool" where
  "vouched_claims lib net now trust req iss aud profile \<longleftrightarrow>
     (\<exists>body raw cl. net req = Reply 200 body \<and> json_id_token lib (take limit_64K body) = Some raw
        \<and> vouched_token lib now trust raw iss aud cl \<and> cl_EmailVerified cl
        \<and> p_Sub profile = cl_Sub cl \<and> p_Email profile = cl_Email cl)"

definition vouched_github :: "idp_lib \<Rightarrow> network \<Rightarrow> outgoing \<Rightarrow> oauth_profile \<Rightarrow> bool" where
  "vouched_github lib net req profile \<longleftrightarrow>
     (\<exists>body token ubody u ebody es e. net req = Reply 200 body \<and> json_access_token lib (take limit_64K body) = Some token
        \<and> net (get_bearer githubUserURL token) = Reply 200 ubody \<and> json_user lib (take limit_64K ubody) = Some u
        \<and> net (get_bearer githubEmailsURL token) = Reply 200 ebody \<and> json_emails lib (take limit_64K ebody) = Some es
        \<and> e \<in> set es \<and> ge_Primary e \<and> ge_Verified e
        \<and> p_Sub profile = Itoa (gu_ID u) \<and> p_Email profile = ge_Email e)"

definition vouched :: "idp_lib \<Rightarrow> network \<Rightarrow> exchange_clock \<Rightarrow> (string \<Rightarrow> string \<Rightarrow> rsa_key \<Rightarrow> bool) \<Rightarrow> idp
    \<Rightarrow> string \<Rightarrow> string \<Rightarrow> oauth_profile \<Rightarrow> bool" where
  "vouched lib net t trust p c v profile =
     (case p of
        GoogleP g \<Rightarrow> vouched_claims lib net (t_check t) (trust googleJWKSURL) (google_token_request g c v) googleIssuer (g_clientID g) profile
      | GitHubP h \<Rightarrow> vouched_github lib net (github_token_request h c v) profile
      | AppleP a \<Rightarrow> \<exists>secret. vouched_claims lib net (t_check t) (trust appleJWKSURL) (apple_token_request a secret c v) appleIssuer (a_clientID a) profile)"

lemma vouched_token_mono:
  "vouched_token lib now trust raw iss aud cl \<Longrightarrow> (\<And>kid k. trust kid k \<Longrightarrow> trust' kid k) \<Longrightarrow>
   vouched_token lib now trust' raw iss aud cl"
  unfolding vouched_token_def by blast

lemma vouched_claims_mono:
  assumes "vouched_claims lib net now trust req iss aud profile" and "\<And>kid k. trust kid k \<Longrightarrow> trust' kid k"
  shows "vouched_claims lib net now trust' req iss aud profile"
proof -
  from assms(1) obtain body raw cl where *: "net req = Reply 200 body" "json_id_token lib (take limit_64K body) = Some raw"
      "vouched_token lib now trust raw iss aud cl" "cl_EmailVerified cl" "p_Sub profile = cl_Sub cl" "p_Email profile = cl_Email cl"
    unfolding vouched_claims_def by blast
  moreover have "vouched_token lib now trust' raw iss aud cl" using *(3) assms(2) by (rule vouched_token_mono)
  ultimately show ?thesis unfolding vouched_claims_def by blast
qed

lemma trusted_published:
  "cache_published lib nets u c \<Longrightarrow> trusted lib net c kid k \<Longrightarrow> \<exists>net' \<in> set (net # nets). published lib net' u kid k"
  by (auto simp: trusted_def cache_published_def)

lemma primary_verified_Inr:
  "primary_verified es = Inr m \<Longrightarrow> \<exists>e \<in> set es. ge_Primary e \<and> ge_Verified e \<and> ge_Email e = m"
  by (induction es) (auto split: if_splits)

lemma google_Exchange_vouched:
  assumes "fst (google_Exchange lib net tf now g c v) = Inr profile"
  shows "vouched_claims lib net now (trusted lib net (g_jwks g)) (google_token_request g c v) googleIssuer (g_clientID g) profile
    \<and> p_EmailVerified profile"
proof -
  from assms obtain raw where raw: "fetch net limit_64K (json_id_token lib) (google_token_request g c v) = Inr raw"
    by (auto simp: google_Exchange_def split: sum.splits)
  with assms obtain cl where cl: "fst (verifyIDToken lib net tf now (g_jwks g) raw googleIssuer (g_clientID g)) = Inr cl"
    by (auto simp: google_Exchange_def split: sum.splits prod.splits if_splits)
  then have vt: "vouched_token lib now (trusted lib net (g_jwks g)) raw googleIssuer (g_clientID g) cl"
    by (simp only: id_token_vouched)
  from assms raw cl have "cl_EmailVerified cl \<and> p_Sub profile = cl_Sub cl \<and> p_Email profile = cl_Email cl \<and> p_EmailVerified profile"
    by (auto simp: google_Exchange_def split: prod.splits if_splits)
  with raw vt show ?thesis unfolding vouched_claims_def fetch_Inr by blast
qed

lemma apple_Exchange_vouched:
  assumes "fst (apple_Exchange lib net ts tf now a c v) = Inr profile"
  shows "(\<exists>secret. vouched_claims lib net now (trusted lib net (a_jwks a)) (apple_token_request a secret c v) appleIssuer (a_clientID a) profile)
    \<and> p_EmailVerified profile"
proof -
  from assms obtain secret where secret: "clientSecretJWT lib ts a = Inr secret"
    by (auto simp: apple_Exchange_def split: sum.splits)
  with assms obtain raw where raw: "fetch net limit_64K (json_id_token lib) (apple_token_request a secret c v) = Inr raw"
    by (auto simp: apple_Exchange_def split: sum.splits)
  with assms secret obtain cl where cl: "fst (verifyIDToken lib net tf now (a_jwks a) raw appleIssuer (a_clientID a)) = Inr cl"
    by (auto simp: apple_Exchange_def split: sum.splits prod.splits if_splits)
  then have vt: "vouched_token lib now (trusted lib net (a_jwks a)) raw appleIssuer (a_clientID a) cl"
    by (simp only: id_token_vouched)
  from assms secret raw cl have "cl_EmailVerified cl \<and> p_Sub profile = cl_Sub cl \<and> p_Email profile = cl_Email cl \<and> p_EmailVerified profile"
    by (auto simp: apple_Exchange_def split: prod.splits if_splits)
  with raw vt show ?thesis unfolding vouched_claims_def fetch_Inr by blast
qed

lemma github_Exchange_vouched:
  assumes "github_Exchange lib net g c v = Inr profile"
  shows "vouched_github lib net (github_token_request g c v) profile \<and> p_EmailVerified profile"
proof -
  from assms obtain token u es m where
    "fetch net limit_64K (json_access_token lib) (github_token_request g c v) = Inr token"
    "fetch net limit_64K (json_user lib) (get_bearer githubUserURL token) = Inr u"
    "fetch net limit_64K (json_emails lib) (get_bearer githubEmailsURL token) = Inr es"
    "primary_verified es = Inr m" "p_Sub profile = Itoa (gu_ID u)" "p_Email profile = m" "p_EmailVerified profile"
    by (auto simp: github_Exchange_def fetchUser_def fetchPrimaryEmail_def split: sum.splits if_splits)
  moreover from this obtain e where "e \<in> set es" "ge_Primary e" "ge_Verified e" "ge_Email e = m"
    using primary_verified_Inr by blast
  ultimately show ?thesis unfolding vouched_github_def fetch_Inr by metis
qed

primrec cache_of :: "idp \<Rightarrow> jwksCache" where
  "cache_of (GoogleP g) = g_jwks g"
| "cache_of (GitHubP h) = newJWKSCache []"
| "cache_of (AppleP a) = a_jwks a"

lemma as_provider_Some:
  "Exchange (as_provider lib net t p) c v = Exchanged profile \<longleftrightarrow> fst (idp_Exchange lib net t p c v) = Inr profile"
  by (auto simp: as_provider_def split: sum.splits)

lemma idp_Exchange_vouched:
  "fst (idp_Exchange lib net t p c v) = Inr profile \<Longrightarrow>
     vouched lib net t (\<lambda>_. trusted lib net (cache_of p)) p c v profile \<and> p_EmailVerified profile"
  by (cases p) (auto simp: vouched_def dest: google_Exchange_vouched github_Exchange_vouched apple_Exchange_vouched)

interpretation idp: provider_contract "Exchange (as_provider lib net t p)" "vouched lib net t (\<lambda>_. trusted lib net (cache_of p)) p"
  for lib net t p
  by unfold_locales (simp_all add: as_provider_Some idp_Exchange_vouched)

lemma vouched_published:
  assumes "idp_sound lib cf nets p" and "vouched lib net t (\<lambda>_. trusted lib net (cache_of p)) p c v profile"
  shows "vouched lib net t (\<lambda>u kid k. \<exists>net' \<in> set (net # nets). published lib net' u kid k) p c v profile"
proof -
  have lift: "vouched_claims lib net now (\<lambda>kid k. \<exists>net' \<in> set (net # nets). published lib net' u kid k) req iss aud profile"
    if "vouched_claims lib net now (trusted lib net ch) req iss aud profile" and "cache_published lib nets u ch"
    for now ch req iss aud u
    using that(1) by (rule vouched_claims_mono) (rule trusted_published [OF that(2)])
  show ?thesis
  proof (cases p)
    case (GoogleP g)
    with assms lift [of _ "g_jwks g"] show ?thesis by (simp add: vouched_def idp_sound_def)
  next
    case (AppleP a)
    with assms obtain secret where
      "vouched_claims lib net (t_check t) (trusted lib net (a_jwks a)) (apple_token_request a secret c v) appleIssuer (a_clientID a) profile"
      "cache_published lib nets appleJWKSURL (a_jwks a)"
      by (auto simp: vouched_def idp_sound_def)
    then have "vouched_claims lib net (t_check t) (\<lambda>kid k. \<exists>net' \<in> set (net # nets). published lib net' appleJWKSURL kid k)
        (apple_token_request a secret c v) appleIssuer (a_clientID a) profile"
      by (rule lift)
    with AppleP show ?thesis unfolding vouched_def by auto
  next
    case (GitHubP h)
    with assms show ?thesis by (simp add: vouched_def)
  qed
qed

text \<open>
  C3. However long the process has run and whatever the providers answered, the OAuth callback
  changes the database only when the returned state is the one in the browser's cookie, a code
  came with it, and the provider of the path vouches for a verified address: for Google and
  Apple a current token for this deployment's client, signed under a key that some reply of
  the provider's key endpoint published; for GitHub the verified primary address of the account.
\<close>

theorem oauth_login_is_vouched:
  assumes "registry_reach lib (cfg s) nets reg"
    and "providers s = (\<lambda>name. map_option (as_provider lib net t) (Get reg name))"
    and "handleOAuthCallback s dr r w = (res, w')" and "wdb w' \<noteq> wdb w"
  shows "\<exists>p profile. Get reg (PathValue r) = Some p \<and> idp_sound lib (cfg s) nets p
    \<and> Query r ''state'' \<noteq> [] \<and> cookieValue r cookieOAuthState = Query r ''state'' \<and> Query r ''code'' \<noteq> []
    \<and> p_EmailVerified profile
    \<and> vouched lib net t (\<lambda>u kid k. \<exists>net' \<in> set (net # nets). published lib net' u kid k) p
        (Query r ''code'') (cookieValue r cookiePKCE) profile"
proof -
  from assms(3,4) have "providers s (PathValue r) \<noteq> None"
    by (cases "providers s (PathValue r)") (auto simp: handleOAuthCallback_def retM_def)
  with assms(2) obtain p where p: "Get reg (PathValue r) = Some p" by auto
  with assms(2) have "providers s (PathValue r) = Some (as_provider lib net t p)" by simp
  from idp.callback_needs_evidence [OF this refl assms(3,4)] vouched_published [OF registry_sound [OF assms(1) p]]
    registry_sound [OF assms(1) p] p
  show ?thesis by blast
qed

text \<open>A deployment with Google configured, and a provider that answers a login with a signed token.\<close>

definition google_config :: config where
  "google_config = sample_config\<lparr>Google := \<lparr>ClientID = ''client'', ClientSecret = ''secret'', RedirectURI = ''https://app/cb''\<rparr>\<rparr>"

definition sample_claims :: IDTokenClaims where
  "sample_claims = \<lparr>cl_Iss = ''accounts.google.com'', cl_Aud = ''client'', cl_Sub = ''sub'', cl_Exp = 100, cl_Email = ''new@b.c'',
     cl_EmailVerified = True, cl_Name = [], cl_Picture = []\<rparr>"

definition sample_lib :: idp_lib where
  "sample_lib = \<lparr>sha256 = id, VerifyPKCS1v15 = (\<lambda>k d s. s = d), ecdsa_Sign = (\<lambda>_ _. None), pem_Decode = (\<lambda>_. None),
     ParsePKCS8PrivateKey = (\<lambda>_. None), json_quote = id, json_header = (\<lambda>_. Some (''RS256'', ''k1'')),
     json_claims = (\<lambda>_. Some sample_claims),
     json_jwks = (\<lambda>_. Some [\<lparr>jwk_Kid = ''k1'', jwk_Kty = ''RSA'', jwk_Alg = ''RS256'', jwk_N = ''AQ'', jwk_E = ''AQAB''\<rparr>]),
     json_id_token = (\<lambda>_. Some ''e30.e30.ZTMwLmUzMA''), json_access_token = (\<lambda>_. None), json_user = (\<lambda>_. None),
     json_emails = (\<lambda>_. None)\<rparr>"

definition sample_net :: network where "sample_net = (\<lambda>_. Reply 200 [])"

definition sample_clock :: exchange_clock where "sample_clock = \<lparr>t_sign = 0, t_fetch = 0, t_check = 0\<rparr>"

definition sample_google :: idp where
  "sample_google = GoogleP (NewGoogle ''client'' ''secret'' ''https://app/cb'')"

definition google_server :: server where
  "google_server = sample_server\<lparr>cfg := google_config,
     providers := (\<lambda>name. map_option (as_provider sample_lib sample_net sample_clock) (Get [''google'' \<mapsto> sample_google] name))\<rparr>"

definition google_callback :: request where
  "google_callback = \<lparr>form_ok = True, FormValue = (\<lambda>_. []), Query = (\<lambda>n. if n = ''code'' \<or> n = ''state'' then ''x'' else []),
     cookieValue = (\<lambda>n. ''x''), Header = (\<lambda>_. []), RemoteAddr = ''10.0.0.1'', raw_body = None, PathValue = ''google''\<rparr>"

definition new_profile :: oauth_profile where
  "new_profile = \<lparr>p_Provider = ''google'', p_Sub = ''sub'', p_Email = ''new@b.c'', p_EmailVerified = True, p_Name = None,
     p_PictureURL = None\<rparr>"

lemma google_config_sel:
  "Google google_config = \<lparr>ClientID = ''client'', ClientSecret = ''secret'', RedirectURI = ''https://app/cb''\<rparr>"
  "\<not> oauth_Enabled (GitHub google_config)" "\<not> apple_Enabled (Apple google_config)"
  by (simp_all add: google_config_def sample_config_def env_config_def env_oauth_def env_apple_def oauth_Enabled_def
      apple_Enabled_def getenv_def Let_def TrimSpace_def)

lemma google_registry: "registry_reach sample_lib google_config [] [''google'' \<mapsto> sample_google]"
proof (rule registry_reach.boot)
  have "oauth_Enabled (Google google_config)" by (simp add: google_config_sel oauth_Enabled_def)
  then show "buildProviders sample_lib google_config = Inr [''google'' \<mapsto> sample_google]"
    by (simp add: buildProviders_def google_config_sel sample_google_def NewRegistry_def Add_def)
qed

lemma sample_token_verifies:
  "verify_signed sample_lib 0 k ''e30'' ''e30'' ''ZTMwLmUzMA'' googleIssuer ''client'' = Inr sample_claims"
  by code_simp

lemma google_profile:
  "Exchange (as_provider sample_lib sample_net sample_clock sample_google) ''x'' ''x'' = Exchanged new_profile"
proof -
  have replies: "fetch sample_net l d req = (case d [] of None \<Rightarrow> Inl ErrDecode | Some x \<Rightarrow> Inr x)" for l req and d :: "bytes \<Rightarrow> 'z option"
    by (simp add: fetch_def sample_net_def)
  have n: "DecodeString RawURLEncoding ''AQ'' = Some [1]" by code_simp
  have e: "DecodeString RawURLEncoding ''AQAB'' = Some [1, 0, 1]" by code_simp
  have rsa: "toRSA \<lparr>jwk_Kid = ''k1'', jwk_Kty = ''RSA'', jwk_Alg = ''RS256'', jwk_N = ''AQ'', jwk_E = ''AQAB''\<rparr> = Inr \<lparr>rsa_N = 1, rsa_E = 65537\<rparr>"
    by (simp add: toRSA_def n e SetBytes_def wrap64_def)
  have parts: "Split CHR ''.'' ''e30.e30.ZTMwLmUzMA'' = [''e30'', ''e30'', ''ZTMwLmUzMA'']" by simp
  have hdr: "DecodeString RawURLEncoding ''e30'' = Some [123, 125]" by code_simp
  have "\<exists>c. verifyIDToken sample_lib sample_net 0 0 (newJWKSCache googleJWKSURL) ''e30.e30.ZTMwLmUzMA'' googleIssuer ''client'' = (Inr sample_claims, c)"
    by (simp add: verifyIDToken_def parts hdr key_def refresh_def replies newJWKSCache_def sample_lib_def [THEN arg_cong [of _ _ json_header]]
        sample_lib_def [THEN arg_cong [of _ _ json_jwks]] rsa sample_token_verifies)
  then show ?thesis
    by (auto simp: as_provider_Some sample_google_def google_Exchange_def replies NewGoogle_def sample_clock_def
        sample_lib_def [THEN arg_cong [of _ _ json_id_token]] sample_claims_def strPtr_def new_profile_def)
qed

lemma google_login_creates:
  "length (users (wdb (snd (oauth_login google_server sample_draws google_callback new_profile sample_world)))) = 2"
  by code_simp

lemma google_callback_logs_in:
  "wdb (snd (handleOAuthCallback google_server sample_draws google_callback sample_world)) \<noteq> wdb sample_world"
proof -
  have sel: "providers google_server ''google'' = Some (as_provider sample_lib sample_net sample_clock sample_google)"
    "PathValue google_callback = ''google''" "Query google_callback ''code'' = ''x''" "Query google_callback ''state'' = ''x''"
    "cookieValue google_callback n = ''x''" for n
    by (simp_all add: google_server_def google_callback_def Get_def)
  have run: "handleOAuthCallback google_server sample_draws google_callback =
      bindM (oauth_login google_server sample_draws google_callback new_profile) (\<lambda>resp. retM (with_cookies
        [clearTransient (cfg google_server) cookieOAuthState, clearTransient (cfg google_server) cookiePKCE] resp))"
    unfolding handleOAuthCallback_def Let_def by (simp add: sel google_profile)
  have "wdb (snd (bindM m (\<lambda>x. retM (f x)) w)) = wdb (snd (m w))" for m and f :: "response \<Rightarrow> response" and w
    by (simp add: bindM_def retM_def split: prod.splits sum.splits)
  with run have "users (wdb (snd (handleOAuthCallback google_server sample_draws google_callback sample_world))) =
      users (wdb (snd (oauth_login google_server sample_draws google_callback new_profile sample_world)))" by simp
  moreover have "length (users (wdb sample_world)) = 1" by (simp add: sample_world_def)
  ultimately show ?thesis using google_login_creates by (metis numeral_One numeral_eq_iff semiring_norm(85))
qed

theorem oauth_login_is_vouched_witness:
  "\<exists>p profile. Get [''google'' \<mapsto> sample_google] ''google'' = Some p \<and> p_EmailVerified profile
    \<and> vouched sample_lib sample_net sample_clock (\<lambda>u kid k. \<exists>net' \<in> set [sample_net]. published sample_lib net' u kid k) p ''x'' ''x'' profile"
proof -
  have "cfg google_server = google_config" by (simp add: google_server_def)
  then have reach: "registry_reach sample_lib (cfg google_server) [] [''google'' \<mapsto> sample_google]" using google_registry by simp
  have prov: "providers google_server =
      (\<lambda>name. map_option (as_provider sample_lib sample_net sample_clock) (Get [''google'' \<mapsto> sample_google] name))"
    by (simp add: google_server_def)
  from oauth_login_is_vouched [OF reach prov surjective_pairing google_callback_logs_in]
  show ?thesis by (simp add: google_callback_def) blast
qed

subsection \<open>Parameters in URLs and forms\<close>

text \<open>What the receiver of an encoded form reads (\<open>url.ParseQuery\<close> and \<open>url.QueryUnescape\<close>).\<close>

definition unhex :: "char \<Rightarrow> nat option" where
  "unhex c = (let n = (of_char c :: nat) in
     if 48 \<le> n \<and> n \<le> 57 then Some (n - 48) else if 65 \<le> n \<and> n \<le> 70 then Some (n - 55)
     else if 97 \<le> n \<and> n \<le> 102 then Some (n - 87) else None)"

fun QueryUnescape :: "string \<Rightarrow> string option" where
  "QueryUnescape [] = Some []"
| "QueryUnescape (c # cs) =
     (if c = CHR ''%'' then (case cs of
        a # b # r \<Rightarrow> (case (unhex a, unhex b) of
            (Some i, Some j) \<Rightarrow> map_option (Cons (char_of (i * 16 + j))) (QueryUnescape r)
          | _ \<Rightarrow> None)
      | _ \<Rightarrow> None)
      else map_option (Cons (if c = CHR ''+'' then CHR '' '' else c)) (QueryUnescape cs))"

definition read_pair :: "string \<Rightarrow> (string \<times> string) option" where
  "read_pair s = (case Cut CHR ''='' s of (k, v, _) \<Rightarrow>
     (case (QueryUnescape k, QueryUnescape v) of (Some k', Some v') \<Rightarrow> Some (k', v') | _ \<Rightarrow> None))"

fun read_pairs :: "string list \<Rightarrow> url_values option" where
  "read_pairs [] = Some []"
| "read_pairs (s # ss) = (case (read_pair s, read_pairs ss) of (Some p, Some ps) \<Rightarrow> Some (p # ps) | _ \<Rightarrow> None)"

definition ParseQuery :: "string \<Rightarrow> url_values option" where
  "ParseQuery q = read_pairs (Split CHR ''&'' q)"

lemma nibbles: "of_char c div 16 < (16 :: nat)" "of_char c mod 16 < (16 :: nat)"
  using nat_of_char_less_256 [of c] by (simp_all add: div_less_iff_less_mult)

lemma upper_hex: "n < 16 \<Longrightarrow> unhex (upper_hex n) = Some n \<and> upper_hex n \<notin> {CHR ''%'', CHR ''&'', CHR ''='', CHR ''?''}"
proof -
  assume "n < 16"
  then have "of_char (upper_hex n) = (if n < 10 then 48 + n else 55 + n)" by (simp add: upper_hex_def of_char_of)
  with \<open>n < 16\<close> show ?thesis by (auto simp: unhex_def Let_def split: if_splits)
qed

lemma unreserved_plain: "unreserved c \<Longrightarrow> c \<notin> {CHR ''%'', CHR ''+'', CHR ''&'', CHR ''='', CHR ''?''}"
  by (auto simp: unreserved_def Let_def)

lemma QueryUnescape_QueryEscape [simp]: "QueryUnescape (QueryEscape s) = Some s"
proof (induction s)
  case (Cons c cs)
  have "of_char c div 16 * 16 + of_char c mod 16 = (of_char c :: nat)" by (rule div_mult_mod_eq)
  moreover have "char_of (of_char c :: nat) = c" by simp
  ultimately show ?case using Cons unreserved_plain [of c] upper_hex [OF nibbles(1) [of c]] upper_hex [OF nibbles(2) [of c]] by simp
qed simp

lemma QueryEscape_text: "x \<in> set (QueryEscape s) \<Longrightarrow> x \<notin> {CHR ''&'', CHR ''='', CHR ''?''}"
proof (induction s)
  case (Cons c cs)
  have hex: "upper_hex (of_char c div 16) \<notin> {CHR ''&'', CHR ''='', CHR ''?''}"
      "upper_hex (of_char c mod 16) \<notin> {CHR ''&'', CHR ''='', CHR ''?''}"
    using upper_hex [OF nibbles(1) [of c]] upper_hex [OF nibbles(2) [of c]] by blast+
  from Cons.prems consider "x \<in> set (QueryEscape cs)" | "unreserved x" | "x = CHR ''+''" | "x = CHR ''%''"
      | "x = upper_hex (of_char c div 16)" | "x = upper_hex (of_char c mod 16)"
    by (auto split: if_splits)
  then show ?case using Cons.IH hex unreserved_plain [of x] by cases auto
qed simp

lemma read_pair_encoded [simp]: "read_pair (QueryEscape k @ CHR ''='' # QueryEscape v) = Some (k, v)"
proof -
  have "CHR ''='' \<notin> set (QueryEscape k)" using QueryEscape_text by blast
  then show ?thesis by (simp add: read_pair_def Cut_found)
qed

text \<open>Nothing written into a form or a URL can turn into another parameter.\<close>

lemma ParseQuery_Encode: "vs \<noteq> [] \<Longrightarrow> ParseQuery (Values_Encode vs) = Some (sort_key fst vs)"
proof -
  assume ne: "vs \<noteq> []"
  let ?enc = "\<lambda>(k, v). QueryEscape k @ CHR ''='' # QueryEscape v"
  have "\<forall>s \<in> set (map ?enc (sort_key fst vs)). CHR ''&'' \<notin> set s" using QueryEscape_text by fastforce
  moreover have "map ?enc (sort_key fst vs) \<noteq> []" using ne by (metis length_0_conv length_map length_sort)
  ultimately have "ParseQuery (Values_Encode vs) = read_pairs (map ?enc (sort_key fst vs))"
    unfolding ParseQuery_def Values_Encode_def by (subst Split_Join) simp_all
  also have "read_pairs (map ?enc ps) = Some ps" for ps by (induction ps) auto
  finally show ?thesis .
qed

definition authorize_base :: "idp \<Rightarrow> string" where
  "authorize_base p = (case p of GoogleP _ \<Rightarrow> googleAuthorizeURL | GitHubP _ \<Rightarrow> githubAuthorizeURL | AppleP _ \<Rightarrow> appleAuthorizeURL)"

lemma authorize_url_carries_login:
  "\<exists>q vs. idp_AuthorizeURL lib p state verifier = authorize_base p @ ''?'' @ q \<and> ParseQuery q = Some vs \<and>
     distinct (map fst vs) \<and> (''state'', state) \<in> set vs \<and>
     (''code_challenge'', pkceChallengeFromVerifier lib verifier) \<in> set vs \<and> (''code_challenge_method'', ''S256'') \<in> set vs"
proof -
  have carry: "\<exists>q vs. base @ ''?'' @ Values_Encode ps = base @ ''?'' @ q \<and> ParseQuery q = Some vs \<and> distinct (map fst vs)
      \<and> (''state'', state) \<in> set vs \<and> (''code_challenge'', pkceChallengeFromVerifier lib verifier) \<in> set vs
      \<and> (''code_challenge_method'', ''S256'') \<in> set vs"
    if "distinct (map fst ps)" "{(''state'', state), (''code_challenge'', pkceChallengeFromVerifier lib verifier),
       (''code_challenge_method'', ''S256'')} \<subseteq> set ps" for base ps
  proof -
    have "ps \<noteq> []" using that(2) by auto
    moreover have "distinct (map fst (sort_key fst ps))"
      using that(1) by (simp add: distinct_map)
    ultimately show ?thesis using ParseQuery_Encode [of ps] that(2) by (intro exI conjI) auto
  qed
  show ?thesis
    by (cases p) (simp_all only: idp_AuthorizeURL.simps google_AuthorizeURL_def github_AuthorizeURL_def apple_AuthorizeURL_def
        authorize_base_def idp.case, (rule carry; simp)+)
qed

end
