(* ===== verification/Metrics.thy ===== *)
theory Metrics
  imports Go_Strings "HOL-Library.AList" "HOL-Library.Char_ord" "HOL-Library.List_Lexorder"
begin

text \<open>
  The metrics registry and its text exposition (\<open>internal/metrics/metrics.go\<close>). The Go maps are
  association lists with distinct keys; counts are 64-bit words; a \<open>float64\<close> is a rational (sums are
  exact), and its \<open>%g\<close> rendering is the parameter \<open>fmt_g\<close>. Shown: the page a scraper reads is
  determined by what was reported: the number of increments, the last value of a gauge, and for
  every bucket the number of observations up to its bound.
\<close>

subsection \<open>Histograms\<close>

record histogram =
  buckets :: "rat list"
  counts :: "64 word list"
  hsum :: rat
  total :: "64 word"

definition newHistogram :: histogram where
  "newHistogram =
     \<lparr>buckets = [1 / 1000, 25 / 10000, 5 / 1000, 1 / 100, 25 / 1000, 5 / 100, 1 / 10, 25 / 100, 5 / 10, 1],
      counts = replicate 11 0, hsum = 0, total = 0\<rparr>"

fun count_in :: "rat \<Rightarrow> rat list \<Rightarrow> 64 word list \<Rightarrow> 64 word list" where
  "count_in v (b # bs) (c # cs) = (if v \<le> b then (c + 1) # cs else c # count_in v bs cs)"
| "count_in v [] (c # cs) = (c + 1) # cs"
| "count_in v bs [] = []"

definition observe :: "histogram \<Rightarrow> rat \<Rightarrow> histogram" where
  "observe h v = h\<lparr>hsum := hsum h + v, total := total h + 1, counts := count_in v (buckets h) (counts h)\<rparr>"

subsection \<open>The registry\<close>

record metrics_registry =
  reg_counters :: "(string \<times> 64 word) list"
  reg_gauges :: "(string \<times> rat) list"
  reg_histograms :: "(string \<times> histogram) list"

definition New :: metrics_registry where
  "New = \<lparr>reg_counters = [], reg_gauges = [], reg_histograms = []\<rparr>"

text \<open>A name seen for the first time gets a fresh entry; then the entry is updated.\<close>

definition bump :: "string \<Rightarrow> unit \<Rightarrow> (string \<times> 64 word) list \<Rightarrow> (string \<times> 64 word) list" where
  "bump name u m = AList.map_default name 1 (\<lambda>c. c + 1) m"

definition observe_entry :: "string \<Rightarrow> rat \<Rightarrow> (string \<times> histogram) list \<Rightarrow> (string \<times> histogram) list" where
  "observe_entry name v m = AList.map_default name (observe newHistogram v) (\<lambda>h. observe h v) m"

definition IncCounter :: "string \<Rightarrow> metrics_registry \<Rightarrow> metrics_registry" where
  "IncCounter name r = r\<lparr>reg_counters := bump name () (reg_counters r)\<rparr>"

definition Observe :: "string \<Rightarrow> rat \<Rightarrow> metrics_registry \<Rightarrow> metrics_registry" where
  "Observe name v r = r\<lparr>reg_histograms := observe_entry name v (reg_histograms r)\<rparr>"

definition SetGauge :: "string \<Rightarrow> rat \<Rightarrow> metrics_registry \<Rightarrow> metrics_registry" where
  "SetGauge name v r = r\<lparr>reg_gauges := AList.update name v (reg_gauges r)\<rparr>"

subsection \<open>Exposition\<close>

definition nl :: string where "nl = [CHR 0x0A]"

definition type_line :: "string \<Rightarrow> string \<Rightarrow> string" where
  "type_line n t = ''# TYPE '' @ n @ '' '' @ t @ nl"

definition counter_text :: "string \<Rightarrow> 64 word \<Rightarrow> string" where
  "counter_text n c = type_line n ''counter'' @ n @ '' '' @ Itoa (sint c) @ nl"

definition gauge_text :: "(rat \<Rightarrow> string) \<Rightarrow> string \<Rightarrow> rat \<Rightarrow> string" where
  "gauge_text fmt_g n v = type_line n ''gauge'' @ n @ '' '' @ fmt_g v @ nl"

definition bucket_line :: "string \<Rightarrow> string \<Rightarrow> 64 word \<Rightarrow> string" where
  "bucket_line n le c = n @ ''_bucket{le='' @ [CHR 0x22] @ le @ [CHR 0x22] @ ''} '' @ nat_string (unat c) @ nl"

text \<open>The loop over the bounds with its running total, then the last bucket.\<close>

fun bucket_lines :: "(rat \<Rightarrow> string) \<Rightarrow> string \<Rightarrow> 64 word \<Rightarrow> rat list \<Rightarrow> 64 word list \<Rightarrow> string" where
  "bucket_lines fmt_g n cumulative (b # bs) (c # cs) =
     bucket_line n (fmt_g b) (cumulative + c) @ bucket_lines fmt_g n (cumulative + c) bs cs"
| "bucket_lines fmt_g n cumulative [] (c # cs) = bucket_line n ''+Inf'' (cumulative + c)"
| "bucket_lines fmt_g n cumulative bs [] = []"

definition histogram_text :: "(rat \<Rightarrow> string) \<Rightarrow> string \<Rightarrow> histogram \<Rightarrow> string" where
  "histogram_text fmt_g n h =
     type_line n ''histogram'' @ bucket_lines fmt_g n 0 (buckets h) (counts h)
     @ n @ ''_sum '' @ fmt_g (hsum h) @ nl @ n @ ''_count '' @ nat_string (unat (total h)) @ nl"

definition by_name :: "(string \<Rightarrow> 'a \<Rightarrow> string) \<Rightarrow> (string \<times> 'a) list \<Rightarrow> string" where
  "by_name text m = concat (map (\<lambda>n. text n (the (map_of m n))) (sort (map fst m)))"

definition WritePrometheus :: "(rat \<Rightarrow> string) \<Rightarrow> metrics_registry \<Rightarrow> string" where
  "WritePrometheus fmt_g r =
     by_name counter_text (reg_counters r) @ by_name (gauge_text fmt_g) (reg_gauges r)
     @ by_name (histogram_text fmt_g) (reg_histograms r)"

subsection \<open>What the page says, from what was reported\<close>

datatype report = Inc string | Gauge string rat | Obs string rat

fun apply_report :: "report \<Rightarrow> metrics_registry \<Rightarrow> metrics_registry" where
  "apply_report (Inc n) = IncCounter n"
| "apply_report (Gauge n v) = SetGauge n v"
| "apply_report (Obs n v) = Observe n v"

text \<open>The names reported under each kind, in order, and the page as a reader understands it.\<close>

fun incs :: "report list \<Rightarrow> string list" where
  "incs [] = []" | "incs (Inc n # rs) = n # incs rs" | "incs (Gauge n v # rs) = incs rs" | "incs (Obs n v # rs) = incs rs"

fun levels :: "report list \<Rightarrow> (string \<times> rat) list" where
  "levels [] = []" | "levels (Gauge n v # rs) = (n, v) # levels rs" | "levels (Inc n # rs) = levels rs" | "levels (Obs n v # rs) = levels rs"

fun samples :: "report list \<Rightarrow> (string \<times> rat) list" where
  "samples [] = []" | "samples (Obs n v # rs) = (n, v) # samples rs" | "samples (Inc n # rs) = samples rs" | "samples (Gauge n v # rs) = samples rs"

definition samples_of :: "string \<Rightarrow> (string \<times> rat) list \<Rightarrow> rat list" where
  "samples_of n ss = map snd (filter (\<lambda>s. fst s = n) ss)"

definition bounds :: "rat list" where "bounds = buckets newHistogram"

definition expected_histogram :: "(rat \<Rightarrow> string) \<Rightarrow> string \<Rightarrow> rat list \<Rightarrow> string" where
  "expected_histogram fmt_g n vs =
     type_line n ''histogram''
     @ concat (map (\<lambda>b. bucket_line n (fmt_g b) (of_nat (length (filter (\<lambda>v. v \<le> b) vs)))) bounds)
     @ bucket_line n ''+Inf'' (of_nat (length vs))
     @ n @ ''_sum '' @ fmt_g (sum_list vs) @ nl @ n @ ''_count '' @ nat_string (unat (of_nat (length vs) :: 64 word)) @ nl"

definition sorted_names :: "string list \<Rightarrow> string list" where
  "sorted_names ns = sort (remdups ns)"

definition expected_page :: "(rat \<Rightarrow> string) \<Rightarrow> report list \<Rightarrow> string" where
  "expected_page fmt_g rs =
     concat (map (\<lambda>n. counter_text n (of_nat (count_list (incs rs) n))) (sorted_names (incs rs)))
     @ concat (map (\<lambda>n. gauge_text fmt_g n (the (map_of (rev (levels rs)) n))) (sorted_names (map fst (levels rs))))
     @ concat (map (\<lambda>n. expected_histogram fmt_g n (samples_of n (samples rs))) (sorted_names (map fst (samples rs))))"

subsection \<open>Keyed accumulation\<close>

text \<open>
  What the three maps have in common: a value is absorbed into the entry of its name, and a name
  seen for the first time starts from \<open>zero\<close>.
\<close>

locale accumulator =
  fixes zero :: 'a and absorb :: "'a \<Rightarrow> 'v \<Rightarrow> 'a" and put :: "string \<Rightarrow> 'v \<Rightarrow> (string \<times> 'a) list \<Rightarrow> (string \<times> 'a) list"
  assumes put_eq: "put n v m = AList.map_default n (absorb zero v) (\<lambda>a. absorb a v) m"
begin

definition "put_all ps m = fold (\<lambda>(n, v). put n v) ps m"

lemma put_all_simps [simp]: "put_all [] m = m" "put_all (ps @ [(n, v)]) m = put n v (put_all ps m)"
  by (simp_all add: put_all_def)

lemma put_names: "distinct (map fst m) \<Longrightarrow> distinct (map fst (put n v m))" "fst ` set (put n v m) = insert n (fst ` set m)"
  unfolding put_eq [of n v m] by (simp_all only: distinct_map_default dom_map_default)

lemma put_value: "map_of (put n v m) = (map_of m)(n \<mapsto> absorb (case map_of m n of None \<Rightarrow> zero | Some a \<Rightarrow> a) v)"
  unfolding put_eq [of n v m] by (simp add: map_of_map_default split: option.splits)

lemma put_all_names: "distinct (map fst (put_all ps [])) \<and> fst ` set (put_all ps []) = fst ` set ps"
proof (induction ps rule: rev_induct)
  case (snoc p ps)
  obtain k v where "p = (k, v)" by (cases p)
  with snoc show ?case by (simp add: put_names)
qed simp

lemma put_all_value:
  "map_of (put_all ps []) n =
     (if n \<in> fst ` set ps then Some (foldl absorb zero (map snd (filter (\<lambda>p. fst p = n) ps))) else None)"
proof (induction ps rule: rev_induct)
  case (snoc p ps)
  obtain k v where p: "p = (k, v)" by (cases p)
  show ?case
  proof (cases "n = k")
    case True
    have "filter (\<lambda>p. fst p = k) ps = []" if "k \<notin> fst ` set ps" using that by (auto simp: filter_empty_conv)
    with snoc True p show ?thesis by (auto simp: put_value)
  next
    case False
    with snoc p show ?thesis by (auto simp: put_value)
  qed
qed simp

lemma page_of_put_all:
  "by_name text (put_all ps []) =
     concat (map (\<lambda>n. text n (foldl absorb zero (map snd (filter (\<lambda>p. fst p = n) ps)))) (sorted_names (map fst ps)))"
proof -
  have "sort (map fst (put_all ps [])) = sorted_names (map fst ps)"
    using put_all_names [of ps] unfolding sorted_names_def
    by (intro sorted_distinct_set_unique) (auto simp flip: set_map)
  then show ?thesis unfolding by_name_def
    by (auto simp: put_all_value sorted_names_def intro!: arg_cong [of _ _ concat] map_cong)
qed

end

interpretation counter: accumulator "0 :: 64 word" "\<lambda>c (_ :: unit). c + 1" bump
  by unfold_locales (simp add: bump_def)

interpretation gauge: accumulator "0 :: rat" "\<lambda>_ v. v" AList.update
proof unfold_locales
  fix n v and m :: "(string \<times> rat) list"
  show "AList.update n v m = AList.map_default n v (\<lambda>_. v) m" by (induction m) auto
qed

interpretation histo: accumulator newHistogram observe observe_entry
  by unfold_locales (simp add: observe_entry_def)

lemma incs_append: "incs (xs @ ys) = incs xs @ incs ys"
  by (induction xs rule: incs.induct) simp_all

lemma levels_append: "levels (xs @ ys) = levels xs @ levels ys"
  by (induction xs rule: levels.induct) simp_all

lemma samples_append: "samples (xs @ ys) = samples xs @ samples ys"
  by (induction xs rule: samples.induct) simp_all

lemma reports_split:
  "fold apply_report rs New =
     \<lparr>reg_counters = counter.put_all (map (\<lambda>n. (n, ())) (incs rs)) [], reg_gauges = gauge.put_all (levels rs) [],
      reg_histograms = histo.put_all (samples rs) []\<rparr>"
proof (induction rs rule: rev_induct)
  case (snoc r rs)
  show ?case by (cases r) (simp_all add: snoc incs_append levels_append samples_append IncCounter_def SetGauge_def Observe_def)
qed (simp add: New_def)

subsection \<open>What a bucket holds\<close>

definition upto :: "rat \<Rightarrow> rat list \<Rightarrow> 64 word" where
  "upto b vs = of_nat (length (filter (\<lambda>v. v \<le> b) vs))"

lemma counts_first:
  "foldl (\<lambda>cs v. count_in v (b # bs) cs) (c # cs) vs =
     (c + upto b vs) # foldl (\<lambda>cs v. count_in v bs cs) cs (filter (\<lambda>v. \<not> v \<le> b) vs)"
  by (induction vs arbitrary: c cs) (auto simp: upto_def)

lemma counts_last: "foldl (\<lambda>cs v. count_in v [] cs) (c # cs) vs = (c + of_nat (length vs)) # cs"
  by (induction vs arbitrary: c) auto

lemma upto_split: "b \<le> b' \<Longrightarrow> upto b vs + upto b' (filter (\<lambda>v. \<not> v \<le> b) vs) = upto b' vs"
  by (induction vs) (auto simp: upto_def)

lemma length_split: "upto b vs + of_nat (length (filter (\<lambda>v. \<not> v \<le> b) vs)) = of_nat (length vs)"
  by (induction vs) (auto simp: upto_def)

lemma bucket_lines_counted:
  "sorted bs \<Longrightarrow> bucket_lines fmt_g n cum bs (foldl (\<lambda>cs v. count_in v bs cs) (replicate (Suc (length bs)) 0) vs) =
     concat (map (\<lambda>b. bucket_line n (fmt_g b) (cum + upto b vs)) bs) @ bucket_line n ''+Inf'' (cum + of_nat (length vs))"
proof (induction bs arbitrary: cum vs)
  case Nil
  then show ?case by (simp add: counts_last)
next
  case (Cons b bs)
  let ?rest = "filter (\<lambda>v. \<not> v \<le> b) vs"
  have "cum + upto b vs + upto b' ?rest = cum + upto b' vs" if "b' \<in> set bs" for b'
    using Cons.prems that upto_split [of b b' vs] by (simp add: add.assoc)
  then have lines: "map (\<lambda>b'. bucket_line n (fmt_g b') (cum + upto b vs + upto b' ?rest)) bs
      = map (\<lambda>b'. bucket_line n (fmt_g b') (cum + upto b' vs)) bs" by (simp add: add.assoc)
  have inf: "cum + upto b vs + of_nat (length ?rest) = cum + of_nat (length vs)"
    using length_split [of b vs] by (simp add: add.assoc)
  have start: "replicate (Suc (length (b # bs))) (0 :: 64 word) = 0 # replicate (Suc (length bs)) 0" by simp
  have "sorted bs" using Cons.prems by simp
  from Cons.IH [OF this, of "cum + upto b vs" ?rest] show ?case
    unfolding start counts_first lines inf by simp
qed

lemma observed:
  "foldl observe h vs = h\<lparr>hsum := hsum h + sum_list vs, total := total h + of_nat (length vs),
     counts := foldl (\<lambda>cs v. count_in v (buckets h) cs) (counts h) vs\<rparr>"
  by (induction vs arbitrary: h) (simp_all add: observe_def)

lemma histogram_text_observed: "histogram_text fmt_g n (foldl observe newHistogram vs) = expected_histogram fmt_g n vs"
proof -
  have srt: "sorted bounds" by (simp add: bounds_def newHistogram_def)
  have "buckets newHistogram = bounds" "counts newHistogram = replicate (Suc (length bounds)) 0" "hsum newHistogram = 0"
      "total newHistogram = 0"
    by (simp_all add: bounds_def newHistogram_def eval_nat_numeral)
  with bucket_lines_counted [OF srt, of fmt_g n 0 vs] show ?thesis
    by (simp add: observed histogram_text_def expected_histogram_def upto_def)
qed

lemma foldl_last: "foldl (\<lambda>_ v. v) z vs = (if vs = [] then z else last vs)"
  by (induction vs arbitrary: z) auto

lemma last_level: "n \<in> fst ` set ps \<Longrightarrow> last (map snd (filter (\<lambda>p. fst p = n) ps)) = the (map_of (rev ps) n)"
  by (induction ps rule: rev_induct) (auto simp: map_add_def split: option.splits)

lemma counted: "foldl (\<lambda>c (_ :: unit). c + 1) (z :: 64 word) us = z + of_nat (length us)"
  by (induction us arbitrary: z) simp_all

text \<open>
  C23. The page a scraper reads says exactly what was reported since boot: every counter the
  number of its increments (modulo 2 to the 64), every gauge its last value, every histogram for
  each bound the number of observations up to it, their sum and their number, with the names
  in order, whatever the reports and however they were interleaved.
\<close>

theorem metrics_page_says_what_was_reported:
  "WritePrometheus fmt_g (fold apply_report rs New) = expected_page fmt_g rs"
proof -
  have c: "length (filter (\<lambda>m. m = n) ns) = count_list ns n" for n and ns :: "string list"
    by (induction ns) auto
  have g: "foldl (\<lambda>_ v. v) 0 (map snd (filter (\<lambda>p. fst p = n) ps)) = the (map_of (rev ps) n)"
    if "n \<in> set (sorted_names (map fst ps))" for n ps
  proof -
    have "n \<in> fst ` set ps" using that by (simp add: sorted_names_def)
    then show ?thesis using last_level [of n ps] by (auto simp: foldl_last filter_empty_conv)
  qed
  have g': "map (\<lambda>n. gauge_text fmt_g n (foldl (\<lambda>_ v. v) 0 (map snd (filter (\<lambda>p. fst p = n) ps)))) (sorted_names (map fst ps)) =
      map (\<lambda>n. gauge_text fmt_g n (the (map_of (rev ps) n))) (sorted_names (map fst ps))" for ps
    by (rule map_cong [OF refl]) (simp only: g)
  show ?thesis
    unfolding WritePrometheus_def reports_split metrics_registry.simps counter.page_of_put_all gauge.page_of_put_all
      histo.page_of_put_all histogram_text_observed counted expected_page_def samples_of_def
    by (simp add: c g' comp_def filter_map)
qed

end
