(* ===== verification/Senders.thy ===== *)
theory Senders
  imports Mail_Worker Oauth Metrics
begin

text \<open>
  The mail adapters (\<open>internal/email/email.go\<close>): the request each one builds, the call and the
  reading of the answer, composed into the \<open>Send\<close> the worker calls, and the queue gauges of the
  worker (\<open>sampleQueue\<close> in \<open>internal/email/worker.go\<close>). The network is a function from the outgoing
  request to a failure (by deadline or otherwise) or an answer with its status, its \<open>Retry-After\<close>
  header and its body; the JSON codec is \<open>mail_lib\<close>. The requests cannot fail to be built: the
  endpoints are constants and the payloads maps of strings. Shown: whatever happened in
  between, every attempt to send a queued mail makes the same request.
\<close>

datatype mail_reply = NoAnswer bool | Answered int string bytes

type_synonym mail_network = "outgoing \<Rightarrow> mail_reply"

text \<open>\<open>read_name\<close>, \<open>read_postmark\<close>: the fields after an \<open>Unmarshal\<close> whose error is ignored.\<close>

record mail_lib =
  quote :: "string \<Rightarrow> string"
  read_id :: "bytes \<Rightarrow> string option"
  read_name :: "bytes \<Rightarrow> string"
  read_postmark :: "bytes \<Rightarrow> string \<times> int"

definition emailResponseMaxBytes :: nat where "emailResponseMaxBytes = 8 * 1024"
definition resendEndpoint :: string where "resendEndpoint = ''https://api.resend.com/emails''"
definition postmarkEndpoint :: string where "postmarkEndpoint = ''https://api.postmarkapp.com/email''"

record adapter =
  ad_from :: string
  ad_apiKey :: string
  ad_endpoint :: string

datatype sender = ResendSender adapter | PostmarkSender adapter | LogSender string

definition NewSender :: "string \<Rightarrow> string \<Rightarrow> string \<Rightarrow> sender" where
  "NewSender provider from apiKey =
     (if provider = ''resend'' then ResendSender \<lparr>ad_from = from, ad_apiKey = apiKey, ad_endpoint = resendEndpoint\<rparr>
      else if provider = ''postmark'' then PostmarkSender \<lparr>ad_from = from, ad_apiKey = apiKey, ad_endpoint = postmarkEndpoint\<rparr>
      else LogSender from)"

definition readBounded :: "bytes \<Rightarrow> bytes" where
  "readBounded body = take emailResponseMaxBytes body"

definition resend_request :: "mail_lib \<Rightarrow> adapter \<Rightarrow> message \<Rightarrow> string \<Rightarrow> outgoing" where
  "resend_request lib s msg idempotencyKey =
     \<lparr>o_Method = ''POST'', o_URL = ad_endpoint s,
      o_Headers = [(''Authorization'', ''Bearer '' @ ad_apiKey s), (''Content-Type'', ''application/json'')]
        @ (if idempotencyKey \<noteq> [] then [(''Idempotency-Key'', idempotencyKey)] else []),
      o_Body = json_object (quote lib)
        [(''from'', quote lib (ad_from s)), (''to'', ''['' @ quote lib (m_To msg) @ '']''),
         (''subject'', quote lib (m_Subject msg)), (''text'', quote lib (m_Body msg))]\<rparr>"

definition resend_Send :: "mail_lib \<Rightarrow> mail_network \<Rightarrow> (string \<Rightarrow> gotime option) \<Rightarrow> gotime \<Rightarrow> adapter \<Rightarrow> message \<Rightarrow> string
    \<Rightarrow> send_result" where
  "resend_Send lib net ParseTime now s msg idempotencyKey =
     (case net (resend_request lib s msg idempotencyKey) of
        NoAnswer deadline \<Rightarrow> Refused (transportError deadline)
      | Answered st retryAfter raw \<Rightarrow>
          let body = readBounded raw in
          resend_result ParseTime now \<lparr>an_Status = st, an_RetryAfter = retryAfter, an_ID = read_id lib body,
            an_Name = read_name lib body, an_ErrorCode = 0\<rparr>)"

definition postmark_request :: "mail_lib \<Rightarrow> adapter \<Rightarrow> message \<Rightarrow> outgoing" where
  "postmark_request lib s msg =
     \<lparr>o_Method = ''POST'', o_URL = ad_endpoint s,
      o_Headers = [(''X-Postmark-Server-Token'', ad_apiKey s), (''Content-Type'', ''application/json''), (''Accept'', ''application/json'')],
      o_Body = json_object (quote lib)
        [(''From'', quote lib (ad_from s)), (''To'', quote lib (m_To msg)),
         (''Subject'', quote lib (m_Subject msg)), (''TextBody'', quote lib (m_Body msg))]\<rparr>"

definition postmark_Send :: "mail_lib \<Rightarrow> mail_network \<Rightarrow> (string \<Rightarrow> gotime option) \<Rightarrow> gotime \<Rightarrow> adapter \<Rightarrow> message \<Rightarrow> send_result" where
  "postmark_Send lib net ParseTime now s msg =
     (case net (postmark_request lib s msg) of
        NoAnswer deadline \<Rightarrow> Refused (transportError deadline)
      | Answered st retryAfter raw \<Rightarrow>
          (case read_postmark lib (readBounded raw) of (mid, code) \<Rightarrow>
             postmark_result ParseTime now \<lparr>an_Status = st, an_RetryAfter = retryAfter, an_ID = Some mid, an_Name = [], an_ErrorCode = code\<rparr>))"

primrec Send :: "mail_lib \<Rightarrow> mail_network \<Rightarrow> (string \<Rightarrow> gotime option) \<Rightarrow> gotime \<Rightarrow> sender \<Rightarrow> message \<Rightarrow> string \<Rightarrow> send_result" where
  "Send lib net ParseTime now (ResendSender s) msg idempotencyKey = resend_Send lib net ParseTime now s msg idempotencyKey"
| "Send lib net ParseTime now (PostmarkSender s) msg idempotencyKey = postmark_Send lib net ParseTime now s msg"
| "Send lib net ParseTime now (LogSender from) msg idempotencyKey = Receipt ''log''"

subsection \<open>The queue gauges\<close>

definition GaugePending :: string where "GaugePending = ''sesamo_email_outbox_pending''"
definition GaugeOldestPendingSeconds :: string where "GaugeOldestPendingSeconds = ''sesamo_email_outbox_oldest_pending_seconds''"

definition sampleQueue :: "string \<Rightarrow> gotime \<Rightarrow> metrics_registry \<Rightarrow> metrics_registry dbm" where
  "sampleQueue provider now reg =
     bindM (tryM (QueueStats provider now)) (\<lambda>r. case r of
        Inl e \<Rightarrow> retM reg
      | Inr st \<Rightarrow> retM (SetGauge GaugeOldestPendingSeconds (of_int (st_OldestPendingAge st) / of_int Second)
                          (SetGauge GaugePending (of_nat (st_Pending st)) reg)))"

subsection \<open>Retries\<close>

text \<open>The one request that goes out to Resend for a mail queued under \<open>oid\<close>.\<close>

definition mail_request :: "mail_lib \<Rightarrow> string \<Rightarrow> string \<Rightarrow> string \<Rightarrow> queue_input \<Rightarrow> outgoing" where
  "mail_request lib from apiKey oid inp =
     \<lparr>o_Method = ''POST'', o_URL = resendEndpoint,
      o_Headers = [(''Authorization'', ''Bearer '' @ apiKey), (''Content-Type'', ''application/json''),
        (''Idempotency-Key'', ''auth-email/'' @ oid)],
      o_Body = json_object (quote lib)
        [(''from'', quote lib from), (''to'', ''['' @ quote lib (q_To inp) @ '']''),
         (''subject'', quote lib (q_Subject inp)), (''text'', quote lib (q_Body inp))]\<rparr>"

text \<open>The one that goes out to Postmark, whose API takes no idempotency key.\<close>

definition postmark_mail_request :: "mail_lib \<Rightarrow> string \<Rightarrow> string \<Rightarrow> queue_input \<Rightarrow> outgoing" where
  "postmark_mail_request lib from apiKey inp =
     \<lparr>o_Method = ''POST'', o_URL = postmarkEndpoint,
      o_Headers = [(''X-Postmark-Server-Token'', apiKey), (''Content-Type'', ''application/json''), (''Accept'', ''application/json'')],
      o_Body = json_object (quote lib)
        [(''From'', quote lib from), (''To'', quote lib (q_To inp)),
         (''Subject'', quote lib (q_Subject inp)), (''TextBody'', quote lib (q_Body inp))]\<rparr>"

lemma request_of_job:
  assumes "j_ID j = oid" and "j_Message j = \<lparr>m_To = q_To inp, m_Subject = q_Subject inp, m_Body = q_Body inp\<rparr>"
  shows "resend_request lib \<lparr>ad_from = sndr, ad_apiKey = apiKey, ad_endpoint = resendEndpoint\<rparr> (j_Message j) (IdempotencyKey j) =
      mail_request lib sndr apiKey oid inp"
    and "postmark_request lib \<lparr>ad_from = sndr, ad_apiKey = apiKey, ad_endpoint = postmarkEndpoint\<rparr> (j_Message j) =
      postmark_mail_request lib sndr apiKey inp"
  using assms by (simp_all add: resend_request_def postmark_request_def mail_request_def postmark_mail_request_def IdempotencyKey_def)

lemma Send_asks_once:
  "net (resend_request lib s msg idem) = net' (resend_request lib s msg idem) \<Longrightarrow>
    Send lib net ParseTime now (ResendSender s) msg idem = Send lib net' ParseTime now (ResendSender s) msg idem"
  "net (postmark_request lib s msg) = net' (postmark_request lib s msg) \<Longrightarrow>
    Send lib net ParseTime now (PostmarkSender s) msg idem = Send lib net' ParseTime now (PostmarkSender s) msg idem"
  by (simp_all add: resend_Send_def postmark_Send_def)

lemma NewSender_simps:
  "NewSender ''resend'' sndr apiKey = ResendSender \<lparr>ad_from = sndr, ad_apiKey = apiKey, ad_endpoint = resendEndpoint\<rparr>"
  "NewSender ''postmark'' sndr apiKey = PostmarkSender \<lparr>ad_from = sndr, ad_apiKey = apiKey, ad_endpoint = postmarkEndpoint\<rparr>"
  by (simp_all add: NewSender_def)

text \<open>
  C28. What goes to the provider is what was queued, and a retry repeats it to the byte. For any
  authenticated encryption whose open undoes its seal, take a job handed out after any history
  (failed attempts, lost leases, key rotations that keep the sealing key) under the identifier
  of a queued mail, and a deployment with a fixed sender address and API key. The job has that
  mail's user, provider and purpose, and the request made for it depends on nothing but the
  queued mail and the deployment: through Resend its recipient, subject and body with an
  idempotency key made of the job's identifier; through Postmark the same three and no
  idempotency key, so there nothing lets the provider tell a retry from a second mail. The outcome
  of the attempt depends on the provider's answer to that one request only.
\<close>

theorem retries_repeat_the_queued_request:
  assumes "\<forall>key nonce p a. opn key nonce (sl key nonce p a) a = Some p"
    and "unique_on o_id (email_outbox (wdb w))" and "length nonce = nonceSize"
    and "QueueTx sl kr oid nonce t inp w = (Inr (), w1)"
    and "(outbox_step (\<lambda>i. i \<noteq> oid) (\<lambda>_. True) (\<lambda>_ _. True))\<^sup>*\<^sup>* w1 w2"
    and "Claim opn kr' provider limit locked lease now u u' w2 = (Inr js, w3)"
    and "j \<in> set js" and "j_ID j = oid"
    and "map_of (aeads kr') (activeID kr) = map_of (aeads kr) (activeID kr)"
  shows "j_UserID j = q_UserID inp \<and> j_Provider j = q_Provider inp \<and> j_Purpose j = purpose_string (q_Purpose inp) \<and>
    resend_request lib \<lparr>ad_from = sndr, ad_apiKey = apiKey, ad_endpoint = resendEndpoint\<rparr> (j_Message j) (IdempotencyKey j) =
      mail_request lib sndr apiKey oid inp \<and>
    postmark_request lib \<lparr>ad_from = sndr, ad_apiKey = apiKey, ad_endpoint = postmarkEndpoint\<rparr> (j_Message j) =
      postmark_mail_request lib sndr apiKey inp \<and>
    map_of (o_Headers (mail_request lib sndr apiKey oid inp)) ''Idempotency-Key'' = Some (''auth-email/'' @ oid) \<and>
    map_of (o_Headers (postmark_mail_request lib sndr apiKey inp)) ''Idempotency-Key'' = None \<and>
    (\<forall>net net' at'. net (mail_request lib sndr apiKey oid inp) = net' (mail_request lib sndr apiKey oid inp) \<longrightarrow>
       Send lib net ParseTime at' (NewSender ''resend'' sndr apiKey) (j_Message j) (IdempotencyKey j) =
       Send lib net' ParseTime at' (NewSender ''resend'' sndr apiKey) (j_Message j) (IdempotencyKey j)) \<and>
    (\<forall>net net' at'. net (postmark_mail_request lib sndr apiKey inp) = net' (postmark_mail_request lib sndr apiKey inp) \<longrightarrow>
       Send lib net ParseTime at' (NewSender ''postmark'' sndr apiKey) (j_Message j) (IdempotencyKey j) =
       Send lib net' ParseTime at' (NewSender ''postmark'' sndr apiKey) (j_Message j) (IdempotencyKey j))"
proof -
  note job = delivered_mail_is_what_was_queued [OF assms]
  then have "j_Message j = \<lparr>m_To = q_To inp, m_Subject = q_Subject inp, m_Body = q_Body inp\<rparr>" by simp
  note req = request_of_job [OF assms(8) this, of lib sndr apiKey]
  show ?thesis
    using job req by (intro conjI allI impI)
      (simp | simp only: NewSender_simps, rule Send_asks_once, simp | simp add: mail_request_def postmark_mail_request_def)+
qed

definition plain_mail_lib :: mail_lib where
  "plain_mail_lib = \<lparr>quote = (\<lambda>s. [CHR 0x22] @ s @ [CHR 0x22]), read_id = (\<lambda>b. Some (string_of b)), read_name = string_of,
     read_postmark = (\<lambda>b. (string_of b, 0))\<rparr>"

theorem retries_repeat_the_queued_request_witness:
  "\<exists>j. Claim toy_open sample_keyring ''log'' 4 (\<lambda>_. False) (\<lambda>_. ''L'') 7 7 7 sample_queue_world = (Inr [j], sample_claimed_world) \<and>
     resend_request plain_mail_lib \<lparr>ad_from = ''f'', ad_apiKey = ''k'', ad_endpoint = resendEndpoint\<rparr> (j_Message j) (IdempotencyKey j) =
       mail_request plain_mail_lib ''f'' ''k'' ''o1'' sample_mail \<and>
     postmark_request plain_mail_lib \<lparr>ad_from = ''f'', ad_apiKey = ''k'', ad_endpoint = postmarkEndpoint\<rparr> (j_Message j) =
       postmark_mail_request plain_mail_lib ''f'' ''k'' sample_mail"
proof -
  have h: "\<forall>key nonce p a. toy_open key nonce (toy_seal key nonce p a) a = Some p"
    "unique_on o_id (email_outbox (wdb sample_token_world))" "length (replicate 12 (0 :: byte)) = nonceSize"
    by (simp_all add: toy.open_seal sample_start nonceSize_def)
  have j: "sample_job \<in> set [sample_job]" "j_ID sample_job = ''o1''" by (simp_all add: sample_job_def)
  from retries_repeat_the_queued_request [OF h sample_queue rtranclp.rtrancl_refl sample_claim j refl, where lib = plain_mail_lib
      and sndr = "''f''" and apiKey = "''k''"] sample_claim
  show ?thesis by auto
qed

end
