(* ===== verification/Fleet.thy ===== *)
theory Fleet
  imports Senders
begin

text \<open>
  The worker loop (\<open>Run\<close> in \<open>internal/email/worker.go\<close>) of any number of replicas over one database,
  as a timed step relation. Each replica is at one point of its loop: at the top, in a claimed
  batch, in a provider call, in the acknowledgement of one, in the wait for the next poll, or
  stopped. Time passes in steps of its own; a timer of the code bounds how far it may pass while
  a replica is at a point the timer covers (\<open>sendTimeout\<close>, \<open>finalizeTimeout\<close>). The time a replica spends
  in a batch outside those calls (the answer of \<open>Claim\<close> travelling back, scheduling) is bounded by
  the parameter \<open>slack\<close>. A replica may be told to stop, and may die at any point. Everything else
  that happens to the queue (enqueueing, events, purges) is interleaved freely.
  Shown: while a provider is called for a job, the lease of the job runs, and no other replica
  has the job.
\<close>

subsection \<open>One replica\<close>

definition pollInterval :: duration where "pollInterval = 2 * Second"
definition statsInterval :: duration where "statsInterval = 15 * Second"

datatype phase =
    LoopTop
  | Batch "job list" nat
  | Sending job "job list" nat
  | Acknowledging job outcome "job list" nat
  | Polling
  | Stopped

text \<open>
  \<open>w_since\<close>: when the current call began; \<open>w_claimed\<close>: when the batch was leased; \<open>w_slack\<close>: what is left
  of the time for everything but the calls; \<open>w_stopping\<close>: the context of the worker is done.
\<close>

record worker =
  w_phase :: phase
  w_since :: gotime
  w_claimed :: gotime
  w_slack :: duration
  w_lastStats :: gotime
  w_reg :: metrics_registry
  w_stopping :: bool

fun jobs_of :: "phase \<Rightarrow> job list" where
  "jobs_of (Batch js n) = js"
| "jobs_of (Sending j js n) = j # js"
| "jobs_of (Acknowledging j out js n) = j # js"
| "jobs_of _ = []"

text \<open>The queue sample at the top of the loop, throttled.\<close>

definition sample_if_due :: "string \<Rightarrow> gotime \<Rightarrow> worker \<Rightarrow> worker dbm" where
  "sample_if_due provider now wk =
     (if statsInterval \<le> time_sub now (w_lastStats wk)
      then bindM (sampleQueue provider now (w_reg wk)) (\<lambda>reg. retM (wk\<lparr>w_reg := reg, w_lastStats := now\<rparr>))
      else retM wk)"

text \<open>The second half of \<open>deliver\<close>, and the whole of it as the two halves.\<close>

definition acknowledge :: "job \<Rightarrow> outcome \<Rightarrow> gotime \<Rightarrow> unit dbm" where
  "acknowledge j out dbnow =
     bindM (tryM (Finalize (j_ID j) (j_LeaseToken j) out dbnow)) (\<lambda>r. case r of
       Inl ErrLeaseLost \<Rightarrow> inc_counter MetricLeaseLost
     | _ \<Rightarrow> retM ())"

lemma deliver_halves:
  "deliver send rnd now dbnow j =
     (case classify rnd now j (send (j_Message j) (IdempotencyKey j)) of (out, metric) \<Rightarrow>
        bindM (inc_counter metric) (\<lambda>_. acknowledge j out dbnow))"
  by (simp add: deliver_def acknowledge_def)

text \<open>After a batch: a full one means that more may wait.\<close>

definition after_batch :: "nat \<Rightarrow> phase" where
  "after_batch n = (if n = claimBatch then LoopTop else Polling)"

text \<open>
  How long time may pass while a replica is where it is. The wait for the next poll ends with the
  ticker and a random quarter of its interval; a worker whose context is done does not wait.
\<close>

fun may_pass :: "gotime \<Rightarrow> duration \<Rightarrow> worker \<Rightarrow> bool" where
  "may_pass clock d wk = (case w_phase wk of
     Sending _ _ _ \<Rightarrow> clock + d \<le> w_since wk + sendTimeout
   | Acknowledging _ _ _ _ \<Rightarrow> clock + d \<le> w_since wk + finalizeTimeout
   | Batch _ _ \<Rightarrow> d \<le> w_slack wk
   | Polling \<Rightarrow> clock + d \<le> w_since wk + pollInterval + pollInterval div 4 \<and> (w_stopping wk \<longrightarrow> d = 0)
   | LoopTop \<Rightarrow> w_stopping wk \<longrightarrow> d = 0
   | Stopped \<Rightarrow> True)"

declare may_pass.simps [simp del]

definition elapse :: "duration \<Rightarrow> worker \<Rightarrow> worker" where
  "elapse d wk = (case w_phase wk of Batch _ _ \<Rightarrow> wk\<lparr>w_slack := w_slack wk - d\<rparr> | _ \<Rightarrow> wk)"

subsection \<open>The fleet\<close>

record fleet =
  f_world :: world
  f_clock :: gotime
  f_worker :: "nat \<Rightarrow> worker"

definition held_jobs :: "fleet \<Rightarrow> nat \<Rightarrow> job set" where
  "held_jobs f k = set (jobs_of (w_phase (f_worker f k)))"

definition set_worker :: "nat \<Rightarrow> worker \<Rightarrow> fleet \<Rightarrow> fleet" where
  "set_worker k wk f = f\<lparr>f_worker := (f_worker f)(k := wk)\<rparr>"

text \<open>Identifiers and lease tokens are random: none that is drawn equals one in use.\<close>

definition fresh_tokens :: "fleet \<Rightarrow> (string \<Rightarrow> string) \<Rightarrow> bool" where
  "fresh_tokens f lease \<longleftrightarrow> (\<forall>k. \<forall>j \<in> held_jobs f k. \<forall>i. lease i \<noteq> j_LeaseToken j)"

definition fresh_id :: "fleet \<Rightarrow> string \<Rightarrow> bool" where
  "fresh_id f oid \<longleftrightarrow> (\<forall>k. \<forall>j \<in> held_jobs f k. oid \<noteq> j_ID j)"

inductive worker_step :: "duration \<Rightarrow> nat \<Rightarrow> fleet \<Rightarrow> fleet \<Rightarrow> bool" for slack k where
  wk_claim: "f_worker f k = wk \<Longrightarrow> w_phase wk = LoopTop \<Longrightarrow> \<not> w_stopping wk \<Longrightarrow>
     sample_if_due provider now wk (f_world f) = (Inr wk', w1) \<Longrightarrow>
     fresh_tokens f lease \<Longrightarrow>
     Claim opn kr provider claimBatch locked lease now (f_clock f) (f_clock f) w1 = (Inr js, w2) \<Longrightarrow>
     worker_step slack k f (set_worker k (wk'\<lparr>w_phase := Batch js (length js), w_claimed := f_clock f, w_slack := slack\<rparr>)
       (f\<lparr>f_world := w2\<rparr>))"
| wk_claim_fails: "f_worker f k = wk \<Longrightarrow> w_phase wk = LoopTop \<Longrightarrow> \<not> w_stopping wk \<Longrightarrow>
     sample_if_due provider now wk (f_world f) = (Inr wk', w1) \<Longrightarrow>
     fresh_tokens f lease \<Longrightarrow>
     Claim opn kr provider claimBatch locked lease now (f_clock f) (f_clock f) w1 = (Inl e, w2) \<Longrightarrow>
     worker_step slack k f (set_worker k (wk'\<lparr>w_phase := after_batch 0, w_since := f_clock f\<rparr>) (f\<lparr>f_world := w2\<rparr>))"
| wk_send: "f_worker f k = wk \<Longrightarrow> w_phase wk = Batch (j # js) n \<Longrightarrow>
     worker_step slack k f (set_worker k (wk\<lparr>w_phase := Sending j js n, w_since := f_clock f\<rparr>) f)"
| wk_answer: "f_worker f k = wk \<Longrightarrow> w_phase wk = Sending j js n \<Longrightarrow> classify rnd now j res = (out, metric) \<Longrightarrow>
     inc_counter metric (f_world f) = (Inr (), w') \<Longrightarrow>
     worker_step slack k f (set_worker k (wk\<lparr>w_phase := Acknowledging j out js n, w_since := f_clock f\<rparr>) (f\<lparr>f_world := w'\<rparr>))"
| wk_ack: "f_worker f k = wk \<Longrightarrow> w_phase wk = Acknowledging j out js n \<Longrightarrow>
     acknowledge j out (f_clock f) (f_world f) = (Inr (), w') \<Longrightarrow>
     worker_step slack k f (set_worker k (wk\<lparr>w_phase := Batch js n\<rparr>) (f\<lparr>f_world := w'\<rparr>))"
| wk_batch_done: "f_worker f k = wk \<Longrightarrow> w_phase wk = Batch [] n \<Longrightarrow>
     worker_step slack k f (set_worker k (wk\<lparr>w_phase := after_batch n, w_since := f_clock f\<rparr>) f)"
| wk_poll: "f_worker f k = wk \<Longrightarrow> w_phase wk = Polling \<Longrightarrow>
     worker_step slack k f (set_worker k (wk\<lparr>w_phase := LoopTop\<rparr>) f)"
| wk_stop: "f_worker f k = wk \<Longrightarrow> w_phase wk \<in> {LoopTop, Polling} \<Longrightarrow> w_stopping wk \<Longrightarrow>
     worker_step slack k f (set_worker k (wk\<lparr>w_phase := Stopped\<rparr>) f)"

definition pass_time :: "duration \<Rightarrow> fleet \<Rightarrow> fleet" where
  "pass_time d f = f\<lparr>f_clock := f_clock f + d, f_worker := elapse d \<circ> f_worker f\<rparr>"

definition time_may_pass :: "duration \<Rightarrow> fleet \<Rightarrow> bool" where
  "time_may_pass d f \<longleftrightarrow> 0 \<le> d \<and> (\<forall>k. may_pass (f_clock f) d (f_worker f k))"

definition cancel_worker :: "nat \<Rightarrow> fleet \<Rightarrow> fleet" where
  "cancel_worker k f = set_worker k ((f_worker f k)\<lparr>w_stopping := True\<rparr>) f"

definition kill_worker :: "nat \<Rightarrow> fleet \<Rightarrow> fleet" where
  "kill_worker k f = set_worker k ((f_worker f k)\<lparr>w_phase := Stopped\<rparr>) f"

inductive fleet_step :: "duration \<Rightarrow> fleet \<Rightarrow> fleet \<Rightarrow> bool" for slack where
  fl_worker: "worker_step slack k f g \<Longrightarrow> fleet_step slack f g"
| fl_time: "time_may_pass d f \<Longrightarrow> fleet_step slack f (pass_time d f)"
| fl_cancel: "fleet_step slack f (cancel_worker k f)"
| fl_die: "fleet_step slack f (kill_worker k f)"
| fl_service: "outbox_step (fresh_id f) (\<lambda>_. False) (\<lambda>_ _. False) (f_world f) w' \<Longrightarrow>
     fleet_step slack f (f\<lparr>f_world := w'\<rparr>)"

subsection \<open>Facts about a claimed batch\<close>

lemma subseq_distinct:
  assumes "subseq xs ys" and "distinct ys"
  shows "distinct xs"
proof -
  obtain N where "xs = nths ys N" using assms(1) by (auto simp: subseq_conv_nths)
  with assms(2) show ?thesis by (simp add: distinct_nthsI)
qed

lemma decrypt_jobs_ids:
  "decrypt_jobs opn kr t cs w = (Inr js, w') \<Longrightarrow> subseq (map j_ID js) (map (j_ID \<circ> snd) cs)"
proof (induction cs arbitrary: w js)
  case (Cons a cs)
  obtain c j where a: "a = (c, j)" by fastforce
  show ?case
  proof (cases "open_claim opn kr c j")
    case (Inl e)
    then obtain w1 where "decrypt_jobs opn kr t cs w1 = (Inr js, w')"
      using Cons.prems a by (auto simp: bindM_eq_Inr)
    from Cons.IH [OF this] show ?thesis by (simp add: list_emb_Cons)
  next
    case (Inr body)
    then obtain js' where js: "js = j\<lparr>j_Message := (j_Message j)\<lparr>m_Body := string_of body\<rparr>\<rparr> # js'"
      and "decrypt_jobs opn kr t cs w = (Inr js', w')"
      using Cons.prems a by (auto simp: bindM_eq_Inr retM_def)
    from Cons.IH [OF this(2)] show ?thesis using a by (simp add: js)
  qed
qed (simp add: retM_def)

lemma Claim_batch:
  assumes "Claim opn kr provider limit locked lease now t t' w = (Inr js, w')" and "unique_on o_id (email_outbox (wdb w))"
  shows "distinct (map j_ID js)" and "length js \<le> limit" and "\<forall>j \<in> set js. j_LeaseToken j = lease (j_ID j)"
proof -
  have "distinct (map j_ID js) \<and> length js \<le> limit"
  proof (cases "js = []")
    case False
    obtain a b c claimed w1 w2 where
      tx: "in_tx (claim_tx provider limit locked lease now t) w = (Inr (a, b, c, claimed), w1)"
      and dec: "decrypt_jobs opn kr t' claimed w2 = (Inr js, w')"
      by (rule Claim_run [OF assms(1) False])
    note com = claim_tx_commit [OF tx assms(2)]
    let ?cs = "candidates provider limit locked t (wdb w)"
    have "j_ID (snd x) = o_id (fst x)" if "x \<in> set claimed" for x using com(2) that by auto
    then have ids: "map (j_ID \<circ> snd) claimed = ids_with now VLeasable ?cs" unfolding com(3) [symmetric] by simp
    have sub: "subseq (map j_ID js) (ids_with now VLeasable ?cs)" using decrypt_jobs_ids [OF dec] by (simp only: ids)
    have "distinct (ids_with now VLeasable ?cs)"
      unfolding ids_with_def by (rule distinct_map_filter [OF candidates_distinct [OF assms(2)]])
    then have "distinct (map j_ID js)" by (rule subseq_distinct [OF sub])
    moreover have "length (ids_with now VLeasable ?cs) \<le> limit"
      by (auto simp: ids_with_def candidates_def intro: order_trans [OF length_filter_le])
    then have "length js \<le> limit" using list_emb_length [OF sub] by simp
    ultimately show ?thesis by blast
  qed simp
  then show "distinct (map j_ID js)" and "length js \<le> limit" by simp_all
  show "\<forall>j \<in> set js. j_LeaseToken j = lease (j_ID j)" by (metis Claim_jobs [OF assms(1) _ assms(2)] job.select_convs(1,6))
qed

subsection \<open>The invariant of the fleet\<close>

interpretation key_rows: row_invariant "\<lambda>_. True" "\<lambda>_. True" "\<lambda>_. True" "\<lambda>_ _. True"
  by unfold_locales simp_all

definition delivery_time :: duration where
  "delivery_time = sendTimeout + finalizeTimeout"

definition on_time :: "duration \<Rightarrow> gotime \<Rightarrow> worker \<Rightarrow> bool" where
  "on_time slack clock wk \<longleftrightarrow> (case w_phase wk of
     Batch js n \<Rightarrow> 0 \<le> w_slack wk \<and> w_slack wk \<le> slack \<and> n \<le> claimBatch \<and> length js \<le> n \<and>
       clock + w_slack wk \<le> w_claimed wk + slack + int (n - length js) * delivery_time
   | Sending j js n \<Rightarrow> 0 \<le> w_slack wk \<and> w_slack wk \<le> slack \<and> n \<le> claimBatch \<and> length js < n \<and> w_since wk \<le> clock \<and> clock \<le> w_since wk + sendTimeout \<and>
       w_since wk + w_slack wk \<le> w_claimed wk + slack + int (n - Suc (length js)) * delivery_time
   | Acknowledging j out js n \<Rightarrow> 0 \<le> w_slack wk \<and> w_slack wk \<le> slack \<and> n \<le> claimBatch \<and> length js < n \<and> w_since wk \<le> clock \<and> clock \<le> w_since wk + finalizeTimeout \<and>
       w_since wk + w_slack wk \<le> w_claimed wk + slack + int (n - Suc (length js)) * delivery_time + sendTimeout
   | Polling \<Rightarrow> clock \<le> w_since wk + pollInterval + pollInterval div 4
   | _ \<Rightarrow> True)"

lemma on_time_stopping: "on_time slack clock (wk\<lparr>w_stopping := b\<rparr>) = on_time slack clock wk"
  by (cases "w_phase wk") (simp_all add: on_time_def)

lemma delivery_time_nonneg: "0 \<le> delivery_time" "0 \<le> sendTimeout" "0 \<le> finalizeTimeout"
  by (simp_all add: delivery_time_def sendTimeout_def finalizeTimeout_def Second_def)

lemma on_time_lease:
  assumes "on_time slack clock wk" and "slack < 20 * Second" and "jobs_of (w_phase wk) \<noteq> []"
  shows "clock < w_claimed wk + LeaseDuration"
proof -
  have le: "int m * delivery_time \<le> int claimBatch * delivery_time" if "m \<le> claimBatch" for m
    using that delivery_time_nonneg(1) by (simp add: mult_right_mono)
  have suc: "int (n - Suc m) * delivery_time + sendTimeout + finalizeTimeout = int (n - m) * delivery_time" if "m < n" for n m
    using that by (simp add: Suc_diff_Suc [symmetric] delivery_time_def algebra_simps)
  have lim: "int claimBatch * delivery_time + 20 * Second \<le> LeaseDuration"
    by (simp add: claimBatch_def delivery_time_def sendTimeout_def finalizeTimeout_def LeaseDuration_def Second_def Minute_def)
  obtain m where "m \<le> claimBatch" "clock \<le> w_claimed wk + slack + int m * delivery_time"
  proof (cases "w_phase wk")
    case (Batch js n)
    with assms(1) show thesis by (intro that [of "n - length js"]) (auto simp: on_time_def)
  next
    case (Sending j js n)
    with assms(1) suc [of "length js" n] delivery_time_nonneg show thesis by (intro that [of "n - length js"]) (auto simp: on_time_def)
  next
    case (Acknowledging j out js n)
    with assms(1) suc [of "length js" n] delivery_time_nonneg show thesis by (intro that [of "n - length js"]) (auto simp: on_time_def)
  qed (use assms(3) in auto)
  with le [of m] lim assms(2) show ?thesis by linarith
qed

definition leased :: "fleet \<Rightarrow> nat \<Rightarrow> job \<Rightarrow> bool" where
  "leased f k j \<longleftrightarrow> held_rows.jobs_inv (j_ID j) (j_LeaseToken j) (w_claimed (f_worker f k) + LeaseDuration) (wdb (f_world f))"

definition fleet_inv :: "duration \<Rightarrow> fleet \<Rightarrow> bool" where
  "fleet_inv slack f \<longleftrightarrow>
     unique_on o_id (email_outbox (wdb (f_world f))) \<and>
     (\<forall>k. on_time slack (f_clock f) (f_worker f k)) \<and>
     (\<forall>k. \<forall>j \<in> held_jobs f k. leased f k j) \<and>
     (\<forall>k. distinct (map j_ID (jobs_of (w_phase (f_worker f k))))) \<and>
     (\<forall>k l. k \<noteq> l \<longrightarrow> j_ID ` held_jobs f k \<inter> j_ID ` held_jobs f l = {})"

lemma held_jobs_set_worker:
  "held_jobs (set_worker k wk f) l = (if l = k then set (jobs_of (w_phase wk)) else held_jobs f l)"
  by (simp add: held_jobs_def set_worker_def)

lemma held_jobs_world [simp]: "held_jobs (f\<lparr>f_world := w\<rparr>) l = held_jobs f l"
  by (simp add: held_jobs_def)

lemma set_worker_simps [simp]:
  "f_worker (set_worker k wk f) l = (if l = k then wk else f_worker f l)" "f_world (set_worker k wk f) = f_world f"
  "f_clock (set_worker k wk f) = f_clock f"
  by (simp_all add: set_worker_def)

lemma sample_if_due_quiet:
  assumes "sample_if_due provider now wk w = (Inr wk', w')"
  shows "wdb w' = wdb w" and "w_phase wk' = w_phase wk" and "w_claimed wk' = w_claimed wk" and "w_stopping wk' = w_stopping wk"
proof -
  have "wdb w2 = wdb w1" if "sampleQueue provider now reg w1 = (r, w2)" for reg w1 r w2
    using that by (auto simp: sampleQueue_def QueueStats_def bindM_def tryM_def retM_def split: prod.splits sum.splits dest!: query_db)
  then show "wdb w' = wdb w" "w_phase wk' = w_phase wk" "w_claimed wk' = w_claimed wk" "w_stopping wk' = w_stopping wk"
    using assms by (auto simp: sample_if_due_def bindM_eq_Inr retM_def split: if_splits)
qed

text \<open>A replica keeps part of its jobs while the world moves on without touching their leases.\<close>

lemma inv_local:
  assumes inv: "fleet_inv slack f" and time: "on_time slack (f_clock f) wk'" and claimed: "w_claimed wk' = w_claimed (f_worker f k)"
    and part: "set (jobs_of (w_phase wk')) \<subseteq> held_jobs f k" and dist: "distinct (map j_ID (jobs_of (w_phase wk')))"
    and uniq: "unique_on o_id (email_outbox (wdb w'))"
    and world: "\<And>l j. j \<in> held_jobs f l \<Longrightarrow> l = k \<longrightarrow> j \<in> set (jobs_of (w_phase wk')) \<Longrightarrow>
      held_rows.jobs_inv (j_ID j) (j_LeaseToken j) (w_claimed (f_worker f l) + LeaseDuration) (wdb w')"
  shows "fleet_inv slack (set_worker k wk' (f\<lparr>f_world := w'\<rparr>))"
proof -
  let ?f = "set_worker k wk' (f\<lparr>f_world := w'\<rparr>)"
  have sub: "held_jobs ?f l \<subseteq> held_jobs f l" for l using part by (simp add: held_jobs_set_worker)
  have "leased ?f l j" if "j \<in> held_jobs ?f l" for l j
    using world [of j l] that part claimed
    by (cases "l = k") (auto simp: leased_def held_jobs_set_worker)
  moreover have "j_ID ` held_jobs ?f a \<inter> j_ID ` held_jobs ?f b = {}" if "a \<noteq> b" for a b
    using inv that sub [of a] sub [of b] unfolding fleet_inv_def by blast
  ultimately show ?thesis using inv time dist uniq by (simp add: fleet_inv_def)
qed

lemma inv_quiet:
  assumes "fleet_inv slack f" and "on_time slack (f_clock f) wk'" and "w_claimed wk' = w_claimed (f_worker f k)"
    and "set (jobs_of (w_phase wk')) \<subseteq> held_jobs f k" and "distinct (map j_ID (jobs_of (w_phase wk')))"
    and "wdb w' = wdb (f_world f)"
  shows "fleet_inv slack (set_worker k wk' (f\<lparr>f_world := w'\<rparr>))"
  by (rule inv_local [OF assms(1-5)]) (use assms(1,6) in \<open>auto simp: fleet_inv_def leased_def\<close>)

lemma fleet_invD:
  assumes "fleet_inv slack f"
  shows "unique_on o_id (email_outbox (wdb (f_world f)))" and "on_time slack (f_clock f) (f_worker f k)"
    and "j \<in> held_jobs f k \<Longrightarrow> leased f k j" and "distinct (map j_ID (jobs_of (w_phase (f_worker f k))))"
    and "k \<noteq> l \<Longrightarrow> j_ID ` held_jobs f k \<inter> j_ID ` held_jobs f l = {}"
  using assms by (auto simp: fleet_inv_def)

lemma inv_time:
  assumes inv: "fleet_inv slack f" and pass: "time_may_pass d f"
  shows "fleet_inv slack (pass_time d f)"
proof -
  have same: "w_phase (elapse d wk) = w_phase wk" "w_claimed (elapse d wk) = w_claimed wk" "w_since (elapse d wk) = w_since wk" for wk
    by (simp_all add: elapse_def split: phase.splits)
  have "on_time slack (f_clock f + d) (elapse d (f_worker f k))" for k
    using fleet_invD(2) [OF inv, of k] pass
    by (cases "w_phase (f_worker f k)") (auto simp: time_may_pass_def on_time_def may_pass.simps elapse_def dest: spec [of _ k])
  with inv same show ?thesis by (simp add: fleet_inv_def held_jobs_def leased_def pass_time_def)
qed

lemma lease_runs:
  assumes "fleet_inv slack f" and "slack < 20 * Second" and "j \<in> held_jobs f l"
  shows "f_clock f < w_claimed (f_worker f l) + LeaseDuration"
  using on_time_lease [OF fleet_invD(2) [OF assms(1)] assms(2), of l] assms(3)
  by (cases "jobs_of (w_phase (f_worker f l))") (auto simp: held_jobs_def)

lemma claim_keeps_leases:
  assumes inv: "fleet_inv slack f" and slack: "slack < 20 * Second" and fresh: "fresh_tokens f lease"
    and quiet: "wdb w1 = wdb (f_world f)"
    and run: "Claim opn kr provider limit locked lease now (f_clock f) t w1 = (r, w2)"
  shows "unique_on o_id (email_outbox (wdb w2))"
    and "j \<in> held_jobs f l \<Longrightarrow> held_rows.jobs_inv (j_ID j) (j_LeaseToken j) (w_claimed (f_worker f l) + LeaseDuration) (wdb w2)"
proof -
  have "key_rows.jobs_inv (wdb w2)"
    by (rule keepsD [OF key_rows.keeps_Claim run]) (use fleet_invD(1) [OF inv] quiet in \<open>auto simp: key_rows.jobs_inv_def\<close>)
  then show "unique_on o_id (email_outbox (wdb w2))" by (simp add: key_rows.jobs_inv_def)
  assume j: "j \<in> held_jobs f l"
  show "held_rows.jobs_inv (j_ID j) (j_LeaseToken j) (w_claimed (f_worker f l) + LeaseDuration) (wdb w2)"
    by (rule held_rows.inv_step [OF ob_claim [OF _ run]])
      (use lease_runs [OF inv slack j] fleet_invD(3) [OF inv j] quiet fresh j in \<open>auto simp: fresh_tokens_def leased_def\<close>)
qed

lemma inv_claim:
  assumes inv: "fleet_inv slack f" and slack: "0 \<le> slack" "slack < 20 * Second" and fresh: "fresh_tokens f lease"
    and quiet: "wdb w1 = wdb (f_world f)"
    and run: "Claim opn kr provider claimBatch locked lease now (f_clock f) (f_clock f) w1 = (Inr js, w2)"
  shows "fleet_inv slack (set_worker k (wk'\<lparr>w_phase := Batch js (length js), w_claimed := f_clock f, w_slack := slack\<rparr>)
     (f\<lparr>f_world := w2\<rparr>))" (is "fleet_inv slack ?f")
proof -
  let ?t = "f_clock f"
  have uniq: "unique_on o_id (email_outbox (wdb w1))" using fleet_invD(1) [OF inv] quiet by simp
  note batch = Claim_batch [OF run uniq]
  note kept = claim_keeps_leases [OF inv slack(2) fresh quiet run]
  have others: "held_jobs ?f l = (if l = k then set js else held_jobs f l)" for l by (simp add: held_jobs_set_worker)
  have apart: "j_ID j \<notin> j_ID ` set js" if "j \<in> held_jobs f l" for l j
    by (rule held_not_claimed [OF _ lease_runs [OF inv slack(2) that] run])
      (use fleet_invD(3) [OF inv that] quiet in \<open>simp add: leased_def\<close>)
  have "leased ?f l j" if "j \<in> held_jobs ?f l" for l j
    using that kept(2) Claim_establishes_hold [OF uniq run, of j] by (auto simp: leased_def others split: if_splits)
  moreover have "on_time slack ?t (f_worker ?f l)" for l
    using fleet_invD(2) [OF inv, of l] batch(2) slack(1) by (cases "l = k") (simp_all add: on_time_def)
  moreover have "distinct (map j_ID (jobs_of (w_phase (f_worker ?f l))))" for l
    using fleet_invD(4) [OF inv, of l] batch(1) by simp
  moreover have "j_ID ` held_jobs ?f a \<inter> j_ID ` held_jobs ?f b = {}" if "a \<noteq> b" for a b
  proof -
    have "j_ID ` set js \<inter> j_ID ` held_jobs f l = {}" for l
    proof (rule equals0I)
      fix i assume "i \<in> j_ID ` set js \<inter> j_ID ` held_jobs f l"
      then obtain j where "j \<in> held_jobs f l" "j_ID j \<in> j_ID ` set js" by (elim IntE imageE) simp
      with apart show False by simp
    qed
    with fleet_invD(5) [OF inv that] that show ?thesis by (simp add: others Int_commute)
  qed
  ultimately show ?thesis using kept(1) by (simp add: fleet_inv_def)
qed

text \<open>An acknowledgement concerns one job only.\<close>

lemma inv_ack:
  assumes inv: "fleet_inv slack f" and ph: "w_phase (f_worker f k) = Acknowledging j out js n"
    and run: "acknowledge j out t (f_world f) = (Inr (), w')"
  shows "fleet_inv slack (set_worker k ((f_worker f k)\<lparr>w_phase := Batch js n\<rparr>) (f\<lparr>f_world := w'\<rparr>))"
proof (rule inv_local [OF inv])
  let ?wk = "f_worker f k"
  have ontime: "on_time slack (f_clock f) ?wk" and dist: "distinct (map j_ID (j # js))"
    using fleet_invD(2,4) [OF inv, of k] ph by simp_all
  have "int (n - length js) * delivery_time = int (n - Suc (length js)) * delivery_time + delivery_time" if "length js < n"
    using that by (simp add: Suc_diff_Suc [symmetric] algebra_simps)
  then show "on_time slack (f_clock f) (?wk\<lparr>w_phase := Batch js n\<rparr>)"
    using ontime ph by (auto simp: on_time_def delivery_time_def)
  show "distinct (map j_ID (jobs_of (w_phase (?wk\<lparr>w_phase := Batch js n\<rparr>))))" using dist by simp
  show "set (jobs_of (w_phase (?wk\<lparr>w_phase := Batch js n\<rparr>))) \<subseteq> held_jobs f k" using ph by (auto simp: held_jobs_def)
  obtain r w1 where fin: "Finalize (j_ID j) (j_LeaseToken j) out t (f_world f) = (r, w1)" by fastforce
  then have same: "wdb w' = wdb w1"
    using run by (auto simp: acknowledge_def tryM_def bindM_def inc_counter_def retM_def split: sum.splits err.splits)
  have "key_rows.jobs_inv (wdb w1)"
    by (rule keepsD [OF key_rows.keeps_Finalize fin]) (use fleet_invD(1) [OF inv] in \<open>auto simp: key_rows.jobs_inv_def\<close>)
  then show "unique_on o_id (email_outbox (wdb w'))" by (simp add: key_rows.jobs_inv_def same)
  fix l j' assume j': "j' \<in> held_jobs f l" and part: "l = k \<longrightarrow> j' \<in> set (jobs_of (w_phase (?wk\<lparr>w_phase := Batch js n\<rparr>)))"
  have "j_ID j' \<noteq> j_ID j"
  proof (cases "l = k")
    case True
    with part dist show ?thesis by (auto simp: image_iff)
  next
    case False
    have "j \<in> held_jobs f k" using ph by (simp add: held_jobs_def)
    with fleet_invD(5) [OF inv False] j' show ?thesis by (metis disjoint_iff imageI)
  qed
  then have "keeps (held_rows.jobs_inv (j_ID j') (j_LeaseToken j') (w_claimed (f_worker f l) + LeaseDuration))
      (Finalize (j_ID j) (j_LeaseToken j) out t)"
    by (intro held_rows.keeps_Finalize) simp
  from keepsD [OF this fin] fleet_invD(3) [OF inv j']
  show "held_rows.jobs_inv (j_ID j') (j_LeaseToken j') (w_claimed (f_worker f l) + LeaseDuration) (wdb w')"
    by (simp add: leased_def same)
qed simp

lemma outbox_step_weaken:
  assumes "outbox_step minted claims fin w w'" and "\<And>x. minted x \<Longrightarrow> minted' x" and "\<And>t. claims t \<Longrightarrow> claims' t"
    and "\<And>i x. fin i x \<Longrightarrow> fin' i x"
  shows "outbox_step minted' claims' fin' w w'"
  using assms(1) by cases (use assms(2-4) in \<open>blast intro: outbox_step.intros\<close>)+

lemma inv_service:
  assumes inv: "fleet_inv slack f" and step: "outbox_step (fresh_id f) (\<lambda>_. False) (\<lambda>_ _. False) (f_world f) w'"
  shows "fleet_inv slack (f\<lparr>f_world := w'\<rparr>)"
proof -
  have "key_rows.jobs_inv (wdb w')"
    by (rule key_rows.inv_step [OF outbox_step_weaken [OF step]]) (use fleet_invD(1) [OF inv] in \<open>auto simp: key_rows.jobs_inv_def\<close>)
  moreover have "leased (f\<lparr>f_world := w'\<rparr>) k j" if j: "j \<in> held_jobs f k" for k j
  proof -
    have "outbox_step (\<lambda>oid. oid \<noteq> j_ID j) (\<lambda>t. t < w_claimed (f_worker f k) + LeaseDuration)
        (\<lambda>i x. \<not> (i = j_ID j \<and> x = j_LeaseToken j)) (f_world f) w'"
      by (rule outbox_step_weaken [OF step]) (use j in \<open>auto simp: fresh_id_def\<close>)
    from held_rows.inv_step [OF this] fleet_invD(3) [OF inv j] show ?thesis by (simp add: leased_def)
  qed
  ultimately show ?thesis using inv by (simp add: fleet_inv_def key_rows.jobs_inv_def)
qed

lemma inv_worker:
  assumes "worker_step slack k f g" and inv: "fleet_inv slack f" and slack: "0 \<le> slack" "slack < 20 * Second"
  shows "fleet_inv slack g"
  using assms(1)
proof cases
  case (wk_claim wk provider now wk' w1 lease opn kr locked js w2)
  show ?thesis unfolding wk_claim(1)
    by (rule inv_claim [OF inv slack wk_claim(6) sample_if_due_quiet(1) [OF wk_claim(5)] wk_claim(7)])
next
  case (wk_claim_fails wk provider now wk' w1 lease opn kr locked e w2)
  let ?wk = "wk'\<lparr>w_phase := after_batch 0, w_since := f_clock f\<rparr>"
  note quiet = sample_if_due_quiet [OF wk_claim_fails(5)]
  have none: "jobs_of (w_phase ?wk) = []" "on_time slack (f_clock f) ?wk"
    by (simp_all add: after_batch_def on_time_def claimBatch_def pollInterval_def Second_def)
  note kept = claim_keeps_leases [OF inv slack(2) wk_claim_fails(6) quiet(1) wk_claim_fails(7)]
  show ?thesis unfolding wk_claim_fails(1)
    by (rule inv_local [OF inv none(2)]) (use quiet kept none(1) wk_claim_fails(2) in simp_all)
next
  case (wk_send wk j js n)
  then show ?thesis
    using inv_quiet [OF inv, of "wk\<lparr>w_phase := Sending j js n, w_since := f_clock f\<rparr>" k "f_world f"] fleet_invD(2,4) [OF inv, of k]
      delivery_time_nonneg(2)
    by (auto simp: held_jobs_def on_time_def)
next
  case (wk_answer wk j js n rnd now res out metric w')
  then show ?thesis
    using inv_quiet [OF inv, of "wk\<lparr>w_phase := Acknowledging j out js n, w_since := f_clock f\<rparr>" k w'] fleet_invD(2,4) [OF inv, of k]
      delivery_time_nonneg(3)
    by (auto simp: held_jobs_def on_time_def inc_counter_def)
next
  case (wk_ack wk j out js n w')
  show ?thesis unfolding wk_ack(1) wk_ack(2) [symmetric] by (rule inv_ack [OF inv]) (use wk_ack in simp_all)
next
  case (wk_batch_done wk n)
  then show ?thesis
    using inv_quiet [OF inv, of "wk\<lparr>w_phase := after_batch n, w_since := f_clock f\<rparr>" k "f_world f"]
    by (simp add: on_time_def after_batch_def pollInterval_def Second_def)
next
  case (wk_poll wk)
  then show ?thesis using inv_quiet [OF inv, of "wk\<lparr>w_phase := LoopTop\<rparr>" k "f_world f"] by (simp add: on_time_def)
next
  case (wk_stop wk)
  then show ?thesis using inv_quiet [OF inv, of "wk\<lparr>w_phase := Stopped\<rparr>" k "f_world f"] by (simp add: on_time_def)
qed

lemma inv_fleet:
  assumes "fleet_step slack f g" and inv: "fleet_inv slack f" and slack: "0 \<le> slack" "slack < 20 * Second"
  shows "fleet_inv slack g"
  using assms(1)
proof cases
  case (fl_worker k)
  show ?thesis by (rule inv_worker [OF fl_worker inv slack])
next
  case (fl_time d)
  then show ?thesis using inv_time [OF inv] by simp
next
  case (fl_cancel k)
  then show ?thesis
    using inv_quiet [OF inv, of "(f_worker f k)\<lparr>w_stopping := True\<rparr>" k "f_world f"] fleet_invD(2,4) [OF inv, of k]
    by (simp add: on_time_stopping held_jobs_def cancel_worker_def)
next
  case (fl_die k)
  then show ?thesis
    using inv_quiet [OF inv, of "(f_worker f k)\<lparr>w_phase := Stopped\<rparr>" k "f_world f"] by (simp add: on_time_def kill_worker_def)
next
  case (fl_service w')
  then show ?thesis using inv_service [OF inv] by simp
qed

interpretation fleet_run: preserved "fleet_step slack" "\<lambda>f. 0 \<le> slack \<longrightarrow> slack < 20 * Second \<longrightarrow> fleet_inv slack f" for slack
  by unfold_locales (blast intro: inv_fleet)

subsection \<open>Exclusive delivery\<close>

text \<open>A fleet just started: the table has its key, and every replica is at the top of its loop.\<close>

definition fleet_start :: "fleet \<Rightarrow> bool" where
  "fleet_start f \<longleftrightarrow> unique_on o_id (email_outbox (wdb (f_world f))) \<and> (\<forall>k. w_phase (f_worker f k) = LoopTop)"

lemma fleet_start_inv: "fleet_start f \<Longrightarrow> fleet_inv slack f"
  by (simp add: fleet_start_def fleet_inv_def on_time_def held_jobs_def)

text \<open>
  C25. No mail is in the hands of two replicas. However many replicas run the loop, whatever their
  providers answer and however they are stopped or killed, as long as a replica spends less than
  20 seconds of a batch outside its bounded calls: no two replicas hold the same job, the lease
  of a held job has not run out, so that a claim made at this moment by anyone does not hand the
  job out, and an idle replica is never more than two and a half seconds from its next look.
\<close>

theorem fleet_delivers_exclusively:
  assumes "fleet_start f0" and "(fleet_step slack)\<^sup>*\<^sup>* f0 f" and "0 \<le> slack" and "slack < 20 * Second"
  shows "(k \<noteq> l \<longrightarrow> j_ID ` held_jobs f k \<inter> j_ID ` held_jobs f l = {}) \<and>
    (\<forall>j \<in> held_jobs f k. f_clock f < w_claimed (f_worker f k) + LeaseDuration \<and>
      (\<forall>opn kr provider limit locked lease now u js w'.
         Claim opn kr provider limit locked lease now (f_clock f) u (f_world f) = (Inr js, w') \<longrightarrow> j_ID j \<notin> j_ID ` set js)) \<and>
    (w_phase (f_worker f k) = Polling \<longrightarrow> f_clock f \<le> w_since (f_worker f k) + 2 * Second + Second div 2)"
proof -
  have inv: "fleet_inv slack f"
    using fleet_run.run_inv [OF assms(2)] fleet_start_inv [OF assms(1)] assms(3,4) by blast
  have claim: "j_ID j \<notin> j_ID ` set js" if j: "j \<in> held_jobs f k"
    and run: "Claim opn kr provider limit locked lease now (f_clock f) u (f_world f) = (Inr js, w')"
    for opn kr provider limit locked lease now u js w' j
    by (rule held_not_claimed [OF _ lease_runs [OF inv assms(4) j] run]) (use fleet_invD(3) [OF inv j] in \<open>simp add: leased_def\<close>)
  have "w_phase (f_worker f k) = Polling \<longrightarrow> f_clock f \<le> w_since (f_worker f k) + 2 * Second + Second div 2"
    using fleet_invD(2) [OF inv, of k] by (auto simp: on_time_def pollInterval_def Second_def)
  then show ?thesis
    by (intro conjI ballI allI impI) (use fleet_invD(5) [OF inv, of k l] lease_runs [OF inv assms(4)] claim in simp_all)
qed

definition idle_worker :: worker where
  "idle_worker = \<lparr>w_phase = LoopTop, w_since = 0, w_claimed = 0, w_slack = 0, w_lastStats = 0, w_reg = New, w_stopping = False\<rparr>"

definition sample_fleet :: fleet where
  "sample_fleet = \<lparr>f_world = sample_queue_world, f_clock = 7, f_worker = \<lambda>_. idle_worker\<rparr>"

text \<open>Two replicas, of which the first has claimed a mail and calls its provider.\<close>

definition sample_sending :: fleet where
  "sample_sending = set_worker 0 (idle_worker\<lparr>w_phase := Sending sample_job [] 1, w_claimed := 7, w_slack := 1, w_since := 7\<rparr>)
     (sample_fleet\<lparr>f_world := sample_claimed_world\<rparr>)"

lemma sample_worker_run: "(worker_step 1 0)\<^sup>*\<^sup>* sample_fleet sample_sending"
proof -
  let ?w1 = "idle_worker\<lparr>w_phase := Batch [sample_job] 1, w_claimed := 7, w_slack := 1\<rparr>"
  let ?f1 = "set_worker 0 ?w1 (sample_fleet\<lparr>f_world := sample_claimed_world\<rparr>)"
  have "sample_if_due ''log'' 7 idle_worker sample_queue_world = (Inr idle_worker, sample_queue_world)"
    by (simp add: sample_if_due_def idle_worker_def time_sub_def sat64_def statsInterval_def Second_def retM_def)
  moreover have "fresh_tokens sample_fleet (\<lambda>_. ''L'')"
    by (simp add: fresh_tokens_def held_jobs_def sample_fleet_def idle_worker_def)
  ultimately have "worker_step 1 0 sample_fleet ?f1"
    using wk_claim [of sample_fleet 0 idle_worker "''log''" 7 idle_worker sample_queue_world "\<lambda>_. ''L''" toy_open sample_keyring
        "\<lambda>_. False" "[sample_job]" sample_claimed_world 1] sample_claim
    by (simp add: sample_fleet_def idle_worker_def claimBatch_def)
  moreover have "worker_step 1 0 ?f1 sample_sending"
    using wk_send [of ?f1 0 ?w1 sample_job "[]" 1 1] by (simp add: sample_sending_def set_worker_def sample_fleet_def idle_worker_def)
  ultimately show ?thesis by (meson converse_rtranclp_into_rtranclp rtranclp.rtrancl_refl)
qed

lemma sample_fleet_run: "(fleet_step 1)\<^sup>*\<^sup>* sample_fleet sample_sending"
  using sample_worker_run by (rule rtranclp_mono [THEN predicate2D, rotated]) (blast intro: fl_worker)

theorem fleet_delivers_exclusively_witness:
  "held_jobs sample_sending 0 = {sample_job} \<and> f_clock sample_sending < w_claimed (f_worker sample_sending 0) + LeaseDuration \<and>
   j_ID ` held_jobs sample_sending 0 \<inter> j_ID ` held_jobs sample_sending 1 = {}"
proof -
  have start: "fleet_start sample_fleet"
    by (simp add: fleet_start_def sample_fleet_def idle_worker_def sample_queue_world_def unique_on_def)
  have "held_jobs sample_sending 0 = {sample_job}" by (simp add: held_jobs_def sample_sending_def)
  with fleet_delivers_exclusively [OF start sample_fleet_run, of 0 1] show ?thesis by (simp add: Second_def)
qed

end
