(* ===== verification/Shutdown.thy ===== *)
theory Shutdown
  imports Fleet
begin

text \<open>
  The life of a serving process (\<open>serve\<close> in \<open>cmd/sesamo/serve.go\<close>): the main goroutine beside the
  worker of this replica (number 0 of the fleet), from the signal to the end of the process.
  Shown: a process that ends without an error has a stopped worker, and the queue shows every final
  answer of a provider that was in hand during the shutdown, unless the database failed; after the signal the worker stops within the time its claimed jobs may take; so one
  delivery in flight is always waited for. The last theorem shows the limit of that: a worker
  stops claiming at the signal but works off its whole batch, and with two slow mails in it the
  process gives up on the second, whose acceptance is then never recorded.
\<close>

definition shutdownTimeout :: duration where "shutdownTimeout = 30 * Second"

datatype serve_error = DeadlineExceeded | ShutdownFailed | ListenFailed

text \<open>Where the main goroutine is: in the \<open>select\<close>, in \<open>srv.Shutdown\<close>, waiting for \<open>workerDone\<close>, or back in \<open>runServe\<close>.\<close>

datatype main_phase =
    Listening
  | DrainingHTTP gotime
  | AwaitingWorker gotime "serve_error option"
  | Returned "serve_error option"

record process =
  p_fleet :: fleet
  p_main :: main_phase

fun main_may_pass :: "main_phase \<Rightarrow> fleet \<Rightarrow> duration \<Rightarrow> bool" where
  "main_may_pass (DrainingHTTP s) f d = (f_clock f + d \<le> s + shutdownTimeout)"
| "main_may_pass (AwaitingWorker s e) f d =
     (f_clock f + d \<le> s + shutdownTimeout \<and> (w_phase (f_worker f 0) = Stopped \<longrightarrow> d = 0))"
| "main_may_pass _ f d = True"

text \<open>What \<open>serve\<close> returns once the worker is done: an elapsed grace period is only logged.\<close>

definition drained :: "serve_error option \<Rightarrow> serve_error option" where
  "drained e = (if e = Some DeadlineExceeded then None else e)"

text \<open>\<open>used\<close>: identifiers in use, which no new mail gets.\<close>

inductive serve_step :: "duration \<Rightarrow> (string \<Rightarrow> bool) \<Rightarrow> process \<Rightarrow> process \<Rightarrow> bool" for slack used where
  sv_time: "time_may_pass d f \<Longrightarrow> main_may_pass m f d \<Longrightarrow>
     serve_step slack used \<lparr>p_fleet = f, p_main = m\<rparr> \<lparr>p_fleet = pass_time d f, p_main = m\<rparr>"
| sv_work: "worker_step slack k f g \<Longrightarrow> serve_step slack used \<lparr>p_fleet = f, p_main = m\<rparr> \<lparr>p_fleet = g, p_main = m\<rparr>"
| sv_others: "k \<noteq> 0 \<Longrightarrow> g \<in> {cancel_worker k f, kill_worker k f} \<Longrightarrow>
     serve_step slack used \<lparr>p_fleet = f, p_main = m\<rparr> \<lparr>p_fleet = g, p_main = m\<rparr>"
| sv_service: "outbox_step (\<lambda>oid. fresh_id f oid \<and> \<not> used oid) (\<lambda>_. False) (\<lambda>_ _. False) (f_world f) w' \<Longrightarrow>
     serve_step slack used \<lparr>p_fleet = f, p_main = m\<rparr> \<lparr>p_fleet = f\<lparr>f_world := w'\<rparr>, p_main = m\<rparr>"
| sv_signal: "serve_step slack used \<lparr>p_fleet = f, p_main = Listening\<rparr>
     \<lparr>p_fleet = cancel_worker 0 f, p_main = DrainingHTTP (f_clock f)\<rparr>"
| sv_http_done: "e \<in> {None, Some ShutdownFailed} \<Longrightarrow>
     serve_step slack used \<lparr>p_fleet = f, p_main = DrainingHTTP s\<rparr> \<lparr>p_fleet = f, p_main = AwaitingWorker (f_clock f) e\<rparr>"
| sv_http_late: "f_clock f = s + shutdownTimeout \<Longrightarrow>
     serve_step slack used \<lparr>p_fleet = f, p_main = DrainingHTTP s\<rparr>
       \<lparr>p_fleet = f, p_main = AwaitingWorker (f_clock f) (Some DeadlineExceeded)\<rparr>"
| sv_worker_done: "w_phase (f_worker f 0) = Stopped \<Longrightarrow>
     serve_step slack used \<lparr>p_fleet = f, p_main = AwaitingWorker s e\<rparr> \<lparr>p_fleet = f, p_main = Returned (drained e)\<rparr>"
| sv_worker_late: "f_clock f = s + shutdownTimeout \<Longrightarrow>
     serve_step slack used \<lparr>p_fleet = f, p_main = AwaitingWorker s e\<rparr> \<lparr>p_fleet = f, p_main = Returned (Some DeadlineExceeded)\<rparr>"
| sv_listen_fails: "serve_step slack used \<lparr>p_fleet = f, p_main = Listening\<rparr>
     \<lparr>p_fleet = cancel_worker 0 f, p_main = Returned (Some ListenFailed)\<rparr>"
| sv_exit: "serve_step slack used \<lparr>p_fleet = f, p_main = Returned e\<rparr> \<lparr>p_fleet = kill_worker 0 f, p_main = Returned e\<rparr>"

subsection \<open>When the worker is through\<close>

text \<open>The latest instant at which a worker whose context is done can still be at work.\<close>

fun done_by :: "gotime \<Rightarrow> worker \<Rightarrow> gotime" where
  "done_by clock wk = (case w_phase wk of
     Batch js n \<Rightarrow> clock + w_slack wk + int (length js) * delivery_time
   | Sending j js n \<Rightarrow> w_since wk + delivery_time + w_slack wk + int (length js) * delivery_time
   | Acknowledging j out js n \<Rightarrow> w_since wk + finalizeTimeout + w_slack wk + int (length js) * delivery_time
   | _ \<Rightarrow> clock)"

declare done_by.simps [simp del]

lemma done_by_after_now:
  assumes "on_time slack clock wk" and "w_phase wk \<noteq> Stopped"
  shows "clock \<le> done_by clock wk"
proof -
  have n: "0 \<le> int n * delivery_time" for n using delivery_time_nonneg(1) by simp
  have s: "sendTimeout \<le> delivery_time" using delivery_time_nonneg(3) by (simp add: delivery_time_def)
  show ?thesis
  proof (cases "w_phase wk")
    case (Batch js m)
    with assms(1) n [of "length js"] show ?thesis by (simp add: on_time_def done_by.simps)
  next
    case (Sending j js m)
    then have "clock \<le> w_since wk + sendTimeout" "0 \<le> w_slack wk" using assms(1) by (simp_all add: on_time_def)
    then have "clock \<le> w_since wk + delivery_time + w_slack wk + int (length js) * delivery_time" using n [of "length js"] s by linarith
    with Sending show ?thesis by (simp add: done_by.simps)
  next
    case (Acknowledging j out js m)
    with assms(1) n [of "length js"] show ?thesis by (simp add: on_time_def done_by.simps)
  qed (use assms(2) in \<open>simp_all add: done_by.simps\<close>)
qed

lemma done_by_at_signal:
  assumes "on_time slack clock wk" and "0 \<le> slack"
  shows "done_by clock wk \<le> clock + slack + int (length (jobs_of (w_phase wk))) * delivery_time"
  using assms by (cases "w_phase wk") (auto simp: on_time_def done_by.simps delivery_time_def sendTimeout_def algebra_simps Second_def)

text \<open>A worker that is to stop by \<open>T\<close>.\<close>

definition stops_by :: "gotime \<Rightarrow> fleet \<Rightarrow> bool" where
  "stops_by T f \<longleftrightarrow> w_phase (f_worker f 0) = Stopped \<or>
     (w_stopping (f_worker f 0) \<and> done_by (f_clock f) (f_worker f 0) \<le> T)"

lemma worker_step_other:
  assumes "worker_step slack k f g"
  shows "f_clock g = f_clock f" and "l \<noteq> k \<Longrightarrow> f_worker g l = f_worker f l"
  using assms by (cases; simp)+

lemma stops_by_worker:
  assumes "worker_step slack k f g" and "fleet_inv slack f" and "stops_by T f"
  shows "stops_by T g"
proof (cases "k = 0")
  case False
  with worker_step_other [OF assms(1)] assms(3) show ?thesis by (simp add: stops_by_def)
next
  case True
  have t: "on_time slack (f_clock f) (f_worker f 0)" by (rule fleet_invD(2) [OF assms(2)])
  from assms(1) show ?thesis unfolding True
  proof cases
    case (wk_claim wk provider now wk' w1 lease opn kr locked js w2)
    with assms(3) show ?thesis by (simp add: stops_by_def)
  next
    case (wk_claim_fails wk provider now wk' w1 lease opn kr locked e w2)
    with assms(3) show ?thesis by (simp add: stops_by_def)
  next
    case (wk_send wk j js n)
    with assms(3) show ?thesis by (simp add: stops_by_def done_by.simps algebra_simps)
  next
    case (wk_answer wk j js n rnd now res out metric w')
    with assms(3) t show ?thesis by (simp add: stops_by_def done_by.simps on_time_def delivery_time_def)
  next
    case (wk_ack wk j out js n w')
    with assms(3) t show ?thesis by (simp add: stops_by_def done_by.simps on_time_def)
  next
    case (wk_batch_done wk n)
    with assms(3) t show ?thesis by (simp add: stops_by_def done_by.simps on_time_def after_batch_def)
  next
    case (wk_poll wk)
    with assms(3) show ?thesis by (simp add: stops_by_def done_by.simps)
  next
    case (wk_stop wk)
    then show ?thesis by (simp add: stops_by_def)
  qed
qed

lemma stops_by_time:
  assumes "time_may_pass d f" and "stops_by T f"
  shows "stops_by T (pass_time d f)"
proof -
  have "may_pass (f_clock f) d (f_worker f 0)" using assms(1) by (simp add: time_may_pass_def)
  with assms(2) show ?thesis
    by (cases "w_phase (f_worker f 0)") (auto simp: stops_by_def pass_time_def elapse_def may_pass.simps done_by.simps)
qed

subsection \<open>The invariant of the shutdown\<close>

text \<open>\<open>t0\<close>: the instant of the signal; \<open>T\<close>: when the worker is through at the latest.\<close>

definition main_inv :: "gotime \<Rightarrow> gotime \<Rightarrow> process \<Rightarrow> bool" where
  "main_inv t0 T p \<longleftrightarrow> (let clock = f_clock (p_fleet p) in
     case p_main p of
       Listening \<Rightarrow> False
     | DrainingHTTP s \<Rightarrow> s = t0 \<and> clock \<le> t0 + shutdownTimeout
     | AwaitingWorker s e \<Rightarrow> t0 \<le> s \<and> s \<le> t0 + shutdownTimeout \<and> s \<le> clock \<and> clock \<le> s + shutdownTimeout \<and> clock \<le> max s T
     | Returned e \<Rightarrow> e = Some DeadlineExceeded \<or> w_phase (f_worker (p_fleet p) 0) = Stopped)"

definition shutdown_inv :: "duration \<Rightarrow> gotime \<Rightarrow> gotime \<Rightarrow> process \<Rightarrow> bool" where
  "shutdown_inv slack t0 T p \<longleftrightarrow> fleet_inv slack (p_fleet p) \<and> t0 \<le> f_clock (p_fleet p) \<and>
     stops_by T (p_fleet p) \<and> main_inv t0 T p"

lemma main_inv_same:
  assumes "main_inv t0 T \<lparr>p_fleet = f, p_main = m\<rparr>" and "f_clock g = f_clock f"
    and "w_phase (f_worker f 0) = Stopped \<Longrightarrow> w_phase (f_worker g 0) = Stopped"
  shows "main_inv t0 T \<lparr>p_fleet = g, p_main = m\<rparr>"
  using assms by (auto simp: main_inv_def Let_def split: main_phase.splits)

lemma stopped_stays:
  assumes "worker_step slack k f g" and "w_phase (f_worker f 0) = Stopped"
  shows "w_phase (f_worker g 0) = Stopped"
proof (cases "k = 0")
  case True
  from assms(1) show ?thesis unfolding True by cases (use assms(2) in auto)
next
  case False
  with worker_step_other(2) [OF assms(1), of 0] assms(2) show ?thesis by simp
qed

lemma shutdown_step:
  assumes "serve_step slack used p p'" and inv: "shutdown_inv slack t0 T p" and slack: "0 \<le> slack" "slack < 20 * Second"
  shows "shutdown_inv slack t0 T p'"
  using assms(1)
proof cases
  case (sv_time d f m)
  have i: "fleet_inv slack (pass_time d f)" "stops_by T (pass_time d f)"
    using inv sv_time by (auto simp: shutdown_inv_def intro: inv_time stops_by_time)
  have d: "0 \<le> d" using sv_time(3) by (simp add: time_may_pass_def)
  have "f_clock f + d \<le> T" if "w_phase (f_worker f 0) \<noteq> Stopped"
  proof -
    have "w_phase (f_worker (pass_time d f) 0) \<noteq> Stopped" using that by (simp add: pass_time_def elapse_def split: phase.splits)
    with i done_by_after_now [OF fleet_invD(2) [OF i(1)], of 0] show ?thesis by (auto simp: stops_by_def pass_time_def)
  qed
  then have "main_inv t0 T \<lparr>p_fleet = pass_time d f, p_main = m\<rparr>"
    using inv sv_time d by (cases m) (auto simp: shutdown_inv_def main_inv_def Let_def pass_time_def elapse_def)
  with i d inv sv_time show ?thesis by (auto simp: shutdown_inv_def pass_time_def)
next
  case (sv_work k f g m)
  have "main_inv t0 T \<lparr>p_fleet = g, p_main = m\<rparr>"
    by (rule main_inv_same [of _ _ f]) (use inv sv_work worker_step_other(1) stopped_stays in \<open>auto simp: shutdown_inv_def\<close>)
  with sv_work inv inv_worker [OF sv_work(3) _ slack] stops_by_worker [OF sv_work(3)] worker_step_other(1) [OF sv_work(3)]
  show ?thesis by (auto simp: shutdown_inv_def)
next
  case (sv_others k g f m)
  have g: "f_clock g = f_clock f" "f_worker g 0 = f_worker f 0" "fleet_step slack f g"
    using sv_others(3,4) by (auto simp: cancel_worker_def kill_worker_def intro: fl_cancel [unfolded cancel_worker_def] fl_die [unfolded kill_worker_def])
  with sv_others inv inv_fleet [OF g(3) _ slack] main_inv_same [of t0 T f m g] show ?thesis
    by (auto simp: shutdown_inv_def stops_by_def)
next
  case (sv_service f w' m)
  with inv inv_service [OF _ outbox_step_weaken [OF sv_service(3)]] main_inv_same [of t0 T f m "f\<lparr>f_world := w'\<rparr>"] show ?thesis
    by (auto simp: shutdown_inv_def stops_by_def)
next
  case (sv_exit f e)
  with inv inv_fleet [OF fl_die [of slack f 0] _ slack] show ?thesis
    by (auto simp: shutdown_inv_def stops_by_def main_inv_def kill_worker_def)
qed (use inv in \<open>auto simp: shutdown_inv_def main_inv_def Let_def drained_def shutdownTimeout_def Second_def\<close>)

interpretation shutdown_run: preserved "serve_step slack used"
    "\<lambda>p. 0 \<le> slack \<longrightarrow> slack < 20 * Second \<longrightarrow> shutdown_inv slack t0 T p" for slack used t0 T
  by unfold_locales (blast intro: shutdown_step)

text \<open>The steps of the process are steps of the fleet.\<close>

lemma serve_step_fleet:
  assumes "serve_step slack used p p'"
  shows "(fleet_step slack)\<^sup>*\<^sup>* (p_fleet p) (p_fleet p')"
  using assms
proof cases
  case (sv_service f w' m)
  have "outbox_step (fresh_id f) (\<lambda>_. False) (\<lambda>_ _. False) (f_world f) w'"
    by (rule outbox_step_weaken [OF sv_service(3)]) auto
  then show ?thesis using sv_service(1,2) fl_service by fastforce
qed (auto intro: fleet_step.intros)

lemma serve_run_fleet: "(serve_step slack used)\<^sup>*\<^sup>* p p' \<Longrightarrow> (fleet_step slack)\<^sup>*\<^sup>* (p_fleet p) (p_fleet p')"
  by (induction rule: rtranclp_induct) (auto dest: serve_step_fleet intro: rtranclp_trans)

lemma serve_run_inv:
  assumes "(serve_step slack used)\<^sup>*\<^sup>* p p'" and "fleet_inv slack (p_fleet p)" and "0 \<le> slack" and "slack < 20 * Second"
  shows "fleet_inv slack (p_fleet p')"
  using fleet_run.run_inv [OF serve_run_fleet [OF assms(1)]] assms(2-4) by blast

subsection \<open>What is recorded\<close>

text \<open>A step taken while no call to the database fails.\<close>

definition sound_step :: "duration \<Rightarrow> (string \<Rightarrow> bool) \<Rightarrow> process \<Rightarrow> process \<Rightarrow> bool" where
  "sound_step slack used p p' \<longleftrightarrow> serve_step slack used p p' \<and> faults (f_world (p_fleet p)) = []"

text \<open>
  A row that shows an outcome. Events may have moved an accepted mail on; a newer mail may have
  canceled the job before the outcome was written. A retry leaves the job to the next attempt.
\<close>

fun recorded :: "outcome \<Rightarrow> outbox_row \<Rightarrow> bool" where
  "recorded (OutcomeAccepted pmid) r =
     (o_status r \<in> {Accepted, Delivered, Failed} \<and> o_provider_message_id r = Some pmid \<or> o_status r = Canceled)"
| "recorded (OutcomeFailed code) r = (o_status r \<in> {Failed, Canceled})"
| "recorded (OutcomeRetry code delay) r = True"

definition open_row :: "string \<Rightarrow> string \<Rightarrow> gotime \<Rightarrow> outbox_row \<Rightarrow> bool" where
  "open_row i lt L r \<longleftrightarrow> (o_id r = i \<longrightarrow> o_provider_message_id r = None \<and>
     (o_status r = Pending \<and> o_lease_token r = Some lt \<and> (\<exists>U. o_lease_until r = Some U \<and> L \<le> U) \<or>
      o_status r = Canceled \<and> o_lease_token r = None))"

definition settled :: "string \<Rightarrow> outcome \<Rightarrow> outbox_row \<Rightarrow> bool" where
  "settled i out r \<longleftrightarrow> (o_id r = i \<longrightarrow> recorded out r \<and>
     ((\<forall>code delay. out \<noteq> OutcomeRetry code delay) \<longrightarrow> o_lease_token r = None \<and>
       (o_status r = Canceled \<longrightarrow> o_provider_message_id r = None)))"

interpretation open_rows: row_invariant "open_row i lt L" "\<lambda>oid. oid \<noteq> i" "\<lambda>t. t < L" "\<lambda>k x. \<not> (k = i \<and> x = lt)"
  for i lt L
proof (unfold_locales, goal_cases)
  case (7 r lt' out t)
  then show ?case by (cases out) (auto simp: open_row_def row_defs)
next
  case (8 r t provider locked st reason)
  then show ?case by (auto simp: open_row_def row_defs claimable_def)
next
  case (9 r t provider locked lease)
  then show ?case by (auto simp: open_row_def row_defs claimable_def)
next
  case (10 r dead ts)
  then show ?case by (auto simp: open_row_def row_defs split: option.splits)
qed (auto simp: open_row_def row_defs new_job_def)

interpretation settled_rows: row_invariant "settled i out" "\<lambda>oid. oid \<noteq> i" "\<lambda>_. True" "\<lambda>_ _. True" for i out
proof (unfold_locales, goal_cases)
  case (7 r lt' out' t)
  then show ?case by (cases out; cases out') (auto simp: settled_def row_defs)
next
  case (8 r t provider locked st reason)
  then show ?case by (cases out) (auto simp: settled_def row_defs claimable_def)
next
  case (9 r t provider locked lease)
  then show ?case by (cases out) (auto simp: settled_def row_defs claimable_def)
next
  case (10 r dead ts)
  then show ?case by (cases out) (auto simp: settled_def row_defs split: option.splits)
qed (cases out; auto simp: settled_def row_defs new_job_def)+

lemma acknowledge_finalizes:
  assumes "acknowledge j out t w = (Inr (), w')"
  obtains x w1 where "Finalize (j_ID j) (j_LeaseToken j) out t w = (x, w1)" and "wdb w' = wdb w1"
proof -
  obtain x w1 where fin: "Finalize (j_ID j) (j_LeaseToken j) out t w = (x, w1)" by fastforce
  then have "wdb w' = wdb w1"
    using assms by (auto simp: acknowledge_def tryM_def bindM_def inc_counter_def retM_def split: sum.splits err.splits)
  with fin show thesis by (rule that)
qed

text \<open>An acknowledgement that no failure meets settles the job.\<close>

lemma acknowledge_settles:
  assumes "acknowledge j out t w = (Inr (), w')" and "faults w = []"
    and "open_rows.jobs_inv (j_ID j) (j_LeaseToken j) L (wdb w)"
  shows "settled_rows.jobs_inv (j_ID j) out (wdb w')"
proof -
  let ?h = "held (j_ID j) (j_LeaseToken j) out" and ?i = "j_ID j"
  obtain x w1 where fin: "Finalize ?i (j_LeaseToken j) out t w = (x, w1)" and same: "wdb w' = wdb w1"
    by (rule acknowledge_finalizes [OF assms(1)])
  let ?w2 = "w\<lparr>wdb := (wdb w)\<lparr>email_outbox := sql_update ?h (outcome_row out t) (email_outbox (wdb w))\<rparr>\<rparr>"
  let ?n = "rows_affected ?h (email_outbox (wdb w))"
  have upd: "update_jobs ?h (outcome_row out t) w = (Inr ?n, ?w2)"
    using assms(2) by (simp add: update_jobs_def exec_nofault)
  have "settled ?i out (outcome_row out t r)" if "r \<in> set (email_outbox (wdb w))" "?h r" for r
    using that by (cases out) (auto simp: settled_def held_def row_defs)
  moreover have "settled ?i out r" if "r \<in> set (email_outbox (wdb w))" "\<not> ?h r" for r
  proof -
    have "open_row ?i (j_LeaseToken j) L r" using assms(3) that(1) by (simp add: open_rows.jobs_inv_def)
    with that(2) show ?thesis by (cases out) (auto simp: open_row_def settled_def held_def)
  qed
  ultimately have "settled_rows.jobs_inv ?i out (wdb ?w2)"
    using assms(3) by (auto simp: settled_rows.jobs_inv_def open_rows.jobs_inv_def set_sql_update outcome_key.unique_kept)
  moreover have "(if ?n = 0 then failM ErrLeaseLost
      else case out of OutcomeAccepted pmid \<Rightarrow> if pmid \<noteq> [] then reconcileEvents pmid t else retM () | _ \<Rightarrow> retM ()) ?w2 = (x, w1)"
    using fin upd by (simp add: Finalize_def bindM_def)
  moreover have "keeps (settled_rows.jobs_inv ?i out) (if ?n = 0 then failM ErrLeaseLost
      else case out of OutcomeAccepted pmid \<Rightarrow> if pmid \<noteq> [] then reconcileEvents pmid t else retM () | _ \<Rightarrow> retM ())"
    unfolding reconcileEvents_def by (auto intro!: keeps_bind keeps_if settled_rows.keeps_reduce_all split: outcome.splits)
  ultimately show ?thesis unfolding same by (blast dest: keepsD)
qed

text \<open>What a step of a worker does to the queue: nothing new is queued, and it finalizes and claims as itself.\<close>

lemma worker_step_world:
  assumes "worker_step slack k f g" and "claims (f_clock f)"
    and lease: "\<And>lease i. fresh_tokens f lease \<Longrightarrow> fin i (lease i)"
    and ack: "\<And>j out js n. w_phase (f_worker f k) = Acknowledging j out js n \<Longrightarrow> fin (j_ID j) (j_LeaseToken j)"
  shows "(outbox_step minted claims fin)\<^sup>*\<^sup>* (f_world f) (f_world g)"
  using assms(1)
proof cases
  case (wk_claim wk provider now wk' w1 lease' opn kr locked js w2)
  have "outbox_step minted claims fin (f_world f) w1" by (rule ob_other) (simp add: sample_if_due_quiet(1) [OF wk_claim(5)])
  moreover have "outbox_step minted claims fin w1 w2"
    by (rule ob_claim [of claims, OF assms(2) wk_claim(7)]) (use lease [OF wk_claim(6)] in blast)
  ultimately show ?thesis using wk_claim(1) by (simp add: converse_rtranclp_into_rtranclp)
next
  case (wk_claim_fails wk provider now wk' w1 lease' opn kr locked e w2)
  have "outbox_step minted claims fin (f_world f) w1" by (rule ob_other) (simp add: sample_if_due_quiet(1) [OF wk_claim_fails(5)])
  moreover have "outbox_step minted claims fin w1 w2"
    by (rule ob_claim [of claims, OF assms(2) wk_claim_fails(7)]) (use lease [OF wk_claim_fails(6)] in blast)
  ultimately show ?thesis using wk_claim_fails(1) by (simp add: converse_rtranclp_into_rtranclp)
next
  case (wk_answer wk j js n rnd now res out metric w')
  have "outbox_step minted claims fin (f_world f) w'" by (rule ob_other) (use wk_answer(5) in \<open>auto simp: inc_counter_def\<close>)
  then show ?thesis using wk_answer(1) by simp
next
  case (wk_ack wk j out js n w')
  obtain x w1 where fin: "Finalize (j_ID j) (j_LeaseToken j) out (f_clock f) (f_world f) = (x, w1)" and same: "wdb w' = wdb w1"
    by (rule acknowledge_finalizes [OF wk_ack(4)])
  have "outbox_step minted claims fin (f_world f) w1" by (rule ob_finalize [of fin, OF ack fin]) (use wk_ack in simp)
  moreover have "outbox_step minted claims fin w1 w'" by (rule ob_other) (simp add: same)
  ultimately show ?thesis using wk_ack(1) by (simp add: converse_rtranclp_into_rtranclp)
qed simp_all

lemma open_rows_worker:
  assumes "worker_step slack k f g" and inv: "fleet_inv slack f" and "slack < 20 * Second" and j: "j \<in> held_jobs f 0" and "k \<noteq> 0"
    and "open_rows.jobs_inv (j_ID j) (j_LeaseToken j) (w_claimed (f_worker f 0) + LeaseDuration) (wdb (f_world f))"
  shows "open_rows.jobs_inv (j_ID j) (j_LeaseToken j) (w_claimed (f_worker f 0) + LeaseDuration) (wdb (f_world g))"
proof (rule open_rows.run_inv [OF worker_step_world [OF assms(1)] assms(6)])
  show "f_clock f < w_claimed (f_worker f 0) + LeaseDuration" by (rule lease_runs [OF inv assms(3) j])
  show "\<not> (i = j_ID j \<and> lease i = j_LeaseToken j)" if "fresh_tokens f lease" for lease i
    using that j by (auto simp: fresh_tokens_def)
  show "\<not> (j_ID j' = j_ID j \<and> j_LeaseToken j' = j_LeaseToken j)" if "w_phase (f_worker f k) = Acknowledging j' out js n" for j' out js n
    using that fleet_invD(5) [OF inv assms(5)] j by (auto simp: held_jobs_def)
qed

definition recording :: "duration \<Rightarrow> job \<Rightarrow> outcome \<Rightarrow> job list \<Rightarrow> nat \<Rightarrow> process \<Rightarrow> bool" where
  "recording slack j out js n p \<longleftrightarrow> (let f = p_fleet p in fleet_inv slack f \<and>
     ((\<exists>e. p_main p = Returned e) \<or> settled_rows.jobs_inv (j_ID j) out (wdb (f_world f)) \<or>
      w_phase (f_worker f 0) = Acknowledging j out js n \<and>
      open_rows.jobs_inv (j_ID j) (j_LeaseToken j) (w_claimed (f_worker f 0) + LeaseDuration) (wdb (f_world f))))"

lemma recording_step:
  assumes "sound_step slack used p p'" and rec: "recording slack j out js n p" and "used (j_ID j)"
    and slack: "0 \<le> slack" "slack < 20 * Second"
  shows "recording slack j out js n p'"
proof -
  have step: "serve_step slack used p p'" and nf: "faults (f_world (p_fleet p)) = []" using assms(1) by (simp_all add: sound_step_def)
  have inv: "fleet_inv slack (p_fleet p)" using rec by (simp add: recording_def Let_def)
  then have inv': "fleet_inv slack (p_fleet p')" using serve_run_inv [OF r_into_rtranclp [of "serve_step slack used", OF step]] slack by blast
  let ?S = "\<lambda>f. settled_rows.jobs_inv (j_ID j) out (wdb (f_world f))"
  let ?A = "\<lambda>f. w_phase (f_worker f 0) = Acknowledging j out js n \<and>
      open_rows.jobs_inv (j_ID j) (j_LeaseToken j) (w_claimed (f_worker f 0) + LeaseDuration) (wdb (f_world f))"
  from step have "(\<exists>e. p_main p' = Returned e) \<or> ?S (p_fleet p') \<or> ?A (p_fleet p')"
  proof cases
    case (sv_work k f g m)
    consider "\<exists>e. m = Returned e" | "?S f" | "?A f" using rec sv_work(1) by (auto simp: recording_def Let_def)
    then show ?thesis
    proof cases
      case 2
      have "(outbox_step (\<lambda>oid. oid \<noteq> j_ID j) (\<lambda>_. True) (\<lambda>_ _. True))\<^sup>*\<^sup>* (f_world f) (f_world g)"
        by (rule worker_step_world [OF sv_work(3)]) simp_all
      from settled_rows.run_inv [OF this] 2 sv_work(2) show ?thesis by simp
    next
      case 3
      then have held: "j \<in> held_jobs f 0" by (simp add: held_jobs_def)
      show ?thesis
      proof (cases "k = 0")
        case True
        from sv_work(3) obtain w' where "acknowledge j out (f_clock f) (f_world f) = (Inr (), w')" "f_world g = w'"
          unfolding True by cases (use 3 in auto)
        with acknowledge_settles 3 nf sv_work(1,2) show ?thesis by auto
      next
        case False
        have "f_worker g 0 = f_worker f 0" using worker_step_other(2) [OF sv_work(3)] False by metis
        with open_rows_worker [OF sv_work(3) _ slack(2) held False] inv 3 sv_work(1,2) show ?thesis by simp
      qed
    qed (use sv_work(2) in simp)
  next
    case (sv_service f w' m)
    have s: "outbox_step (\<lambda>oid. oid \<noteq> j_ID j) claims fin (f_world f) w'" for claims fin
      by (rule outbox_step_weaken [OF sv_service(3)]) (use assms(3) in auto)
    from rec sv_service(1) consider "\<exists>e. m = Returned e" | "?S f" | "?A f" by (auto simp: recording_def Let_def)
    then show ?thesis
      by cases (use sv_service(2) settled_rows.inv_step [OF s] open_rows.inv_step [OF s] in auto)
  qed (use rec in \<open>auto simp: recording_def Let_def pass_time_def cancel_worker_def kill_worker_def elapse_def split: phase.splits\<close>)
  with inv' show ?thesis by (simp add: recording_def Let_def)
qed

interpretation record_run: preserved "sound_step slack used"
    "\<lambda>p. 0 \<le> slack \<longrightarrow> slack < 20 * Second \<longrightarrow> used (j_ID j) \<longrightarrow> recording slack j out js n p" for slack used j out js n
  by unfold_locales (blast intro: recording_step)

text \<open>An answer in hand while its job is open.\<close>

lemma recording_start:
  assumes "fleet_inv slack (p_fleet q)" and "w_phase (f_worker (p_fleet q) 0) = Acknowledging j out js n"
    and "\<forall>r \<in> set (email_outbox (wdb (f_world (p_fleet q)))). o_id r = j_ID j \<longrightarrow> o_status r = Pending \<and> o_provider_message_id r = None"
  shows "recording slack j out js n q"
proof -
  have "leased (p_fleet q) 0 j" using fleet_invD(3) [OF assms(1), of j 0] assms(2) by (simp add: held_jobs_def)
  then have "open_rows.jobs_inv (j_ID j) (j_LeaseToken j) (w_claimed (f_worker (p_fleet q) 0) + LeaseDuration) (wdb (f_world (p_fleet q)))"
    using assms(3) by (auto simp: leased_def held_rows.jobs_inv_def open_rows.jobs_inv_def held_by_def open_row_def)
  with assms show ?thesis by (simp add: recording_def Let_def)
qed

lemma answers_recorded:
  assumes "fleet_inv slack (p_fleet q)" and "(sound_step slack used)\<^sup>*\<^sup>* q p" and "used (j_ID j)" and slack: "0 \<le> slack" "slack < 20 * Second"
    and a: "w_phase (f_worker (p_fleet q) 0) = Acknowledging j out js n"
    and o: "\<forall>r \<in> set (email_outbox (wdb (f_world (p_fleet q)))). o_id r = j_ID j \<longrightarrow> o_status r = Pending \<and> o_provider_message_id r = None"
    and stop: "w_phase (f_worker (p_fleet p) 0) = Stopped" and main: "p_main p = AwaitingWorker s e"
    and r: "r \<in> set (email_outbox (wdb (f_world (p_fleet p))))" "o_id r = j_ID j"
  shows "recorded out r"
proof -
  have "recording slack j out js n p"
    using record_run.run_inv [OF assms(2)] recording_start [OF assms(1) a o] slack assms(3) by blast
  then have "settled_rows.jobs_inv (j_ID j) out (wdb (f_world (p_fleet p)))"
    using main stop by (auto simp: recording_def Let_def)
  with r show ?thesis by (simp add: settled_rows.jobs_inv_def settled_def)
qed

subsection \<open>Properties\<close>

lemma signal_inv:
  assumes "fleet_inv slack f" and "0 \<le> slack"
  shows "shutdown_inv slack (f_clock f) (f_clock f + slack + int (length (jobs_of (w_phase (f_worker f 0)))) * delivery_time)
    \<lparr>p_fleet = cancel_worker 0 f, p_main = DrainingHTTP (f_clock f)\<rparr>"
proof -
  have "fleet_inv slack (cancel_worker 0 f)"
    using inv_quiet [OF assms(1), of "(f_worker f 0)\<lparr>w_stopping := True\<rparr>" 0 "f_world f"] fleet_invD(2,4) [OF assms(1), of 0]
    by (simp add: on_time_stopping held_jobs_def cancel_worker_def)
  moreover have "done_by (f_clock f) ((f_worker f 0)\<lparr>w_stopping := True\<rparr>) = done_by (f_clock f) (f_worker f 0)"
    by (cases "w_phase (f_worker f 0)") (simp_all add: done_by.simps)
  ultimately show ?thesis using done_by_at_signal [OF fleet_invD(2) [OF assms(1)] assms(2), of 0]
    by (simp add: shutdown_inv_def main_inv_def stops_by_def cancel_worker_def shutdownTimeout_def Second_def)
qed

text \<open>
  C30. An orderly end. Let the signal reach a process whose worker has \<open>n\<close> claimed mails left. The
  process is back from \<open>serve\<close> within a minute; the worker is through \<open>n\<close> times 25 seconds (and the
  slack) after the signal; and with at most one mail left (the delivery in flight), and less than
  five seconds of slack, the deadline does not elapse. If the process reports anything but an
  elapsed deadline, its worker has stopped, it holds no mail, and the database shows every
  final answer of a provider that was in hand at any point \<open>q\<close> of the shutdown: from there on, if no
  call to the database fails and the identifier is not drawn again, the row of the job has
  the message identifier of an accepted mail or the failure of a refused one (or was canceled by a
  newer mail first).
\<close>

theorem shutdown_waits_for_the_delivery:
  assumes "fleet_start f0" and "(serve_step slack used)\<^sup>*\<^sup>* \<lparr>p_fleet = f0, p_main = Listening\<rparr> \<lparr>p_fleet = f, p_main = Listening\<rparr>"
    and "(serve_step slack used)\<^sup>*\<^sup>* \<lparr>p_fleet = cancel_worker 0 f, p_main = DrainingHTTP (f_clock f)\<rparr> p"
    and "serve_step slack used p p'" and "p_main p' = Returned e" and "p_main p \<noteq> Returned e"
    and "0 \<le> slack" and "slack < 20 * Second" and "n = length (jobs_of (w_phase (f_worker f 0)))"
  shows "f_clock (p_fleet p) \<le> f_clock f + 60 * Second \<and>
    (held_jobs (p_fleet p) 0 \<noteq> {} \<longrightarrow> f_clock (p_fleet p) \<le> f_clock f + slack + int n * (25 * Second)) \<and>
    (n \<le> 1 \<and> slack < 5 * Second \<longrightarrow> e \<noteq> Some DeadlineExceeded) \<and>
    (e \<noteq> Some DeadlineExceeded \<longrightarrow>
      w_phase (f_worker (p_fleet p) 0) = Stopped \<and> held_jobs (p_fleet p) 0 = {} \<and>
      (\<forall>q j out js m.
         (serve_step slack used)\<^sup>*\<^sup>* \<lparr>p_fleet = cancel_worker 0 f, p_main = DrainingHTTP (f_clock f)\<rparr> q \<and>
         w_phase (f_worker (p_fleet q) 0) = Acknowledging j out js m \<and>
         (\<forall>r \<in> set (email_outbox (wdb (f_world (p_fleet q)))). o_id r = j_ID j \<longrightarrow>
            o_status r = Pending \<and> o_provider_message_id r = None) \<and>
         (sound_step slack used)\<^sup>*\<^sup>* q p \<and> used (j_ID j) \<longrightarrow>
         (\<forall>r \<in> set (email_outbox (wdb (f_world (p_fleet p)))). o_id r = j_ID j \<longrightarrow> recorded out r)))"
proof -
  let ?T = "f_clock f + slack + int n * delivery_time"
  let ?start = "\<lparr>p_fleet = cancel_worker 0 f, p_main = DrainingHTTP (f_clock f)\<rparr>"
  have D: "delivery_time = 25 * Second" by (simp add: delivery_time_def sendTimeout_def finalizeTimeout_def Second_def)
  have f: "fleet_inv slack f" using serve_run_inv [OF assms(2)] fleet_start_inv [OF assms(1)] assms(7,8) by simp
  then have inv: "shutdown_inv slack (f_clock f) ?T p"
    using shutdown_run.run_inv [OF assms(3)] signal_inv assms(7,8,9) by blast
  have busy: "f_clock (p_fleet p) \<le> ?T" if "held_jobs (p_fleet p) 0 \<noteq> {}"
  proof -
    have "w_phase (f_worker (p_fleet p) 0) \<noteq> Stopped" using that by (auto simp: held_jobs_def)
    with inv done_by_after_now [OF fleet_invD(2), of slack "p_fleet p" 0] show ?thesis
      by (auto simp: shutdown_inv_def stops_by_def)
  qed
  from assms(4,5,6) obtain s e0 where m: "p_main p = AwaitingWorker s e0"
    and how: "(w_phase (f_worker (p_fleet p) 0) = Stopped \<and> e = drained e0) \<or>
      (f_clock (p_fleet p) = s + shutdownTimeout \<and> e = Some DeadlineExceeded)"
    using inv by (auto simp: shutdown_inv_def main_inv_def elim!: serve_step.cases)
  have i: "f_clock f \<le> s" "s \<le> f_clock f + shutdownTimeout" "f_clock (p_fleet p) \<le> s + shutdownTimeout" "f_clock (p_fleet p) \<le> max s ?T"
    using inv m by (simp_all add: shutdown_inv_def main_inv_def Let_def)
  have in_time: "e \<noteq> Some DeadlineExceeded" if "n \<le> 1" "slack < 5 * Second"
  proof
    assume e: "e = Some DeadlineExceeded"
    then have "f_clock (p_fleet p) = s + shutdownTimeout" using how by (auto simp: drained_def split: if_splits)
    moreover have "int n * delivery_time \<le> delivery_time" using that(1) delivery_time_nonneg(1) by (simp add: mult_left_le_one_le)
    ultimately show False using i(1,4) that(2) by (simp add: D shutdownTimeout_def Second_def)
  qed
  have stopped: "w_phase (f_worker (p_fleet p) 0) = Stopped" if "e \<noteq> Some DeadlineExceeded" using how that by auto
  have start: "fleet_inv slack (p_fleet ?start)" using signal_inv [OF f assms(7)] by (simp add: shutdown_inv_def)
  note shown = answers_recorded [OF serve_run_inv [OF _ start assms(7,8)] _ _ assms(7,8) _ _ stopped m]
  have "held_jobs (p_fleet p) 0 = {}" if "e \<noteq> Some DeadlineExceeded" using stopped [OF that] by (simp add: held_jobs_def)
  moreover have "f_clock (p_fleet p) \<le> f_clock f + 60 * Second" using i by (simp add: shutdownTimeout_def)
  ultimately show ?thesis using busy in_time stopped shown unfolding D by blast
qed

lemma acknowledge_returns: "\<exists>w'. acknowledge j out t w = (Inr (), w')"
  by (auto simp: acknowledge_def tryM_def bindM_def inc_counter_def retM_def split: prod.splits sum.splits err.splits)

lemma acknowledge_other_rows:
  assumes "acknowledge j out t w = (Inr (), w')" and "\<forall>pmid. out \<noteq> OutcomeAccepted pmid" and "o_id r \<noteq> j_ID j"
  shows "r \<in> set (email_outbox (wdb w')) \<longleftrightarrow> r \<in> set (email_outbox (wdb w))"
proof -
  obtain x w1 where fin: "Finalize (j_ID j) (j_LeaseToken j) out t w = (x, w1)" and same: "wdb w' = wdb w1"
    by (rule acknowledge_finalizes [OF assms(1)])
  obtain y w2 where upd: "update_jobs (held (j_ID j) (j_LeaseToken j) out) (outcome_row out t) w = (y, w2)" by fastforce
  then have "w1 = w2"
    using fin assms(2) by (cases y; cases out) (auto simp: Finalize_def bindM_def failM_def retM_def split: if_splits)
  moreover have "wdb w2 = wdb w \<or> email_outbox (wdb w2) =
      sql_update (held (j_ID j) (j_LeaseToken j) out) (outcome_row out t) (email_outbox (wdb w))"
    using upd by (cases y) (auto simp: update_jobs_def dest: exec_Inl_db dest!: exec_InrD)
  moreover have "o_id (outcome_row out t q) = o_id q" for q by (rule outcome_key.key_kept)
  ultimately show ?thesis using assms(3) same by (auto simp: set_sql_update held_def)
qed

text \<open>Only the first replica runs, and it has just called the provider for \<open>j\<close>.\<close>

definition calling :: "fleet \<Rightarrow> job \<Rightarrow> job list \<Rightarrow> nat \<Rightarrow> bool" where
  "calling f j js n \<longleftrightarrow> w_phase (f_worker f 0) = Sending j js n \<and> w_since (f_worker f 0) = f_clock f \<and>
     (\<forall>k. k \<noteq> 0 \<longrightarrow> w_phase (f_worker f k) = Stopped)"

lemma elapse_phase [simp]: "w_phase (elapse d wk) = w_phase wk"
  by (simp add: elapse_def split: phase.splits)

lemma calling_passes_time:
  assumes "calling f j js n" and "0 \<le> d" and "d \<le> sendTimeout"
  shows "time_may_pass d f"
proof -
  have "may_pass (f_clock f) d (f_worker f k)" for k
    using assms by (cases "k = 0") (simp_all add: calling_def may_pass.simps)
  with assms(2) show ?thesis by (simp add: time_may_pass_def)
qed

text \<open>While the main goroutine waits, the call for a mail times out and the worker takes the next one.\<close>

lemma call_times_out:
  assumes "calling f j1 (j2 # js) n" and "m = AwaitingWorker (f_clock f) e"
  shows "\<exists>g. (serve_step slack used)\<^sup>*\<^sup>* \<lparr>p_fleet = f, p_main = m\<rparr> \<lparr>p_fleet = g, p_main = m\<rparr> \<and>
    calling g j2 js n \<and> f_clock g = f_clock f + sendTimeout \<and>
    (\<forall>r. o_id r \<noteq> j_ID j1 \<longrightarrow> (r \<in> set (email_outbox (wdb (f_world g))) \<longleftrightarrow> r \<in> set (email_outbox (wdb (f_world f)))))"
proof -
  let ?st = "\<lambda>f g. serve_step slack used \<lparr>p_fleet = f, p_main = m\<rparr> \<lparr>p_fleet = g, p_main = m\<rparr>"
  obtain out metric where c: "classify (\<lambda>_. 0) 0 j1 BareError = (out, metric)" by fastforce
  have out: "\<forall>pmid. out \<noteq> OutcomeAccepted pmid" using c by (auto simp: classify_def Let_def split: if_splits)
  define f2 where "f2 = pass_time sendTimeout f"
  define w3 where "w3 = snd (inc_counter metric (f_world f2))"
  define f3 where "f3 = set_worker 0 ((f_worker f2 0)\<lparr>w_phase := Acknowledging j1 out (j2 # js) n, w_since := f_clock f2\<rparr>) (f2\<lparr>f_world := w3\<rparr>)"
  obtain w4 where w4: "acknowledge j1 out (f_clock f3) (f_world f3) = (Inr (), w4)" using acknowledge_returns by blast
  define f4 where "f4 = set_worker 0 ((f_worker f3 0)\<lparr>w_phase := Batch (j2 # js) n\<rparr>) (f3\<lparr>f_world := w4\<rparr>)"
  define f5 where "f5 = set_worker 0 ((f_worker f4 0)\<lparr>w_phase := Sending j2 js n, w_since := f_clock f4\<rparr>) f4"
  have ph: "w_phase (f_worker f2 0) = Sending j1 (j2 # js) n" using assms(1) by (simp add: f2_def pass_time_def calling_def)
  have "time_may_pass sendTimeout f" by (rule calling_passes_time [OF assms(1)]) (simp_all add: delivery_time_nonneg)
  then have "?st f f2" unfolding f2_def
    by (rule sv_time) (use assms in \<open>simp add: calling_def sendTimeout_def shutdownTimeout_def Second_def\<close>)
  moreover have "?st f2 f3" unfolding f3_def
    by (rule sv_work, rule wk_answer [OF refl ph c]) (simp add: w3_def inc_counter_def)
  moreover have "?st f3 f4" unfolding f4_def by (rule sv_work, rule wk_ack [OF refl _ w4]) (simp add: f3_def)
  moreover have "?st f4 f5" unfolding f5_def by (rule sv_work, rule wk_send [OF refl]) (simp add: f4_def)
  ultimately have "(serve_step slack used)\<^sup>*\<^sup>* \<lparr>p_fleet = f, p_main = m\<rparr> \<lparr>p_fleet = f5, p_main = m\<rparr>"
    by (meson converse_rtranclp_into_rtranclp rtranclp.rtrancl_refl)
  moreover have "calling f5 j2 js n" "f_clock f5 = f_clock f + sendTimeout" "wdb (f_world f5) = wdb w4" "wdb (f_world f3) = wdb (f_world f)"
    using assms(1) by (simp_all add: calling_def f5_def f4_def f3_def f2_def w3_def inc_counter_def pass_time_def)
  ultimately show ?thesis using acknowledge_other_rows [OF w4 out] by (intro exI [of _ f5]) simp
qed

text \<open>The next call is answered just as the deadline elapses.\<close>

lemma deadline_before_record:
  assumes "calling f j js n" and "f_clock f = s + 20 * Second"
  shows "\<exists>g. (serve_step slack used)\<^sup>*\<^sup>* \<lparr>p_fleet = f, p_main = AwaitingWorker s e\<rparr> \<lparr>p_fleet = g, p_main = Returned (Some DeadlineExceeded)\<rparr> \<and>
    f_clock g = s + 30 * Second \<and> w_phase (f_worker g 0) = Acknowledging j (OutcomeAccepted pmid) js n \<and> wdb (f_world g) = wdb (f_world f)"
proof -
  define f6 where "f6 = pass_time (10 * Second) f"
  define w7 where "w7 = snd (inc_counter MetricAccepted (f_world f6))"
  define f7 where "f7 = set_worker 0 ((f_worker f6 0)\<lparr>w_phase := Acknowledging j (OutcomeAccepted pmid) js n, w_since := f_clock f6\<rparr>)
     (f6\<lparr>f_world := w7\<rparr>)"
  have c: "classify (\<lambda>_. 0) 0 j (Receipt pmid) = (OutcomeAccepted pmid, MetricAccepted)" by (simp add: classify_def)
  have "time_may_pass (10 * Second) f" by (rule calling_passes_time [OF assms(1)]) (simp_all add: sendTimeout_def Second_def)
  then have "serve_step slack used \<lparr>p_fleet = f, p_main = AwaitingWorker s e\<rparr> \<lparr>p_fleet = f6, p_main = AwaitingWorker s e\<rparr>" unfolding f6_def
    by (rule sv_time) (use assms in \<open>simp add: calling_def shutdownTimeout_def Second_def\<close>)
  moreover have "w_phase (f_worker f6 0) = Sending j js n" using assms(1) by (simp add: f6_def pass_time_def calling_def)
  then have "serve_step slack used \<lparr>p_fleet = f6, p_main = AwaitingWorker s e\<rparr> \<lparr>p_fleet = f7, p_main = AwaitingWorker s e\<rparr>" unfolding f7_def
    by (intro sv_work, rule wk_answer [OF refl _ c]) (simp_all add: w7_def inc_counter_def)
  moreover have clock: "f_clock f7 = s + 30 * Second"
    using assms(2) by (simp add: f7_def f6_def pass_time_def Second_def)
  then have "serve_step slack used \<lparr>p_fleet = f7, p_main = AwaitingWorker s e\<rparr> \<lparr>p_fleet = f7, p_main = Returned (Some DeadlineExceeded)\<rparr>"
    by (intro sv_worker_late) (simp add: shutdownTimeout_def)
  ultimately have "(serve_step slack used)\<^sup>*\<^sup>* \<lparr>p_fleet = f, p_main = AwaitingWorker s e\<rparr> \<lparr>p_fleet = f7, p_main = Returned (Some DeadlineExceeded)\<rparr>"
    by (meson converse_rtranclp_into_rtranclp rtranclp.rtrancl_refl)
  with clock show ?thesis by (intro exI [of _ f7]) (simp add: f7_def f6_def w7_def inc_counter_def pass_time_def)
qed

text \<open>
  C32. A worker does not stop after the delivery in flight. Take a process whose worker has just called
  the provider for one mail of its batch with another one waiting. There is a run in which the
  signal arrives now, the first call times out, and thirty seconds later the process gives up
  while the worker has an acceptance of the second mail in hand that no row of the queue shows:
  but for the row of the first mail the queue is as it was, so when the lease has run out
  another replica sends the second mail again.
\<close>

theorem shutdown_abandons_second_mail:
  assumes "w_phase (f_worker f 0) = Sending j1 (j2 # js) n" and "w_since (f_worker f 0) = f_clock f"
    and "\<forall>k. k \<noteq> 0 \<longrightarrow> w_phase (f_worker f k) = Stopped"
  shows "\<exists>g. (serve_step slack used)\<^sup>*\<^sup>* \<lparr>p_fleet = f, p_main = Listening\<rparr> \<lparr>p_fleet = g, p_main = Returned (Some DeadlineExceeded)\<rparr> \<and>
    f_clock g = f_clock f + 30 * Second \<and>
    w_phase (f_worker g 0) = Acknowledging j2 (OutcomeAccepted pmid) js n \<and>
    (\<forall>r. o_id r \<noteq> j_ID j1 \<longrightarrow> (r \<in> set (email_outbox (wdb (f_world g))) \<longleftrightarrow> r \<in> set (email_outbox (wdb (f_world f)))))"
proof -
  let ?m = "AwaitingWorker (f_clock f) None"
  have call: "calling (cancel_worker 0 f) j1 (j2 # js) n" "f_clock (cancel_worker 0 f) = f_clock f"
    "f_world (cancel_worker 0 f) = f_world f" using assms by (simp_all add: calling_def cancel_worker_def)
  have "(serve_step slack used)\<^sup>*\<^sup>* \<lparr>p_fleet = f, p_main = Listening\<rparr> \<lparr>p_fleet = cancel_worker 0 f, p_main = ?m\<rparr>"
    using sv_signal [of slack used f] sv_http_done [of None slack used "cancel_worker 0 f" "f_clock f"] call(2)
    by (metis converse_rtranclp_into_rtranclp insertI1 r_into_rtranclp)
  moreover from call_times_out [OF call(1), of ?m None slack used] call(2,3)
  obtain g where "(serve_step slack used)\<^sup>*\<^sup>* \<lparr>p_fleet = cancel_worker 0 f, p_main = ?m\<rparr> \<lparr>p_fleet = g, p_main = ?m\<rparr>"
    and g: "calling g j2 js n" "f_clock g = f_clock f + 20 * Second"
    and rows: "\<forall>r. o_id r \<noteq> j_ID j1 \<longrightarrow> (r \<in> set (email_outbox (wdb (f_world g))) \<longleftrightarrow> r \<in> set (email_outbox (wdb (f_world f))))"
    by (auto simp: sendTimeout_def)
  moreover from deadline_before_record [OF g, of slack used None pmid]
  obtain h where "(serve_step slack used)\<^sup>*\<^sup>* \<lparr>p_fleet = g, p_main = ?m\<rparr> \<lparr>p_fleet = h, p_main = Returned (Some DeadlineExceeded)\<rparr>"
    and "f_clock h = f_clock f + 30 * Second" "w_phase (f_worker h 0) = Acknowledging j2 (OutcomeAccepted pmid) js n"
    and "wdb (f_world h) = wdb (f_world g)" by blast
  ultimately show ?thesis by (intro exI [of _ h]) (auto dest: rtranclp_trans)
qed

text \<open>The last delivery of a batch, brought to its end after the signal.\<close>

lemma last_delivery_run:
  assumes "w_phase (f_worker f 0) = Sending j [] n" and c: "classify rnd now j res = (out, metric)"
    and a: "acknowledge j out (f_clock f) (snd (inc_counter metric (f_world f))) = (Inr (), w3)"
    and nf: "faults (f_world f) = []" "faults w3 = []"
  shows "\<exists>f2 g s. (serve_step slack used)\<^sup>*\<^sup>* \<lparr>p_fleet = cancel_worker 0 f, p_main = DrainingHTTP (f_clock f)\<rparr>
      \<lparr>p_fleet = f2, p_main = AwaitingWorker s None\<rparr> \<and>
    w_phase (f_worker f2 0) = Acknowledging j out [] n \<and> wdb (f_world f2) = wdb (f_world f) \<and>
    (sound_step slack used)\<^sup>*\<^sup>* \<lparr>p_fleet = f2, p_main = AwaitingWorker s None\<rparr> \<lparr>p_fleet = g, p_main = AwaitingWorker s None\<rparr> \<and>
    serve_step slack used \<lparr>p_fleet = g, p_main = AwaitingWorker s None\<rparr> \<lparr>p_fleet = g, p_main = Returned None\<rparr> \<and> f_world g = w3"
proof -
  define f1 where "f1 = cancel_worker 0 f"
  let ?m = "AwaitingWorker (f_clock f1) None"
  let ?st = "\<lambda>f m f' m'. serve_step slack used \<lparr>p_fleet = f, p_main = m\<rparr> \<lparr>p_fleet = f', p_main = m'\<rparr>"
  let ?so = "\<lambda>f f'. sound_step slack used \<lparr>p_fleet = f, p_main = ?m\<rparr> \<lparr>p_fleet = f', p_main = ?m\<rparr>"
  have ph: "w_phase (f_worker f1 0) = Sending j [] n" "w_stopping (f_worker f1 0)" "f_world f1 = f_world f" "f_clock f1 = f_clock f"
    using assms(1) by (simp_all add: f1_def cancel_worker_def)
  define f2 where "f2 = set_worker 0 ((f_worker f1 0)\<lparr>w_phase := Acknowledging j out [] n, w_since := f_clock f1\<rparr>)
     (f1\<lparr>f_world := snd (inc_counter metric (f_world f1))\<rparr>)"
  define f3 where "f3 = set_worker 0 ((f_worker f2 0)\<lparr>w_phase := Batch [] n\<rparr>) (f2\<lparr>f_world := w3\<rparr>)"
  define f4 where "f4 = set_worker 0 ((f_worker f3 0)\<lparr>w_phase := after_batch n, w_since := f_clock f3\<rparr>) f3"
  define f5 where "f5 = set_worker 0 ((f_worker f4 0)\<lparr>w_phase := Stopped\<rparr>) f4"
  have w: "f_world f2 = snd (inc_counter metric (f_world f))" "f_world f3 = w3" "f_world f4 = w3" "f_world f5 = w3" "f_clock f2 = f_clock f"
    using ph by (simp_all add: f2_def f3_def f4_def f5_def)
  have nf2: "faults (f_world f2) = []" using nf(1) w(1) by (simp add: inc_counter_def)
  have "?st f1 (DrainingHTTP (f_clock f)) f1 ?m" by (rule sv_http_done) simp
  moreover have "?st f1 ?m f2 ?m" unfolding f2_def
    by (rule sv_work, rule wk_answer [OF refl ph(1) c]) (simp add: inc_counter_def)
  ultimately have upto: "(serve_step slack used)\<^sup>*\<^sup>* \<lparr>p_fleet = f1, p_main = DrainingHTTP (f_clock f)\<rparr> \<lparr>p_fleet = f2, p_main = ?m\<rparr>"
    by (meson converse_rtranclp_into_rtranclp rtranclp.rtrancl_refl)
  have "acknowledge j out (f_clock f2) (f_world f2) = (Inr (), w3)" using a w by simp
  then have "?st f2 ?m f3 ?m" unfolding f3_def by (intro sv_work, rule wk_ack [OF refl, rotated]) (simp_all add: f2_def)
  then have "?so f2 f3" using nf2 by (simp add: sound_step_def)
  moreover have "?st f3 ?m f4 ?m" unfolding f4_def by (rule sv_work, rule wk_batch_done [OF refl]) (simp add: f3_def)
  then have "?so f3 f4" using nf(2) w by (simp add: sound_step_def)
  moreover have "?st f4 ?m f5 ?m" unfolding f5_def
    by (rule sv_work, rule wk_stop [OF refl]) (use ph in \<open>simp_all add: f4_def f3_def f2_def after_batch_def\<close>)
  then have "?so f4 f5" using nf(2) w by (simp add: sound_step_def)
  ultimately have run: "(sound_step slack used)\<^sup>*\<^sup>* \<lparr>p_fleet = f2, p_main = ?m\<rparr> \<lparr>p_fleet = f5, p_main = ?m\<rparr>"
    by (meson converse_rtranclp_into_rtranclp rtranclp.rtrancl_refl)
  have "?st f5 ?m f5 (Returned (drained None))" by (rule sv_worker_done) (simp add: f5_def)
  then have "?st f5 ?m f5 (Returned None)" by (simp add: drained_def)
  moreover have "w_phase (f_worker f2 0) = Acknowledging j out [] n" "wdb (f_world f2) = wdb (f_world f)"
    using w(1) by (simp_all add: f2_def inc_counter_def)
  ultimately show ?thesis using upto run w(4) unfolding f1_def by blast
qed

lemma sound_run_serves: "(sound_step slack used)\<^sup>*\<^sup>* p q \<Longrightarrow> (serve_step slack used)\<^sup>*\<^sup>* p q"
  by (rule rtranclp_mono [THEN predicate2D, rotated]) (auto simp: sound_step_def)

lemma worker_run_serves:
  "(worker_step slack k)\<^sup>*\<^sup>* f g \<Longrightarrow> (serve_step slack used)\<^sup>*\<^sup>* \<lparr>p_fleet = f, p_main = m\<rparr> \<lparr>p_fleet = g, p_main = m\<rparr>"
  by (induction rule: rtranclp_induct) (auto intro: sv_work rtranclp.rtrancl_into_rtrancl)

text \<open>The provider accepts the mail of the sample, in a world where no call fails.\<close>

definition sample_accepted_world :: world where
  "sample_accepted_world = snd (acknowledge sample_job (OutcomeAccepted ''m'') 7 (snd (inc_counter MetricAccepted sample_claimed_world)))"

lemma sample_accepted:
  "acknowledge sample_job (OutcomeAccepted ''m'') 7 (snd (inc_counter MetricAccepted sample_claimed_world)) = (Inr (), sample_accepted_world)"
  "faults sample_accepted_world = []" "map o_id (email_outbox (wdb sample_accepted_world)) = [''o1'']"
proof -
  show "acknowledge sample_job (OutcomeAccepted ''m'') 7 (snd (inc_counter MetricAccepted sample_claimed_world)) = (Inr (), sample_accepted_world)"
    using acknowledge_returns unfolding sample_accepted_world_def by (metis snd_conv)
  show "faults sample_accepted_world = []" "map o_id (email_outbox (wdb sample_accepted_world)) = [''o1'']"
    unfolding sample_accepted_world_def by code_simp+
qed

theorem shutdown_waits_for_the_delivery_witness:
  "\<exists>p p' (q :: process) r. serve_step 1 (\<lambda>_. True) p p' \<and> p_main p' = Returned None \<and> held_jobs (p_fleet p) 0 = {} \<and>
     f_clock (p_fleet p) \<le> f_clock sample_sending + 60 * Second \<and>
     w_phase (f_worker (p_fleet q) 0) = Acknowledging sample_job (OutcomeAccepted ''m'') [] 1 \<and>
     r \<in> set (email_outbox (wdb (f_world (p_fleet p)))) \<and> o_id r = ''o1'' \<and> recorded (OutcomeAccepted ''m'') r"
proof -
  have start: "fleet_start sample_fleet"
    by (simp add: fleet_start_def sample_fleet_def idle_worker_def sample_queue_world_def unique_on_def)
  have s: "w_phase (f_worker sample_sending 0) = Sending sample_job [] 1" "f_clock sample_sending = 7"
    "f_world sample_sending = sample_claimed_world" "faults sample_claimed_world = []"
    by (simp_all add: sample_sending_def sample_fleet_def sample_claimed_world_def sample_token_world_def sample_world_def)
  have c: "classify (\<lambda>_. 0) 0 sample_job (Receipt ''m'') = (OutcomeAccepted ''m'', MetricAccepted)" by (simp add: classify_def)
  obtain f2 g t where run: "(serve_step 1 (\<lambda>_. True))\<^sup>*\<^sup>* \<lparr>p_fleet = cancel_worker 0 sample_sending, p_main = DrainingHTTP (f_clock sample_sending)\<rparr>
      \<lparr>p_fleet = f2, p_main = AwaitingWorker t None\<rparr>"
    and ph: "w_phase (f_worker f2 0) = Acknowledging sample_job (OutcomeAccepted ''m'') [] 1" and w2: "wdb (f_world f2) = wdb sample_claimed_world"
    and sound: "(sound_step 1 (\<lambda>_. True))\<^sup>*\<^sup>* \<lparr>p_fleet = f2, p_main = AwaitingWorker t None\<rparr> \<lparr>p_fleet = g, p_main = AwaitingWorker t None\<rparr>"
    and last: "serve_step 1 (\<lambda>_. True) \<lparr>p_fleet = g, p_main = AwaitingWorker t None\<rparr> \<lparr>p_fleet = g, p_main = Returned None\<rparr>"
    and w: "f_world g = sample_accepted_world"
    using last_delivery_run [OF s(1) c, of sample_accepted_world 1 "\<lambda>_. True"] sample_accepted s(2-4) by auto
  have all: "(serve_step 1 (\<lambda>_. True))\<^sup>*\<^sup>* \<lparr>p_fleet = cancel_worker 0 sample_sending, p_main = DrainingHTTP (f_clock sample_sending)\<rparr>
      \<lparr>p_fleet = g, p_main = AwaitingWorker t None\<rparr>"
    using run sound_run_serves [OF sound] by (rule rtranclp_trans)
  have free: "\<forall>r \<in> set (email_outbox (wdb (f_world f2))). o_id r = j_ID sample_job \<longrightarrow> o_status r = Pending \<and> o_provider_message_id r = None"
    by (simp add: w2 sample_claimed_world_def sample_claimed_row_def sample_job_row_def lease_job_def new_job_def)
  obtain r where r: "r \<in> set (email_outbox (wdb (f_world g)))" "o_id r = ''o1''"
    using sample_accepted(3) w by (metis list.set_intros(1) list.set_map imageE)
  have "j_ID sample_job = ''o1''" by (simp add: sample_job_def)
  let ?p = "\<lparr>p_fleet = g, p_main = AwaitingWorker t None\<rparr>" and ?p' = "\<lparr>p_fleet = g, p_main = Returned None\<rparr>"
  have h: "p_main ?p' = Returned None" "p_main ?p \<noteq> Returned None" "(0 :: int) \<le> 1" "(1 :: int) < 20 * Second"
    by (simp_all add: Second_def)
  note T = shutdown_waits_for_the_delivery [OF start worker_run_serves [OF sample_worker_run] all last h refl]
  have ok: "(None :: serve_error option) \<noteq> Some DeadlineExceeded" by simp
  note shown = T [THEN conjunct2, THEN conjunct2, THEN conjunct2, THEN mp, OF ok]
  have "recorded (OutcomeAccepted ''m'') r"
    by (rule shown [THEN conjunct2, THEN conjunct2, rule_format, of "\<lparr>p_fleet = f2, p_main = AwaitingWorker t None\<rparr>" sample_job _ "[]" 1])
      (use run ph free sound r \<open>j_ID sample_job = ''o1''\<close> in simp_all)
  moreover have "held_jobs g 0 = {}" "f_clock g \<le> f_clock sample_sending + 60 * Second"
    using shown [THEN conjunct2, THEN conjunct1] T [THEN conjunct1] by simp_all
  ultimately have "held_jobs g 0 = {}" "f_clock g \<le> f_clock sample_sending + 60 * Second" "recorded (OutcomeAccepted ''m'') r" by blast+
  with last ph r show ?thesis
    by - (rule exI [of _ ?p], rule exI [of _ ?p'], rule exI [of _ "\<lparr>p_fleet = f2, p_main = AwaitingWorker t None\<rparr>"],
        rule exI [of _ r], simp)
qed

text \<open>Two mails claimed together, the first one in the provider's hands.\<close>

definition sample_pair :: fleet where
  "sample_pair = \<lparr>f_world = sample_claimed_world, f_clock = 7, f_worker = (\<lambda>_. idle_worker\<lparr>w_phase := Stopped\<rparr>)
     (0 := idle_worker\<lparr>w_phase := Sending sample_job [sample_job\<lparr>j_ID := ''o2''\<rparr>] 2, w_since := 7\<rparr>)\<rparr>"

theorem shutdown_abandons_second_mail_witness:
  "\<exists>g :: fleet. j_ID ` held_jobs sample_pair 0 = {''o1'', ''o2''} \<and> f_clock g = f_clock sample_pair + 30 * Second \<and>
     w_phase (f_worker g 0) = Acknowledging (sample_job\<lparr>j_ID := ''o2''\<rparr>) (OutcomeAccepted ''m'') [] 2"
proof -
  have h: "w_phase (f_worker sample_pair 0) = Sending sample_job [sample_job\<lparr>j_ID := ''o2''\<rparr>] 2"
    "w_since (f_worker sample_pair 0) = f_clock sample_pair" "\<forall>k. k \<noteq> 0 \<longrightarrow> w_phase (f_worker sample_pair k) = Stopped"
    by (simp_all add: sample_pair_def)
  have ids: "j_ID ` held_jobs sample_pair 0 = {''o1'', ''o2''}" by (simp add: held_jobs_def sample_pair_def sample_job_def)
  with shutdown_abandons_second_mail [OF h, where pmid = "''m''"] show ?thesis by blast
qed

end
