(* ===== verification/Json.thy ===== *)
theory Json
  imports Crypto
begin

text \<open>
  \<open>encoding/json\<close> as the program uses it: \<open>Marshal\<close> and \<open>Encoder.Encode\<close> with their HTML-safe
  escaping, and the syntax and string decoding of \<open>Unmarshal\<close>. Strings are byte sequences; a byte
  that starts no UTF-8 sequence is written, and read, as the replacement character. Numbers are
  kept as their literal text. The nesting limit of the decoder is the depth argument of the
  parser; its other argument, the fuel, bounds the recursion and is shown to be immaterial once
  it exceeds twice the length of the text. Shown: what \<open>Marshal\<close> writes, \<open>Unmarshal\<close> reads back.
\<close>

subsection \<open>UTF-8\<close>

abbreviation ord :: "char \<Rightarrow> nat" where "ord c \<equiv> of_char c"

definition cont :: "char \<Rightarrow> bool" where
  "cont c \<longleftrightarrow> 0x80 \<le> ord c \<and> ord c \<le> 0xBF"

definition second_ok :: "nat \<Rightarrow> char \<Rightarrow> bool" where
  "second_ok n c \<longleftrightarrow>
     (if n = 0xE0 then 0xA0 else if n = 0xF0 then 0x90 else 0x80) \<le> ord c \<and>
     ord c \<le> (if n = 0xED then 0x9F else if n = 0xF4 then 0x8F else 0xBF)"

text \<open>The length of the multi-byte sequence at the head of a string; 0 when there is none.\<close>

fun multi_width :: "string \<Rightarrow> nat" where
  "multi_width [] = 0"
| "multi_width (a # s) =
     (let n = ord a in
      if 0xC2 \<le> n \<and> n \<le> 0xDF then (case s of b # _ \<Rightarrow> if cont b then 2 else 0 | _ \<Rightarrow> 0)
      else if 0xE0 \<le> n \<and> n \<le> 0xEF then (case s of b # c # _ \<Rightarrow> if second_ok n b \<and> cont c then 3 else 0 | _ \<Rightarrow> 0)
      else if 0xF0 \<le> n \<and> n \<le> 0xF4 then (case s of b # c # d # _ \<Rightarrow> if second_ok n b \<and> cont c \<and> cont d then 4 else 0 | _ \<Rightarrow> 0)
      else 0)"

datatype rune = Ascii char | Multi string | Invalid char

fun runes :: "string \<Rightarrow> rune list" where
  "runes [] = []"
| "runes (a # s) =
     (if ord a < 0x80 then Ascii a # runes s
      else let k = multi_width (a # s) in
        if k = 0 then Invalid a # runes s else Multi (take k (a # s)) # runes (drop (k - 1) s))"

definition replacement :: string where
  "replacement = [CHR 0xEF, CHR 0xBF, CHR 0xBD]"

fun rune_text :: "rune \<Rightarrow> string" where
  "rune_text (Ascii c) = [c]"
| "rune_text (Multi s) = s"
| "rune_text (Invalid c) = replacement"

text \<open>A string with every invalid byte replaced; it is the string itself when that is valid UTF-8.\<close>

definition to_valid :: "string \<Rightarrow> string" where
  "to_valid s = concat (map rune_text (runes s))"

definition valid_utf8 :: "string \<Rightarrow> bool" where
  "valid_utf8 s \<longleftrightarrow> list_all (\<lambda>r. case r of Invalid _ \<Rightarrow> False | _ \<Rightarrow> True) (runes s)"

text \<open>\<open>utf8.EncodeRune\<close> of a code point below 0x110000.\<close>

definition encode_rune :: "nat \<Rightarrow> string" where
  "encode_rune r =
     (if r < 0x80 then [char_of r]
      else if r < 0x800 then [char_of (0xC0 + r div 64), char_of (0x80 + r mod 64)]
      else if r < 0x10000 then [char_of (0xE0 + r div 4096), char_of (0x80 + r div 64 mod 64), char_of (0x80 + r mod 64)]
      else [char_of (0xF0 + r div 262144), char_of (0x80 + r div 4096 mod 64), char_of (0x80 + r div 64 mod 64), char_of (0x80 + r mod 64)])"

subsection \<open>Writing\<close>

datatype jvalue =
    VNull
  | VBool bool
  | VNum string
  | VStr string
  | VArr "jvalue list"
  | VObj "(string \<times> jvalue) list"

definition backslash :: char where "backslash = CHR 0x5C"
definition dquote :: char where "dquote = CHR 0x22"

definition escape_ascii :: "char \<Rightarrow> string" where
  "escape_ascii c =
     (if c = dquote \<or> c = backslash then [backslash, c]
      else if ord c = 8 then [backslash, CHR ''b'']
      else if ord c = 12 then [backslash, CHR ''f'']
      else if ord c = 10 then [backslash, CHR ''n'']
      else if ord c = 13 then [backslash, CHR ''r'']
      else if ord c = 9 then [backslash, CHR ''t'']
      else if ord c < 32 \<or> c = CHR ''<'' \<or> c = CHR ''>'' \<or> c = CHR ''&''
        then backslash # ''u00'' @ [hex_digit (ord c div 16), hex_digit (ord c mod 16)]
      else [c])"

fun escape_rune :: "rune \<Rightarrow> string" where
  "escape_rune (Ascii c) = escape_ascii c"
| "escape_rune (Multi s) =
     (if s = [CHR 0xE2, CHR 0x80, CHR 0xA8] then backslash # ''u2028''
      else if s = [CHR 0xE2, CHR 0x80, CHR 0xA9] then backslash # ''u2029''
      else s)"
| "escape_rune (Invalid c) = backslash # ''ufffd''"

definition quote_json :: "string \<Rightarrow> string" where
  "quote_json s = dquote # concat (map escape_rune (runes s)) @ [dquote]"

fun Marshal :: "jvalue \<Rightarrow> string" where
  "Marshal VNull = ''null''"
| "Marshal (VBool b) = (if b then ''true'' else ''false'')"
| "Marshal (VNum n) = n"
| "Marshal (VStr s) = quote_json s"
| "Marshal (VArr vs) = CHR ''['' # Join CHR '','' (map Marshal vs) @ '']''"
| "Marshal (VObj kvs) = CHR ''{'' # Join CHR '','' (map (\<lambda>(k, v). quote_json k @ CHR '':'' # Marshal v) kvs) @ ''}''"

text \<open>\<open>Encoder.Encode\<close> ends the value with a newline.\<close>

definition Encode_json :: "jvalue \<Rightarrow> string" where
  "Encode_json v = Marshal v @ [CHR 0x0A]"

subsection \<open>Reading strings\<close>

definition hex_value :: "char \<Rightarrow> nat option" where
  "hex_value c = (let n = ord c in
     if 48 \<le> n \<and> n \<le> 57 then Some (n - 48) else if 97 \<le> n \<and> n \<le> 102 then Some (n - 87)
     else if 65 \<le> n \<and> n \<le> 70 then Some (n - 55) else None)"

fun hex4 :: "string \<Rightarrow> (nat \<times> string) option" where
  "hex4 (a # b # c # d # t) =
     (case (hex_value a, hex_value b, hex_value c, hex_value d) of
        (Some i, Some j, Some k, Some l) \<Rightarrow> Some (i * 4096 + j * 256 + k * 16 + l, t)
      | _ \<Rightarrow> None)"
| "hex4 _ = None"

text \<open>A second escape that completes a surrogate pair: the code point and what follows.\<close>

definition low_half :: "nat \<Rightarrow> string \<Rightarrow> (nat \<times> string) option" where
  "low_half r t = (case t of
     a # b # u \<Rightarrow>
       if a = backslash \<and> b = CHR ''u'' \<and> r < 0xDC00 then
         (case hex4 u of
            Some (r2, v) \<Rightarrow> if 0xDC00 \<le> r2 \<and> r2 < 0xE000 then Some (0x10000 + (r - 0xD800) * 1024 + (r2 - 0xDC00), v) else None
          | None \<Rightarrow> None)
       else None
   | _ \<Rightarrow> None)"

definition unicode_escape :: "string \<Rightarrow> (string \<times> string) option" where
  "unicode_escape s = (case hex4 s of
     None \<Rightarrow> None
   | Some (r, t) \<Rightarrow>
       if 0xD800 \<le> r \<and> r < 0xE000 then
         (case low_half r t of Some (r2, u) \<Rightarrow> Some (encode_rune r2, u) | None \<Rightarrow> Some (replacement, t))
       else Some (encode_rune r, t))"

text \<open>What follows a backslash: the bytes it stands for and the rest.\<close>

fun escape_seq :: "string \<Rightarrow> (string \<times> string) option" where
  "escape_seq [] = None"
| "escape_seq (e # s) =
     (if e = dquote \<or> e = backslash \<or> e = CHR ''/'' then Some ([e], s)
      else if e = CHR ''b'' then Some ([CHR 8], s)
      else if e = CHR ''f'' then Some ([CHR 12], s)
      else if e = CHR ''n'' then Some ([CHR 10], s)
      else if e = CHR ''r'' then Some ([CHR 13], s)
      else if e = CHR ''t'' then Some ([CHR 9], s)
      else if e = CHR ''u'' then unicode_escape s
      else None)"

lemma hex4_shorter: "hex4 s = Some (r, t) \<Longrightarrow> length t < length s"
  by (cases s rule: hex4.cases) (auto split: option.splits)

lemma escape_seq_shorter: "escape_seq s = Some (x, t) \<Longrightarrow> length t < length s"
  by (cases s)
    (auto simp: unicode_escape_def low_half_def dest!: hex4_shorter split: if_splits option.splits list.splits)

text \<open>The contents of a string literal up to the closing quote.\<close>

function read_string :: "string \<Rightarrow> (string \<times> string) option" where
  "read_string [] = None"
| "read_string (c # s) =
     (if c = dquote then Some ([], s)
      else if c = backslash then
        (case escape_seq s of
           None \<Rightarrow> None
         | Some (x, t) \<Rightarrow> map_option (apfst (append x)) (read_string t))
      else if ord c < 32 then None
      else if ord c < 0x80 then map_option (apfst (append [c])) (read_string s)
      else let k = multi_width (c # s) in
        if k = 0 then map_option (apfst (append replacement)) (read_string s)
        else map_option (apfst (append (take k (c # s)))) (read_string (drop (k - 1) s)))"
  by pat_completeness auto
termination
  by (relation "measure length") (auto dest: escape_seq_shorter)

subsection \<open>A string is read as it was written\<close>

definition wf_rune :: "rune \<Rightarrow> bool" where
  "wf_rune r = (case r of
     Ascii c \<Rightarrow> ord c < 0x80
   | Multi m \<Rightarrow> 2 \<le> length m \<and> 0x80 \<le> ord (hd m) \<and> (\<forall>t. multi_width (m @ t) = length m)
   | Invalid c \<Rightarrow> True)"

lemma multi_width_take:
  assumes "multi_width s = k" and "k \<noteq> 0"
  shows "k \<le> length s" and "2 \<le> k" and "multi_width (take k s @ t) = k" and "0x80 \<le> ord (hd s)"
proof -
  obtain a u where s: "s = a # u" using assms by (cases s) auto
  consider (two) b v where "u = b # v" "k = 2" "0xC2 \<le> ord a" "ord a \<le> 0xDF" "cont b"
    | (three) b c v where "u = b # c # v" "k = 3" "0xE0 \<le> ord a" "ord a \<le> 0xEF" "second_ok (ord a) b" "cont c"
    | (four) b c d v where "u = b # c # d # v" "k = 4" "0xF0 \<le> ord a" "ord a \<le> 0xF4" "second_ok (ord a) b" "cont c" "cont d"
    using assms unfolding s by (auto simp: Let_def split: if_splits list.splits)
  then show "k \<le> length s" and "2 \<le> k" and "multi_width (take k s @ t) = k" and "0x80 \<le> ord (hd s)"
    by (cases; simp add: s Let_def)+
qed

lemma wf_runes: "list_all wf_rune (runes s)"
proof (induction s rule: runes.induct)
  case (2 a s)
  show ?case
  proof (cases "ord a < 0x80")
    case True
    with 2 show ?thesis by (simp add: wf_rune_def)
  next
    case False
    define k where "k = multi_width (a # s)"
    show ?thesis
    proof (cases "k = 0")
      case True
      with False 2 show ?thesis by (simp add: wf_rune_def k_def [symmetric] Let_def del: multi_width.simps)
    next
      case nz: False
      note m = multi_width_take [OF k_def [symmetric] nz]
      have "wf_rune (Multi (take k (a # s)))"
        using m(1,2,3,4) nz by (simp add: wf_rune_def hd_take)
      moreover have "list_all wf_rune (runes (drop (k - 1) s))" using 2(3) False nz by (simp add: k_def del: multi_width.simps)
      ultimately show ?thesis using False nz by (simp add: k_def [symmetric] Let_def del: multi_width.simps)
    qed
  qed
qed simp

lemma hex_value_digit: "n < 16 \<Longrightarrow> hex_value (hex_digit n) = Some n"
  by (simp add: hex_value_def hex_digit_def Let_def of_char_of)

lemma read_plain:
  "ord c < 0x80 \<Longrightarrow> 32 \<le> ord c \<Longrightarrow> c \<noteq> dquote \<Longrightarrow> c \<noteq> backslash \<Longrightarrow>
     read_string (c # s) = map_option (apfst (append [c])) (read_string s)"
  by (subst read_string.simps) simp

lemma read_escape:
  "escape_seq s = Some (x, t) \<Longrightarrow> read_string (backslash # s) = map_option (apfst (append x)) (read_string t)"
  by (subst read_string.simps) (simp add: backslash_def dquote_def)

lemma read_quote: "read_string (dquote # s) = Some ([], s)"
  by simp

declare read_string.simps [simp del] escape_seq.simps [simp del]

lemma unicode_ascii:
  assumes "ord c < 0x80"
  shows "escape_seq (''u00'' @ hex_digit (ord c div 16) # hex_digit (ord c mod 16) # t) = Some ([c], t)"
proof -
  have "hex_value CHR ''0'' = Some 0" by (simp add: hex_value_def)
  then have "hex4 (''00'' @ hex_digit (ord c div 16) # hex_digit (ord c mod 16) # t) = Some (ord c, t)"
    using assms by (simp add: hex_value_digit)
  with assms show ?thesis
    by (simp add: escape_seq.simps unicode_escape_def encode_rune_def dquote_def backslash_def)
qed

lemma escape_letters:
  "escape_seq (CHR ''b'' # t) = Some ([CHR 8], t)" "escape_ascii (CHR 8) = [backslash, CHR ''b'']"
  "escape_seq (CHR ''f'' # t) = Some ([CHR 12], t)" "escape_ascii (CHR 12) = [backslash, CHR ''f'']"
  "escape_seq (CHR ''n'' # t) = Some ([CHR 10], t)" "escape_ascii (CHR 10) = [backslash, CHR ''n'']"
  "escape_seq (CHR ''r'' # t) = Some ([CHR 13], t)" "escape_ascii (CHR 13) = [backslash, CHR ''r'']"
  "escape_seq (CHR ''t'' # t) = Some ([CHR 9], t)" "escape_ascii (CHR 9) = [backslash, CHR ''t'']"
  by (simp_all add: escape_seq.simps escape_ascii_def dquote_def backslash_def)

lemma separators: "encode_rune 0x2028 = [CHR 0xE2, CHR 0x80, CHR 0xA8]" "encode_rune 0x2029 = [CHR 0xE2, CHR 0x80, CHR 0xA9]"
  "encode_rune 0xFFFD = replacement"
proof -
  have c: "char_of n = c" if "ord c = n" for c n using that by auto
  have "char_of (226 :: nat) = CHR 0xE2" "char_of (128 :: nat) = CHR 0x80" "char_of (168 :: nat) = CHR 0xA8" "char_of (169 :: nat) = CHR 0xA9"
    "char_of (239 :: nat) = CHR 0xEF" "char_of (191 :: nat) = CHR 0xBF" "char_of (189 :: nat) = CHR 0xBD" by (rule c, simp)+
  then show "encode_rune 0x2028 = [CHR 0xE2, CHR 0x80, CHR 0xA8]" "encode_rune 0x2029 = [CHR 0xE2, CHR 0x80, CHR 0xA9]"
    "encode_rune 0xFFFD = replacement" by (simp_all add: encode_rune_def replacement_def)
qed

lemma read_rune:
  assumes "wf_rune r"
  shows "read_string (escape_rune r @ t) = map_option (apfst (append (rune_text r))) (read_string t)"
proof (cases r)
  case (Ascii c)
  with assms have c: "ord c < 0x80" by (simp add: wf_rune_def)
  consider (self) "c = dquote \<or> c = backslash" | (b) "c = CHR 8" | (f) "c = CHR 12" | (n) "c = CHR 10" | (r) "c = CHR 13" | (t) "c = CHR 9"
    | (u) "c \<noteq> dquote" "c \<noteq> backslash" "escape_ascii c = backslash # ''u00'' @ [hex_digit (ord c div 16), hex_digit (ord c mod 16)]"
    | (plain) "c \<noteq> dquote" "c \<noteq> backslash" "32 \<le> ord c" "escape_ascii c = [c]"
  proof -
    have "ord c = 8 \<longrightarrow> c = CHR 8" "ord c = 12 \<longrightarrow> c = CHR 12" "ord c = 10 \<longrightarrow> c = CHR 10" "ord c = 13 \<longrightarrow> c = CHR 13"
      "ord c = 9 \<longrightarrow> c = CHR 9"
      using of_char_eq_iff [of c "CHR 8", where 'a = nat] of_char_eq_iff [of c "CHR 12", where 'a = nat]
        of_char_eq_iff [of c "CHR 10", where 'a = nat] of_char_eq_iff [of c "CHR 13", where 'a = nat]
        of_char_eq_iff [of c "CHR 9", where 'a = nat] by simp_all
    moreover have "escape_ascii c = backslash # ''u00'' @ [hex_digit (ord c div 16), hex_digit (ord c mod 16)] \<or>
        32 \<le> ord c \<and> escape_ascii c = [c]" if "c \<noteq> dquote" "c \<noteq> backslash" "ord c \<notin> {8, 12, 10, 13, 9}"
      using that by (simp add: escape_ascii_def)
    ultimately show thesis using that by blast
  qed
  then show ?thesis
  proof cases
    case self
    then have "escape_seq (c # t) = Some ([c], t)" by (auto simp: escape_seq.simps)
    with self Ascii show ?thesis by (auto simp: escape_ascii_def read_escape)
  next
    case u
    with Ascii read_escape [OF unicode_ascii [OF c, of t]] show ?thesis by simp
  next
    case plain
    with Ascii read_plain [OF c] show ?thesis by simp
  qed (simp_all add: Ascii read_escape escape_letters)
next
  case (Multi m)
  show ?thesis
  proof (cases "m = [CHR 0xE2, CHR 0x80, CHR 0xA8] \<or> m = [CHR 0xE2, CHR 0x80, CHR 0xA9]")
    case True
    have "escape_seq (''u2028'' @ t) = Some ([CHR 0xE2, CHR 0x80, CHR 0xA8], t)"
      "escape_seq (''u2029'' @ t) = Some ([CHR 0xE2, CHR 0x80, CHR 0xA9], t)"
      by (simp_all add: escape_seq.simps unicode_escape_def hex_value_def separators dquote_def backslash_def)
    with True Multi show ?thesis by (auto simp: read_escape)
  next
    case False
    obtain a u where m: "m = a # u" using assms Multi by (cases m) (auto simp: wf_rune_def)
    have w: "multi_width (a # u @ t) = Suc (length u)" "0x80 \<le> ord a" "u \<noteq> []"
      using assms Multi m by (auto simp: wf_rune_def)
    then have "a \<noteq> dquote" "a \<noteq> backslash" by (auto simp: dquote_def backslash_def)
    with w have "read_string (a # u @ t) = map_option (apfst (append (a # u))) (read_string t)"
      by (simp add: read_string.simps del: multi_width.simps)
    moreover have "escape_rune r = a # u" "rune_text r = a # u" using False Multi m by auto
    ultimately show ?thesis by simp
  qed
next
  case (Invalid c)
  have "escape_seq (''ufffd'' @ t) = Some (replacement, t)"
    by (simp add: escape_seq.simps unicode_escape_def hex_value_def separators dquote_def backslash_def)
  with Invalid show ?thesis by (simp add: read_escape)
qed

lemma read_quoted: "read_string (concat (map escape_rune (runes s)) @ dquote # rest) = Some (to_valid s, rest)"
proof -
  have "read_string (concat (map escape_rune rs) @ dquote # rest) = Some (concat (map rune_text rs), rest)"
    if "list_all wf_rune rs" for rs
    using that by (induction rs) (simp_all add: read_rune read_quote)
  from this [OF wf_runes] show ?thesis by (simp add: to_valid_def)
qed

subsection \<open>Reading values\<close>

definition json_space :: "char \<Rightarrow> bool" where
  "json_space c \<longleftrightarrow> c = CHR '' '' \<or> ord c = 9 \<or> ord c = 10 \<or> ord c = 13"

abbreviation skip :: "string \<Rightarrow> string" where "skip s \<equiv> dropWhile json_space s"

text \<open>A number literal: sign, integer part without leading zeros, fraction, exponent.\<close>

definition digits1 :: "string \<Rightarrow> (string \<times> string) option" where
  "digits1 s = (let ds = takeWhile is_digit s in if ds = [] then None else Some (ds, dropWhile is_digit s))"

definition int_part :: "string \<Rightarrow> (string \<times> string) option" where
  "int_part s = (case s of [] \<Rightarrow> None | c # t \<Rightarrow> if c = CHR ''0'' then Some ([c], t) else digits1 s)"

definition frac_part :: "string \<Rightarrow> (string \<times> string) option" where
  "frac_part s = (case s of
     c # t \<Rightarrow> if c = CHR ''.'' then map_option (apfst (Cons c)) (digits1 t) else Some ([], s)
   | [] \<Rightarrow> Some ([], []))"

definition exp_part :: "string \<Rightarrow> (string \<times> string) option" where
  "exp_part s = (case s of
     c # t \<Rightarrow>
       if c = CHR ''e'' \<or> c = CHR ''E'' then
         (case t of
            x # u \<Rightarrow> if x = CHR ''+'' \<or> x = CHR ''-'' then map_option (apfst (\<lambda>ds. c # x # ds)) (digits1 u)
                     else map_option (apfst (Cons c)) (digits1 t)
          | [] \<Rightarrow> None)
       else Some ([], s)
   | [] \<Rightarrow> Some ([], []))"

definition read_number :: "string \<Rightarrow> (string \<times> string) option" where
  "read_number s =
     (let (sign, s1) = (case s of c # t \<Rightarrow> if c = CHR ''-'' then ([c], t) else ([], s) | [] \<Rightarrow> ([], [])) in
      case int_part s1 of None \<Rightarrow> None | Some (a, s2) \<Rightarrow>
      case frac_part s2 of None \<Rightarrow> None | Some (b, s3) \<Rightarrow>
      case exp_part s3 of None \<Rightarrow> None | Some (c, s4) \<Rightarrow> Some (sign @ a @ b @ c, s4))"

text \<open>\<open>n\<close>: fuel; \<open>d\<close>: how much deeper values may nest.\<close>

fun parse_value :: "nat \<Rightarrow> nat \<Rightarrow> string \<Rightarrow> (jvalue \<times> string) option"
  and parse_elems :: "nat \<Rightarrow> nat \<Rightarrow> string \<Rightarrow> (jvalue list \<times> string) option"
  and parse_members :: "nat \<Rightarrow> nat \<Rightarrow> string \<Rightarrow> ((string \<times> jvalue) list \<times> string) option" where
  "parse_value 0 d s = None"
| "parse_value (Suc n) d s =
     (case skip s of
        [] \<Rightarrow> None
      | c # t \<Rightarrow>
          if c = dquote then map_option (apfst VStr) (read_string t)
          else if c = CHR ''['' then
            (if d = 0 then None
             else case skip t of
               x # u \<Rightarrow> if x = CHR '']'' then Some (VArr [], u) else map_option (apfst VArr) (parse_elems n (d - 1) t)
             | [] \<Rightarrow> None)
          else if c = CHR ''{'' then
            (if d = 0 then None
             else case skip t of
               x # u \<Rightarrow> if x = CHR ''}'' then Some (VObj [], u) else map_option (apfst VObj) (parse_members n (d - 1) t)
             | [] \<Rightarrow> None)
          else if HasPrefix (c # t) ''null'' then Some (VNull, drop 4 (c # t))
          else if HasPrefix (c # t) ''true'' then Some (VBool True, drop 4 (c # t))
          else if HasPrefix (c # t) ''false'' then Some (VBool False, drop 5 (c # t))
          else map_option (apfst VNum) (read_number (c # t)))"
| "parse_elems 0 d s = None"
| "parse_elems (Suc n) d s =
     (case parse_value n d s of None \<Rightarrow> None | Some (v, t) \<Rightarrow>
      (case skip t of
         x # u \<Rightarrow> if x = CHR '','' then map_option (apfst (Cons v)) (parse_elems n d u)
                  else if x = CHR '']'' then Some ([v], u) else None
       | [] \<Rightarrow> None))"
| "parse_members 0 d s = None"
| "parse_members (Suc n) d s =
     (case skip s of [] \<Rightarrow> None | q # t \<Rightarrow>
      if q \<noteq> dquote then None else
      (case read_string t of None \<Rightarrow> None | Some (k, u) \<Rightarrow>
      (case skip u of [] \<Rightarrow> None | x # v \<Rightarrow>
       if x \<noteq> CHR '':'' then None else
       (case parse_value n d v of None \<Rightarrow> None | Some (y, w) \<Rightarrow>
        (case skip w of
           z # r \<Rightarrow> if z = CHR '','' then map_option (apfst (Cons (k, y))) (parse_members n d r)
                    else if z = CHR ''}'' then Some ([(k, y)], r) else None
         | [] \<Rightarrow> None)))))"

definition maxNestingDepth :: nat where "maxNestingDepth = 10000"

definition Unmarshal :: "string \<Rightarrow> jvalue option" where
  "Unmarshal s = (case parse_value (Suc (2 * length s)) maxNestingDepth s of
     Some (v, t) \<Rightarrow> if skip t = [] then Some v else None
   | None \<Rightarrow> None)"

subsection \<open>The fuel is enough\<close>

lemma read_string_shorter: "read_string s = Some (x, t) \<Longrightarrow> length t < length s"
proof (induction s arbitrary: x rule: read_string.induct)
  case (2 c s)
  consider "c = dquote" | (esc) "c \<noteq> dquote" "c = backslash" | (plain) "c \<noteq> dquote" "c \<noteq> backslash" "\<not> ord c < 32" "ord c < 0x80"
    | (multi) "c \<noteq> dquote" "c \<noteq> backslash" "\<not> ord c < 32" "\<not> ord c < 0x80" | "c \<noteq> dquote" "c \<noteq> backslash" "ord c < 32" by blast
  then show ?case
  proof cases
    case esc
    with "2.prems" obtain y u z where "escape_seq s = Some (y, u)" "read_string u = Some (z, t)"
      by (auto simp: read_string.simps split: option.splits)
    with "2.IH"(1) [OF esc] escape_seq_shorter show ?thesis by fastforce
  next
    case plain
    with "2.prems" obtain z where "read_string s = Some (z, t)" by (auto simp: read_string.simps)
    from "2.IH"(2) [OF plain this] show ?thesis by simp
  next
    case multi
    show ?thesis
    proof (cases "multi_width (c # s) = 0")
      case True
      with multi "2.prems" obtain z where "read_string s = Some (z, t)" by (auto simp: read_string.simps Let_def simp del: multi_width.simps)
      from "2.IH"(3) [OF multi refl True this] show ?thesis by simp
    next
      case False
      with multi "2.prems" obtain z where "read_string (drop (multi_width (c # s) - 1) s) = Some (z, t)"
        by (auto simp: read_string.simps Let_def simp del: multi_width.simps)
      from "2.IH"(4) [OF multi refl False this] show ?thesis by simp
    qed
  qed (use "2.prems" in \<open>auto simp: read_string.simps\<close>)
qed (simp add: read_string.simps)

lemma digits1_text: "digits1 s = Some (a, t) \<Longrightarrow> s = a @ t \<and> a \<noteq> []"
  by (auto simp: digits1_def Let_def split: if_splits)

lemma read_number_text: "read_number s = Some (a, t) \<Longrightarrow> s = a @ t \<and> a \<noteq> []"
  by (fastforce simp: read_number_def int_part_def frac_part_def exp_part_def Let_def
      split: list.splits if_splits option.splits dest!: digits1_text)

lemma skip_length: "length (skip s) \<le> length s"
  by (rule length_dropWhile_le)

lemma skip_Cons: "skip s = c # t \<Longrightarrow> length t < length s"
  using skip_length [of s] by simp

text \<open>What a successful parse of a value left behind.\<close>

lemma parse_value_rest:
  assumes "parse_value (Suc n) d s = Some (v, t)" and "skip s = c # u"
  shows "(\<exists>x. read_string u = Some (x, t)) \<or> (\<exists>x. skip u = x # t) \<or> (\<exists>vs. parse_elems n (d - 1) u = Some (vs, t)) \<or>
    (\<exists>kvs. parse_members n (d - 1) u = Some (kvs, t)) \<or> (\<exists>k > 0. t = drop k (c # u)) \<or> (\<exists>a. read_number (c # u) = Some (a, t))"
  using assms(1) unfolding parse_value.simps(2) assms(2) list.case
  by (auto simp: HasPrefix_def split: if_splits list.splits intro: exI [of _ 4] exI [of _ 5] simp del: drop_Suc_Cons drop_Cons_numeral)

lemma parse_shorter:
  "parse_value n d s = Some (v, t) \<Longrightarrow> length t < length s"
  "parse_elems n d s = Some (vs, t) \<Longrightarrow> length t < length s"
  "parse_members n d s = Some (kvs, t) \<Longrightarrow> length t < length s"
proof (induction n arbitrary: d s v vs kvs t)
  case (Suc n)
  {
    case 1
    then obtain c u where sk: "skip s = c # u" by (auto split: list.splits)
    have num: "length t < Suc (length u)" if "read_number (c # u) = Some (a, t)" for a
      using read_number_text [OF that] by (metis append_Nil length_Cons length_append length_greater_0_conv less_add_same_cancel2)
    from parse_value_rest [OF 1 sk] have "length t \<le> length u"
      by (elim disjE exE) (auto dest!: read_string_shorter skip_Cons Suc.IH(2,3) num)
    with skip_Cons [OF sk] show ?case by simp
  next
    case 2
    then obtain v u where v: "parse_value n d s = Some (v, u)" by (auto split: option.splits)
    with 2 obtain x w where sk: "skip u = x # w" by (auto split: list.splits)
    have "length t \<le> length w" using 2 Suc.IH(2) [of d w _ t] by (fastforce simp: v sk split: if_splits)
    with skip_Cons [OF sk] Suc.IH(1) [OF v] show ?case by simp
  next
    case 3
    then obtain u where sk: "skip s = dquote # u" by (auto split: list.splits if_splits)
    with 3 obtain k w where k: "read_string u = Some (k, w)" by (auto split: option.splits)
    with 3 sk obtain w2 where sk2: "skip w = CHR '':'' # w2" by (auto split: list.splits if_splits)
    with 3 sk k obtain y w3 where y: "parse_value n d w2 = Some (y, w3)" by (auto split: option.splits)
    with 3 sk k sk2 obtain z w4 where sk4: "skip w3 = z # w4" by (auto split: list.splits)
    have "length t \<le> length w4" using 3 Suc.IH(3) [of d w4 _ t] by (fastforce simp: sk k sk2 y sk4 split: if_splits)
    with skip_Cons [OF sk] read_string_shorter [OF k] skip_Cons [OF sk2] Suc.IH(1) [OF y] skip_Cons [OF sk4] show ?case by simp
  }
qed simp_all

lemma parse_fuel:
  "2 * length s < n \<Longrightarrow> 2 * length s < m \<Longrightarrow> parse_value n d s = parse_value m d s"
  "2 * length s + 1 < n \<Longrightarrow> 2 * length s + 1 < m \<Longrightarrow> parse_elems n d s = parse_elems m d s"
  "2 * length s + 1 < n \<Longrightarrow> 2 * length s + 1 < m \<Longrightarrow> parse_members n d s = parse_members m d s"
proof (induction n arbitrary: m d s)
  case (Suc n)
  {
    case 1
    then obtain m' where m: "m = Suc m'" by (cases m) auto
    show ?case
    proof (cases "skip s")
      case (Cons c u)
      have "parse_elems n e u = parse_elems m' e u" "parse_members n e u = parse_members m' e u" for e
        using skip_Cons [OF Cons] 1 m by (intro Suc.IH(2,3); simp)+
      then show ?thesis by (simp only: m parse_value.simps Cons list.case)
    next
      case Nil
      then show ?thesis by (simp only: m parse_value.simps Nil list.case)
    qed
  next
    case 2
    then obtain m' where m: "m = Suc m'" by (cases m) auto
    have v: "parse_value n d s = parse_value m' d s" by (rule Suc.IH(1)) (use 2 m in simp_all)
    have "parse_elems n d w = parse_elems m' d w" if "parse_value n d s = Some (y, u)" "skip u = x # w" for x y u w
      using parse_shorter(1) [OF that(1)] skip_Cons [OF that(2)] 2 m by (intro Suc.IH(2)) simp_all
    then have "(case skip u of x # w \<Rightarrow> if x = CHR '','' then map_option (apfst (Cons y)) (parse_elems n d w)
        else if x = CHR '']'' then Some ([y], w) else None | [] \<Rightarrow> None) =
      (case skip u of x # w \<Rightarrow> if x = CHR '','' then map_option (apfst (Cons y)) (parse_elems m' d w)
        else if x = CHR '']'' then Some ([y], w) else None | [] \<Rightarrow> None)"
      if "parse_value n d s = Some (y, u)" for y u using that by (cases "skip u") (simp_all del: dropWhile_eq_Nil_conv)
    then show ?case unfolding m parse_elems.simps v [symmetric] by (cases "parse_value n d s") auto
  next
    case 3
    then obtain m' where m: "m = Suc m'" by (cases m) auto
    show ?case
    proof (cases "skip s")
      case (Cons q t)
      note t = skip_Cons [OF this]
      show ?thesis
      proof (cases "read_string t")
        case (Some ku)
        obtain k u where ku: "ku = (k, u)" by fastforce
        show ?thesis
        proof (cases "skip u")
          case (Cons x v)
          have l: "length v < length u" "length u < length t"
            using skip_Cons [OF Cons] read_string_shorter Some ku by auto
          have v: "parse_value n d v = parse_value m' d v" by (rule Suc.IH(1)) (use 3 m l t in simp_all)
          have "parse_members n d r = parse_members m' d r" if "parse_value n d v = Some (y, w)" "skip w = z # r" for y w z r
            using parse_shorter(1) [OF that(1)] skip_Cons [OF that(2)] 3 m l t by (intro Suc.IH(3)) simp_all
          then have "(case skip w of
              z # r \<Rightarrow> if z = CHR '','' then map_option (apfst (Cons (k, y))) (parse_members n d r)
                else if z = CHR ''}'' then Some ([(k, y)], r) else None | [] \<Rightarrow> None) =
            (case skip w of
              z # r \<Rightarrow> if z = CHR '','' then map_option (apfst (Cons (k, y))) (parse_members m' d r)
                else if z = CHR ''}'' then Some ([(k, y)], r) else None | [] \<Rightarrow> None)"
            if "parse_value n d v = Some (y, w)" for y w using that by (cases "skip w") (simp_all del: dropWhile_eq_Nil_conv)
          then have "(case parse_value n d v of None \<Rightarrow> None | Some (y, w) \<Rightarrow> (case skip w of
              z # r \<Rightarrow> if z = CHR '','' then map_option (apfst (Cons (k, y))) (parse_members n d r)
                else if z = CHR ''}'' then Some ([(k, y)], r) else None | [] \<Rightarrow> None)) =
            (case parse_value m' d v of None \<Rightarrow> None | Some (y, w) \<Rightarrow> (case skip w of
              z # r \<Rightarrow> if z = CHR '','' then map_option (apfst (Cons (k, y))) (parse_members m' d r)
                else if z = CHR ''}'' then Some ([(k, y)], r) else None | [] \<Rightarrow> None))"
            unfolding v [symmetric] by (cases "parse_value n d v") auto
          then show ?thesis by (simp only: m parse_members.simps \<open>skip s = q # t\<close> Some ku Cons list.case option.case prod.case)
        next
          case Nil
          then show ?thesis by (simp only: m parse_members.simps \<open>skip s = q # t\<close> Some ku Nil list.case option.case prod.case)
        qed
      qed (use Cons m in simp)
    next
      case Nil
      then show ?thesis by (simp only: m parse_members.simps Nil list.case)
    qed
  }
qed simp_all

text \<open>Any more fuel than \<open>Unmarshal\<close> gives changes nothing.\<close>

lemma Unmarshal_fuel:
  "2 * length s < n \<Longrightarrow> Unmarshal s = (case parse_value n maxNestingDepth s of
     Some (v, t) \<Rightarrow> if skip t = [] then Some v else None | None \<Rightarrow> None)"
  using parse_fuel(1) [of s n "Suc (2 * length s)"] by (simp add: Unmarshal_def)

subsection \<open>What was written is read back\<close>

fun sanitize :: "jvalue \<Rightarrow> jvalue" where
  "sanitize (VStr s) = VStr (to_valid s)"
| "sanitize (VArr vs) = VArr (map sanitize vs)"
| "sanitize (VObj kvs) = VObj (map (\<lambda>(k, v). (to_valid k, sanitize v)) kvs)"
| "sanitize v = v"

fun depth :: "jvalue \<Rightarrow> nat" where
  "depth (VArr vs) = Suc (fold max (map depth vs) 0)"
| "depth (VObj kvs) = Suc (fold max (map (depth \<circ> snd) kvs) 0)"
| "depth _ = 0"

text \<open>Every number in the value is an integer the program printed.\<close>

fun plain_numbers :: "jvalue \<Rightarrow> bool" where
  "plain_numbers (VNum n) = (\<exists>i. n = Itoa i)"
| "plain_numbers (VArr vs) = list_all plain_numbers vs"
| "plain_numbers (VObj kvs) = list_all (plain_numbers \<circ> snd) kvs"
| "plain_numbers _ = True"

definition no_digit :: "string \<Rightarrow> bool" where
  "no_digit s \<longleftrightarrow> (case s of [] \<Rightarrow> True | c # _ \<Rightarrow> \<not> is_digit c \<and> c \<noteq> CHR ''.'' \<and> c \<noteq> CHR ''e'' \<and> c \<noteq> CHR ''E'')"

lemma nat_string_zero: "nat_string n = CHR ''0'' # t \<Longrightarrow> n = 0 \<and> t = []"
proof (induction n arbitrary: t rule: nat_string.induct)
  case (1 n)
  show ?case
  proof (cases "n < 10")
    case True
    then have "char_of (48 + n) = CHR ''0''" "t = []" using "1.prems" by (simp_all add: nat_string.simps [of n])
    moreover have "48 + n = of_char (char_of (48 + n) :: char)" using True by (simp add: of_char_of)
    ultimately show ?thesis by simp
  next
    case False
    then obtain u where "nat_string (n div 10) = CHR ''0'' # u"
      using "1.prems" nat_string_value [of "n div 10"] by (cases "nat_string (n div 10)") (auto simp: nat_string.simps [of n])
    from "1.IH" [OF False this] have "n div 10 = 0" by simp
    then have "n < 10" by presburger
    with False show ?thesis by simp
  qed
qed

lemma read_digits:
  assumes "list_all is_digit ds" and "ds \<noteq> []" and "no_digit rest"
  shows "digits1 (ds @ rest) = Some (ds, rest)"
proof -
  have "takeWhile is_digit (ds @ rest) = ds" "dropWhile is_digit (ds @ rest) = rest"
    using assms(1,3) by (auto simp: list_all_iff takeWhile_append2 dropWhile_append2 no_digit_def split: list.splits)
  with assms(2) show ?thesis by (simp add: digits1_def)
qed

lemma read_nat:
  assumes "no_digit rest"
  shows "int_part (nat_string n @ rest) = Some (nat_string n, rest)"
proof -
  note v = nat_string_value [of n]
  obtain c t where ct: "nat_string n = c # t" using v by (cases "nat_string n") auto
  show ?thesis
  proof (cases "c = CHR ''0''")
    case True
    with ct nat_string_zero have "t = []" by blast
    with True ct show ?thesis by (simp add: int_part_def)
  next
    case False
    with read_digits [of "nat_string n" rest] v assms show ?thesis by (simp add: int_part_def ct)
  qed
qed

lemma read_Itoa:
  assumes "no_digit rest"
  shows "read_number (Itoa i @ rest) = Some (Itoa i, rest)"
proof -
  have tail: "frac_part rest = Some ([], rest)" "exp_part rest = Some ([], rest)"
    using assms by (auto simp: no_digit_def frac_part_def exp_part_def split: list.splits)
  show ?thesis
  proof (cases "i < 0")
    case True
    then show ?thesis by (simp add: Itoa_def read_number_def read_nat [OF assms] tail)
  next
    case False
    obtain c t where ct: "nat_string (nat i) = c # t" using nat_string_value [of "nat i"] by (cases "nat_string (nat i)") auto
    moreover have "c \<noteq> CHR ''-''" using nat_string_hd(1) [of "nat i"] ct by simp
    ultimately have "read_number (nat_string (nat i) @ rest) = Some (nat_string (nat i), rest)"
      using read_nat [OF assms, of "nat i"] by (simp add: read_number_def tail)
    with False show ?thesis by (simp add: Itoa_def)
  qed
qed

text \<open>The first character of a written value.\<close>

lemma Marshal_head:
  assumes "plain_numbers v"
  obtains c t where "Marshal v = c # t" and "\<not> json_space c" and "c \<noteq> CHR '']''" and "c \<noteq> CHR ''}''"
proof (cases v)
  case (VNum n)
  then obtain i where i: "n = Itoa i" using assms by auto
  obtain c t where ct: "Itoa i = c # t" by (cases "Itoa i") auto
  then have "is_digit c \<or> c = CHR ''-''" using Itoa_text [of c i] by simp
  then have "\<not> json_space c" "c \<noteq> CHR '']''" "c \<noteq> CHR ''}''" by (auto simp: is_digit_def json_space_def)
  with ct i VNum that show thesis by simp
next
  case (VBool b)
  then show thesis by (cases b) (use that in \<open>auto simp: json_space_def\<close>)
qed (use that in \<open>auto simp: json_space_def quote_json_def dquote_def split: if_splits\<close>)

lemma skip_head: "Marshal v = c # t \<Longrightarrow> \<not> json_space c \<Longrightarrow> skip (Marshal v @ rest) = Marshal v @ rest"
  by simp

lemma fold_max_ge: "x \<in> set xs \<Longrightarrow> x \<le> fold max xs a" "a \<le> fold max xs (a :: nat)"
proof (induction xs arbitrary: a)
  case (Cons y xs)
  { case 1 with Cons.IH(1) Cons.IH(2) [of "max y a"] show ?case by auto }
  { case 2 from Cons.IH(2) [of "max y a"] show ?case by simp }
qed simp_all

definition reads_back :: "nat \<Rightarrow> jvalue \<Rightarrow> bool" where
  "reads_back d v \<longleftrightarrow> (\<forall>rest. no_digit rest \<longrightarrow> (\<exists>N. \<forall>n \<ge> N. parse_value n d (Marshal v @ rest) = Some (sanitize v, rest)))"

lemma no_digit_closers [simp]:
  "no_digit (CHR '','' # s)" "no_digit (CHR '']'' # s)" "no_digit (CHR ''}'' # s)" "no_digit [CHR 0x0A]" "no_digit []"
  by (simp_all add: no_digit_def is_digit_def)

lemma space_closers [simp]:
  "\<not> json_space CHR '',''" "\<not> json_space CHR '']''" "\<not> json_space CHR ''}''" "\<not> json_space CHR '':''" "\<not> json_space dquote"
  "\<not> json_space CHR ''[''" "\<not> json_space CHR ''{''"
  by (simp_all add: json_space_def dquote_def)

lemma with_fuel: "(\<And>m. N \<le> m \<Longrightarrow> P (Suc m)) \<Longrightarrow> \<forall>n \<ge> Suc N. P n"
  by (metis Suc_le_D Suc_le_mono)

lemma elems_read_back:
  assumes "vs \<noteq> []" and "\<And>v. v \<in> set vs \<Longrightarrow> reads_back d v"
  shows "\<exists>N. \<forall>n \<ge> N. parse_elems n d (Join CHR '','' (map Marshal vs) @ CHR '']'' # rest) = Some (map sanitize vs, rest)"
  using assms
proof (induction vs rule: list_nonempty_induct)
  case (single v)
  then obtain N where "\<forall>n \<ge> N. parse_value n d (Marshal v @ CHR '']'' # rest) = Some (sanitize v, CHR '']'' # rest)"
    by (force simp: reads_back_def)
  then have "\<forall>n \<ge> Suc N. parse_elems n d (Marshal v @ CHR '']'' # rest) = Some ([sanitize v], rest)"
    by (intro with_fuel) simp
  then show ?case by auto
next
  case (cons v vs)
  then obtain y ys where vs: "vs = y # ys" by (cases vs) auto
  let ?t = "Join CHR '','' (map Marshal vs) @ CHR '']'' # rest"
  from cons.prems obtain N where N: "\<forall>n \<ge> N. parse_value n d (Marshal v @ CHR '','' # ?t) = Some (sanitize v, CHR '','' # ?t)"
    by (force simp: reads_back_def)
  from cons.IH cons.prems obtain M where M: "\<forall>n \<ge> M. parse_elems n d ?t = Some (map sanitize vs, rest)" by auto
  have "\<forall>n \<ge> Suc (max N M). parse_elems n d (Marshal v @ CHR '','' # ?t) = Some (sanitize v # map sanitize vs, rest)"
    using N M by (intro with_fuel) simp
  then show ?case by (auto simp: vs)
qed

lemma members_read_back:
  assumes "kvs \<noteq> []" and "\<And>k v. (k, v) \<in> set kvs \<Longrightarrow> reads_back d v"
  shows "\<exists>N. \<forall>n \<ge> N. parse_members n d (Join CHR '','' (map (\<lambda>(k, v). quote_json k @ CHR '':'' # Marshal v) kvs) @ CHR ''}'' # rest)
    = Some (map (\<lambda>(k, v). (to_valid k, sanitize v)) kvs, rest)"
  using assms
proof (induction kvs rule: list_nonempty_induct)
  case (single kv)
  obtain k v where kv: "kv = (k, v)" by fastforce
  with single obtain N where "\<forall>n \<ge> N. parse_value n d (Marshal v @ CHR ''}'' # rest) = Some (sanitize v, CHR ''}'' # rest)"
    by (force simp: reads_back_def)
  then have "\<forall>n \<ge> Suc N. parse_members n d (quote_json k @ CHR '':'' # Marshal v @ CHR ''}'' # rest) = Some ([(to_valid k, sanitize v)], rest)"
    by (intro with_fuel) (simp add: quote_json_def read_quoted)
  then show ?case by (auto simp: kv)
next
  case (cons kv kvs)
  obtain k v where kv: "kv = (k, v)" by fastforce
  obtain y ys where kvs: "kvs = y # ys" using cons.hyps by (cases kvs) auto
  let ?t = "Join CHR '','' (map (\<lambda>(k, v). quote_json k @ CHR '':'' # Marshal v) kvs) @ CHR ''}'' # rest"
  from cons.prems kv obtain N where N: "\<forall>n \<ge> N. parse_value n d (Marshal v @ CHR '','' # ?t) = Some (sanitize v, CHR '','' # ?t)"
    by (force simp: reads_back_def)
  from cons.IH cons.prems obtain M where M: "\<forall>n \<ge> M. parse_members n d ?t = Some (map (\<lambda>(k, v). (to_valid k, sanitize v)) kvs, rest)"
    by auto
  have "\<forall>n \<ge> Suc (max N M). parse_members n d (quote_json k @ CHR '':'' # Marshal v @ CHR '','' # ?t) =
      Some ((to_valid k, sanitize v) # map (\<lambda>(k, v). (to_valid k, sanitize v)) kvs, rest)"
    using N M by (intro with_fuel) (simp add: quote_json_def read_quoted)
  then show ?case by (auto simp: kv kvs)
qed

lemma Marshal_reads_back: "plain_numbers v \<Longrightarrow> depth v \<le> d \<Longrightarrow> reads_back d v"
proof (induction v arbitrary: d)
  case (VNum s)
  then obtain i where i: "s = Itoa i" by auto
  obtain c t where ct: "Itoa i = c # t" by (cases "Itoa i") auto
  then have c: "is_digit c \<or> c = CHR ''-''" using Itoa_text [of c i] by simp
  then have "\<not> json_space c" "c \<noteq> dquote" "c \<noteq> CHR ''[''" "c \<noteq> CHR ''{''" "c \<noteq> CHR ''n''" "c \<noteq> CHR ''t''" "c \<noteq> CHR ''f''"
    by (auto simp: is_digit_def json_space_def dquote_def)
  then have "parse_value (Suc m) d (Itoa i @ rest) = Some (VNum (Itoa i), rest)" if "no_digit rest" for m rest
    using read_Itoa [OF that, of i] by (simp add: ct HasPrefix_def)
  then show ?case unfolding reads_back_def i by (auto intro!: exI [of _ "Suc 0"] with_fuel)
next
  case (VArr vs)
  obtain e where d: "d = Suc e" using VArr.prems by (cases d) auto
  show ?case
  proof (cases "vs = []")
    case True
    then show ?thesis by (auto simp: reads_back_def d dquote_def intro!: exI [of _ "Suc 0"] with_fuel)
  next
    case False
    have "depth v \<le> e" if "v \<in> set vs" for v
      using fold_max_ge(1) [of "depth v" "map depth vs" 0] that VArr.prems by (simp add: d)
    then have rb: "reads_back e v" if "v \<in> set vs" for v using VArr that by (auto simp: list_all_iff)
    obtain c t where ct: "Join CHR '','' (map Marshal vs) = c # t" "\<not> json_space c" "c \<noteq> CHR '']''"
    proof -
      obtain v us where vs: "vs = v # us" using False by (cases vs) auto
      then have "plain_numbers v" using VArr.prems by simp
      then obtain c t where "Marshal v = c # t" "\<not> json_space c" "c \<noteq> CHR '']''" by (rule Marshal_head)
      with that vs show thesis by (cases us) simp_all
    qed
    show ?thesis unfolding reads_back_def
    proof (intro allI impI)
      fix rest assume "no_digit rest"
      obtain N where "\<forall>n \<ge> N. parse_elems n e (Join CHR '','' (map Marshal vs) @ CHR '']'' # rest) = Some (map sanitize vs, rest)"
        using elems_read_back [OF False rb] by blast
      then have "\<forall>n \<ge> Suc N. parse_value n d (Marshal (VArr vs) @ rest) = Some (sanitize (VArr vs), rest)"
        by (intro with_fuel) (simp add: d ct dquote_def)
      then show "\<exists>N. \<forall>n \<ge> N. parse_value n d (Marshal (VArr vs) @ rest) = Some (sanitize (VArr vs), rest)" by blast
    qed
  qed
next
  case (VObj kvs)
  obtain e where d: "d = Suc e" using VObj.prems by (cases d) auto
  show ?case
  proof (cases "kvs = []")
    case True
    then show ?thesis by (auto simp: reads_back_def d dquote_def intro!: exI [of _ "Suc 0"] with_fuel)
  next
    case False
    have "depth v \<le> e" if "(k, v) \<in> set kvs" for k v
    proof -
      have "depth v \<in> set (map (depth \<circ> snd) kvs)" using that by force
      from fold_max_ge(1) [OF this, of 0] VObj.prems show ?thesis by (simp add: d)
    qed
    moreover have "plain_numbers v" if "(k, v) \<in> set kvs" for k v using VObj.prems that by (auto simp: list_all_iff)
    ultimately have rb: "reads_back e v" if "(k, v) \<in> set kvs" for k v using VObj.IH [of "(k, v)" v e] that by auto
    obtain c t where ct: "Join CHR '','' (map (\<lambda>(k, v). quote_json k @ CHR '':'' # Marshal v) kvs) = c # t" "\<not> json_space c" "c \<noteq> CHR ''}''"
    proof -
      obtain k v us where "kvs = (k, v) # us" using False by (cases kvs) auto
      then show thesis using that by (cases us) (auto simp: quote_json_def dquote_def json_space_def)
    qed
    show ?thesis unfolding reads_back_def
    proof (intro allI impI)
      fix rest assume "no_digit rest"
      obtain N where "\<forall>n \<ge> N. parse_members n e (Join CHR '','' (map (\<lambda>(k, v). quote_json k @ CHR '':'' # Marshal v) kvs) @ CHR ''}'' # rest)
          = Some (map (\<lambda>(k, v). (to_valid k, sanitize v)) kvs, rest)"
        using members_read_back [OF False, of e rest] rb by blast
      then have "\<forall>n \<ge> Suc N. parse_value n d (Marshal (VObj kvs) @ rest) = Some (sanitize (VObj kvs), rest)"
        by (intro with_fuel) (simp add: d ct dquote_def)
      then show "\<exists>N. \<forall>n \<ge> N. parse_value n d (Marshal (VObj kvs) @ rest) = Some (sanitize (VObj kvs), rest)" by blast
    qed
  qed
next
  case (VStr s)
  have "parse_value (Suc m) d (quote_json s @ rest) = Some (VStr (to_valid s), rest)" for m rest
    by (simp add: quote_json_def read_quoted)
  then show ?case unfolding reads_back_def by (auto intro!: exI [of _ "Suc 0"] with_fuel simp del: parse_value.simps)
qed (auto simp: reads_back_def HasPrefix_def json_space_def dquote_def intro!: exI [of _ "Suc 0"] with_fuel)

lemma Unmarshal_of_Marshal:
  assumes "plain_numbers v" and "depth v \<le> maxNestingDepth" and "no_digit w" and "skip w = []"
  shows "Unmarshal (Marshal v @ w) = Some (sanitize v)"
proof -
  obtain N where "\<forall>n \<ge> N. parse_value n maxNestingDepth (Marshal v @ w) = Some (sanitize v, w)"
    using Marshal_reads_back [OF assms(1,2)] assms(3) by (auto simp: reads_back_def)
  then have "parse_value (max N (Suc (2 * length (Marshal v @ w)))) maxNestingDepth (Marshal v @ w) = Some (sanitize v, w)" by simp
  moreover have "2 * length (Marshal v @ w) < max N (Suc (2 * length (Marshal v @ w)))" by simp
  ultimately show ?thesis using Unmarshal_fuel assms(4) by simp
qed

lemma valid_text: "valid_utf8 s \<Longrightarrow> to_valid s = s"
  unfolding to_valid_def valid_utf8_def
proof (induction s rule: runes.induct)
  case (2 a s)
  define k where "k = multi_width (a # s)"
  have drop: "take k (a # s) @ drop (k - 1) s = a # s" if "k \<noteq> 0" using that by (cases k) simp_all
  show ?case
  proof (cases "ord a < 0x80")
    case True
    with 2 show ?thesis by simp
  next
    case False
    then have nz: "k \<noteq> 0" using "2.prems" by (auto simp: Let_def k_def simp del: multi_width.simps split: if_splits)
    have r: "runes (a # s) = Multi (take k (a # s)) # runes (drop (k - 1) s)"
      using False nz by (simp add: Let_def k_def del: multi_width.simps)
    have "concat (map rune_text (runes (drop (k - 1) s))) = drop (k - 1) s"
      using "2.IH"(3) [OF False k_def] nz "2.prems" unfolding r by simp
    with drop [OF nz] show ?thesis unfolding r by simp
  qed
qed simp

fun valid_strings :: "jvalue \<Rightarrow> bool" where
  "valid_strings (VStr s) = valid_utf8 s"
| "valid_strings (VArr vs) = list_all valid_strings vs"
| "valid_strings (VObj kvs) = list_all (\<lambda>(k, v). valid_utf8 k \<and> valid_strings v) kvs"
| "valid_strings _ = True"

lemma sanitize_valid: "valid_strings v \<Longrightarrow> sanitize v = v"
proof (induction v)
  case (VArr vs)
  then show ?case by (auto simp: list_all_iff intro: map_idI)
next
  case (VObj kvs)
  have "(\<lambda>(k, v). (to_valid k, sanitize v)) kv = kv" if "kv \<in> set kvs" for kv
    using VObj.IH [OF that, of "snd kv"] VObj.prems that by (cases kv) (auto simp: list_all_iff valid_text)
  then show ?case by (simp add: map_idI)
qed (simp_all add: valid_text)

lemma ascii_valid: "\<forall>c \<in> set s. ord c < 0x80 \<Longrightarrow> valid_utf8 s"
  by (induction s) (simp_all add: valid_utf8_def)

text \<open>
  Marshalled values are read back. Whatever strings (of any bytes) a value holds, the text that
  \<open>Encode\<close> writes parses, and gives the value again with bytes that are no UTF-8 replaced; a value
  of valid strings comes back as it was. No string can break out of its quotes.
\<close>

lemma json_roundtrip:
  assumes "plain_numbers v" and "depth v \<le> maxNestingDepth"
  shows "Unmarshal (Marshal v) = Some (sanitize v) \<and> Unmarshal (Encode_json v) = Some (sanitize v) \<and>
    (valid_strings v \<longrightarrow> Unmarshal (Encode_json v) = Some v)"
proof -
  have "skip [CHR 0x0A] = []" by (simp add: json_space_def)
  with Unmarshal_of_Marshal [OF assms, of "[]"] Unmarshal_of_Marshal [OF assms, of "[CHR 0x0A]"] sanitize_valid [of v]
  show ?thesis by (simp add: Encode_json_def)
qed

definition sample_value :: jvalue where
  "sample_value = VObj [(''a'', VArr [VNull, VNum (Itoa 3)]), (''b'', VStr [CHR 0xFF])]"

lemma sample_json_roundtrip:
  "Unmarshal (Encode_json sample_value) = Some (VObj [(''a'', VArr [VNull, VNum (Itoa 3)]), (''b'', VStr replacement)])"
proof -
  have "plain_numbers sample_value" "depth sample_value \<le> maxNestingDepth"
    by (auto simp: sample_value_def maxNestingDepth_def)
  from json_roundtrip [OF this]
  have "Unmarshal (Encode_json sample_value) = Some (sanitize sample_value)" by (rule conjE) (erule conjunct1)
  then show ?thesis by (simp add: sample_value_def to_valid_def)
qed

end
