(* ===== verification/Middleware.thy ===== *)
theory Middleware
  imports Server_Safety Metrics Json
begin

text \<open>
  The middleware at the level of the \<open>ResponseWriter\<close> (\<open>internal/http/server.go\<close>): recovery from panics,
  the access log and its metrics, the status recorder, and the order in which \<open>NewServer\<close> nests them.
  A handler is what it does to its writer: a sequence of calls, and how it ends. The writer of
  \<open>net/http\<close> keeps the header until the status line is sent with it, sends one status line, and sends
  200 when a handler writes or returns without one; it panics on a code that is not of three
  digits, and sends no body with some. Shown: whatever a handler does, one status
  line goes out, the access log and the metrics report that very status if it is a final one, and \<open>Server\<close>, where a
  handler is the response it computes, is what goes over the wire.
\<close>

subsection \<open>The writer\<close>

type_synonym header = "string \<Rightarrow> string list"

record writer =
  wr_Header :: header
  wr_informational :: "nat list"
  wr_sent :: "(nat \<times> header) option"
  wr_body :: string

definition fresh_writer :: writer where
  "fresh_writer = \<lparr>wr_Header = (\<lambda>_. []), wr_informational = [], wr_sent = None, wr_body = []\<rparr>"

text \<open>
  \<open>WriteHeader\<close> of \<open>net/http\<close>: superfluous once a status is sent; a panic (\<open>None\<close>) on a code that is not
  of three digits; an informational status (below 200, but for a protocol switch) goes out ahead
  of the final one.
\<close>

definition checkWriteHeaderCode :: "nat \<Rightarrow> bool" where
  "checkWriteHeaderCode st \<longleftrightarrow> 100 \<le> st \<and> st \<le> 999"

definition base_WriteHeader :: "nat \<Rightarrow> writer \<Rightarrow> writer option" where
  "base_WriteHeader st w =
     (if wr_sent w \<noteq> None then Some w
      else if \<not> checkWriteHeaderCode st then None
      else if 100 \<le> st \<and> st \<le> 199 \<and> st \<noteq> 101 then Some (w\<lparr>wr_informational := wr_informational w @ [st]\<rparr>)
      else Some (w\<lparr>wr_sent := Some (st, wr_Header w)\<rparr>))"

text \<open>
  A write without a status sends 200 first; a status without a body swallows what is written. (The
  body of the answer to a \<open>HEAD\<close> is computed here as that of a \<open>GET\<close>; \<open>net/http\<close> does not send it.)
\<close>

definition bodyAllowedForStatus :: "nat \<Rightarrow> bool" where
  "bodyAllowedForStatus st \<longleftrightarrow> \<not> (100 \<le> st \<and> st \<le> 199) \<and> st \<noteq> 204 \<and> st \<noteq> 304"

definition default_header :: "writer \<Rightarrow> writer" where
  "default_header w = (case base_WriteHeader 200 w of None \<Rightarrow> w | Some w' \<Rightarrow> w')"

definition base_Write :: "string \<Rightarrow> writer \<Rightarrow> writer" where
  "base_Write p w =
     (let w' = default_header w in
      case wr_sent w' of
        None \<Rightarrow> w'
      | Some (st, h) \<Rightarrow> if bodyAllowedForStatus st then w'\<lparr>wr_body := wr_body w' @ p\<rparr> else w')"

definition set_header :: "string \<Rightarrow> string \<Rightarrow> writer \<Rightarrow> writer" where
  "set_header k v w = w\<lparr>wr_Header := (wr_Header w)(k := [v])\<rparr>"

definition add_header :: "string \<Rightarrow> string \<Rightarrow> writer \<Rightarrow> writer" where
  "add_header k v w = w\<lparr>wr_Header := (wr_Header w)(k := wr_Header w k @ [v])\<rparr>"

subsection \<open>The status recorder\<close>

record statusRecorder =
  rec_writer :: writer
  rec_status :: nat
  rec_wroteHeader :: bool

text \<open>A call leaves a recorder, on the left when it panicked.\<close>

definition rec_WriteHeader :: "nat \<Rightarrow> statusRecorder \<Rightarrow> statusRecorder + statusRecorder" where
  "rec_WriteHeader st r =
     (if rec_wroteHeader r then Inr r
      else let r' = r\<lparr>rec_status := st, rec_wroteHeader := True\<rparr> in
        case base_WriteHeader st (rec_writer r) of
          None \<Rightarrow> Inl r'
        | Some w \<Rightarrow> Inr (r'\<lparr>rec_writer := w\<rparr>))"

definition rec_Write :: "string \<Rightarrow> statusRecorder \<Rightarrow> statusRecorder + statusRecorder" where
  "rec_Write p r =
     (case (if \<not> rec_wroteHeader r then rec_WriteHeader 200 r else Inr r) of
        Inl r' \<Rightarrow> Inl r'
      | Inr r' \<Rightarrow> Inr (r'\<lparr>rec_writer := base_Write p (rec_writer r')\<rparr>))"

datatype writer_call = SetHeader string string | AddHeader string string | WriteHeader nat | WriteBody string

fun perform :: "writer_call \<Rightarrow> statusRecorder \<Rightarrow> statusRecorder + statusRecorder" where
  "perform (SetHeader k v) r = Inr (r\<lparr>rec_writer := set_header k v (rec_writer r)\<rparr>)"
| "perform (AddHeader k v) r = Inr (r\<lparr>rec_writer := add_header k v (rec_writer r)\<rparr>)"
| "perform (WriteHeader st) r = rec_WriteHeader st r"
| "perform (WriteBody p) r = rec_Write p r"

fun perform_all :: "writer_call list \<Rightarrow> statusRecorder \<Rightarrow> statusRecorder + statusRecorder" where
  "perform_all [] r = Inr r"
| "perform_all (c # cs) r = (case perform c r of Inl r' \<Rightarrow> Inl r' | Inr r' \<Rightarrow> perform_all cs r')"

text \<open>
  A handler makes its calls and then returns, panics, or panics with \<open>http.ErrAbortHandler\<close>; a call
  that panics ends it there.
\<close>

datatype ending = Returns | Panics | Aborts

type_synonym behaviour = "writer_call list \<times> ending"

definition error_json :: "code \<Rightarrow> string \<Rightarrow> jvalue" where
  "error_json c message = VObj [(''error'', VObj [(''code'', VStr (code_string c)), (''message'', VStr message)])]"

definition writeJSON_calls :: "nat \<Rightarrow> jvalue \<Rightarrow> writer_call list" where
  "writeJSON_calls st v =
     [SetHeader ''Content-Type'' ''application/json; charset=utf-8'', WriteHeader st, WriteBody (Encode_json v)]"

definition writeError_calls :: "nat \<Rightarrow> code \<Rightarrow> string \<Rightarrow> writer_call list" where
  "writeError_calls st c message = writeJSON_calls st (error_json c message)"

subsection \<open>The chain\<close>

text \<open>
  What a handler is to the middleware around it: it acts on a recorder, reports to the metrics, and
  ends. After \<open>withRecover\<close> only an abort is left of a panic.
\<close>

type_synonym handler = "statusRecorder \<Rightarrow> statusRecorder \<times> report list \<times> ending"

definition run_handler :: "behaviour \<Rightarrow> handler" where
  "run_handler b r =
     (case perform_all (fst b) r of Inl r' \<Rightarrow> (r', [], Panics) | Inr r' \<Rightarrow> (r', [], snd b))"

definition withRecover :: "handler \<Rightarrow> handler" where
  "withRecover next_handler r =
     (let (r', reports, e) = next_handler r in
      if e = Panics
      then (case (if \<not> rec_wroteHeader r' then perform_all (writeError_calls 500 codeInternal ''Error interno.'') r' else Inr r') of
              Inl r'' \<Rightarrow> (r'', reports @ [Inc metricHTTPPanics], Panics)
            | Inr r'' \<Rightarrow> (r'', reports @ [Inc metricHTTPPanics], Returns))
      else (r', reports, e))"

text \<open>\<open>elapsed\<close> is the time the request took, in seconds; the last component is the status the access log names.\<close>

definition withLogging_chain :: "string \<Rightarrow> rat \<Rightarrow> handler \<Rightarrow> writer \<Rightarrow> writer \<times> report list \<times> ending \<times> nat option" where
  "withLogging_chain path elapsed next_handler w =
     (let (rw, reports, e) = next_handler \<lparr>rec_writer = w, rec_status = 200, rec_wroteHeader = False\<rparr> in
      if e \<noteq> Returns then (rec_writer rw, reports, e, None)
      else (rec_writer rw,
        reports @ [Inc ''sesamo_http_requests_total'', Inc (''sesamo_http_requests_total_'' @ statusClass (rec_status rw)),
          Obs ''sesamo_request_duration_seconds'' elapsed]
        @ (if path = ''/v1/introspect'' then [Obs ''sesamo_introspect_duration_seconds'' elapsed] else []),
        Returns, Some (rec_status rw)))"

definition set_headers :: "(string \<times> string) list \<Rightarrow> writer \<Rightarrow> writer" where
  "set_headers hs w = fold (\<lambda>(k, v). set_header k v) hs w"

text \<open>\<open>net/http\<close> once the handler has returned; after a panic the connection is closed as it is.\<close>

definition finish_request :: "ending \<Rightarrow> writer \<Rightarrow> writer" where
  "finish_request e w = (if e = Returns then default_header w else w)"

definition serve_wire :: "(string \<times> string) list \<Rightarrow> string \<Rightarrow> string \<Rightarrow> rat \<Rightarrow> behaviour
    \<Rightarrow> writer \<times> report list \<times> nat option" where
  "serve_wire secure_headers reqid path elapsed b =
     (let (w, reports, e, logged) = withLogging_chain path elapsed (withRecover (run_handler b))
            (set_header ''X-Request-Id'' reqid (set_headers secure_headers fresh_writer))
      in (finish_request e w, reports, logged))"

subsection \<open>The body limit\<close>

definition maxBodyBytes :: nat where "maxBodyBytes = 64 * 1024"

text \<open>
  What reading the whole of a limited body gives; past the limit, reading and form parsing fail.
\<close>

definition withBodyLimit :: "bytes \<Rightarrow> request \<Rightarrow> request" where
  "withBodyLimit body r =
     (if length body \<le> maxBodyBytes then r\<lparr>raw_body := Some body\<rparr> else r\<lparr>raw_body := None, form_ok := False\<rparr>)"

subsection \<open>What goes over the wire\<close>

text \<open>The status a handler sends first, and all it writes.\<close>

fun first_status :: "writer_call list \<Rightarrow> nat option" where
  "first_status [] = None"
| "first_status (WriteHeader st # cs) = Some st"
| "first_status (WriteBody p # cs) = Some 200"
| "first_status (c # cs) = first_status cs"

fun written :: "writer_call list \<Rightarrow> string" where
  "written [] = []"
| "written (WriteBody p # cs) = p @ written cs"
| "written (c # cs) = written cs"

fun touches :: "string \<Rightarrow> writer_call \<Rightarrow> bool" where
  "touches k (SetHeader k' v) = (k = k')"
| "touches k (AddHeader k' v) = (k = k')"
| "touches k c = False"

text \<open>
  The status that goes out for the status a recorder took: a final one itself; after an
  informational one, or one that made \<open>net/http\<close> panic, the 200 that \<open>net/http\<close> sends by default.
\<close>

definition wire_status :: "nat \<Rightarrow> nat" where
  "wire_status st = (if st = 101 \<or> 200 \<le> st \<and> st \<le> 999 then st else 200)"

text \<open>
  The recorder is in step with the writer under it: before the first status nothing is sent and the
  status is the one \<open>net/http\<close> would send by itself; afterwards it is the one that was or will be sent.
\<close>

definition in_step :: "statusRecorder \<Rightarrow> bool" where
  "in_step r \<longleftrightarrow>
     (if rec_wroteHeader r
      then (\<exists>h. wr_sent (rec_writer r) = Some (wire_status (rec_status r), h)) \<or>
           wr_sent (rec_writer r) = None \<and> wr_body (rec_writer r) = [] \<and> wire_status (rec_status r) = 200
      else wr_sent (rec_writer r) = None \<and> rec_status r = 200 \<and> wr_body (rec_writer r) = [])"

text \<open>A header that is still to be sent, or was sent, with the value \<open>v\<close> for the key \<open>k\<close>.\<close>

definition carries :: "string \<Rightarrow> string \<Rightarrow> writer \<Rightarrow> bool" where
  "carries k v w \<longleftrightarrow> wr_Header w k = [v] \<and> (\<forall>st h. wr_sent w = Some (st, h) \<longrightarrow> h k = [v])"

text \<open>The recorder a call leaves, panic or not.\<close>

definition left_by :: "statusRecorder + statusRecorder \<Rightarrow> statusRecorder" where
  "left_by x = (case x of Inl r \<Rightarrow> r | Inr r \<Rightarrow> r)"

lemma left_by_simps [simp]: "left_by (Inl r) = r" "left_by (Inr r) = r"
  by (simp_all add: left_by_def)

lemmas writer_defs = base_WriteHeader_def base_Write_def default_header_def set_header_def add_header_def
  rec_WriteHeader_def rec_Write_def checkWriteHeaderCode_def Let_def

lemma default_header_simps:
  "wr_sent (default_header w) = (case wr_sent w of None \<Rightarrow> Some (200, wr_Header w) | Some x \<Rightarrow> Some x)"
  "wr_Header (default_header w) = wr_Header w" "wr_body (default_header w) = wr_body w"
  by (auto simp: writer_defs split: option.splits)

lemma base_Write_simps:
  "wr_sent (base_Write p w) = wr_sent (default_header w)"
  "wr_Header (base_Write p w) = wr_Header w"
  "wr_body (base_Write p w) =
     wr_body w @ (if bodyAllowedForStatus (case wr_sent w of None \<Rightarrow> 200 | Some (st, h) \<Rightarrow> st) then p else [])"
  by (auto simp: base_Write_def default_header_simps Let_def split: option.splits)

lemma in_step_WriteHeader:
  assumes "in_step r"
  shows "in_step (left_by (rec_WriteHeader st r))"
proof (cases "rec_wroteHeader r")
  case False
  then have r: "wr_sent (rec_writer r) = None" "wr_body (rec_writer r) = []" using assms by (simp_all add: in_step_def)
  consider "\<not> checkWriteHeaderCode st" | "checkWriteHeaderCode st" "100 \<le> st \<and> st \<le> 199 \<and> st \<noteq> 101"
    | "checkWriteHeaderCode st" "\<not> (100 \<le> st \<and> st \<le> 199 \<and> st \<noteq> 101)" by blast
  then show ?thesis
  proof cases
    case 1
    then have "wire_status st = 200" by (auto simp: checkWriteHeaderCode_def wire_status_def)
    with 1 False r show ?thesis by (simp add: rec_WriteHeader_def base_WriteHeader_def in_step_def)
  next
    case 2
    then have "wire_status st = 200" by (simp add: wire_status_def)
    with 2 False r show ?thesis by (simp add: rec_WriteHeader_def base_WriteHeader_def in_step_def)
  next
    case 3
    then have "wire_status st = st" by (auto simp: checkWriteHeaderCode_def wire_status_def)
    with 3 False r show ?thesis by (simp only: rec_WriteHeader_def base_WriteHeader_def in_step_def) simp
  qed
qed (use assms in \<open>simp add: rec_WriteHeader_def\<close>)

lemma in_step_Write:
  assumes "in_step r"
  shows "in_step (left_by (rec_Write p r))"
proof -
  have w: "wire_status 200 = 200" by (simp add: wire_status_def)
  show ?thesis
  proof (cases "rec_wroteHeader r")
    case True
    with assms w show ?thesis
      by (auto simp: rec_Write_def in_step_def base_Write_simps default_header_simps split: option.splits)
  next
    case False
    then have "wr_sent (rec_writer r) = None" using assms by (simp add: in_step_def)
    with False w show ?thesis
      by (simp add: rec_Write_def rec_WriteHeader_def base_WriteHeader_def checkWriteHeaderCode_def in_step_def
          base_Write_simps default_header_simps)
  qed
qed

lemma perform_in_step: "in_step r \<Longrightarrow> in_step (left_by (perform c r))"
  by (cases c) (simp_all add: in_step_WriteHeader in_step_Write, simp_all add: in_step_def set_header_def add_header_def)

lemma perform_all_in_step: "in_step r \<Longrightarrow> in_step (left_by (perform_all cs r))"
proof (induction cs arbitrary: r)
  case (Cons c cs)
  show ?case using Cons.IH [of "left_by (perform c r)"] perform_in_step [OF Cons.prems, of c]
    by (cases "perform c r") simp_all
qed simp

lemma perform_wrote:
  "rec_wroteHeader r \<Longrightarrow> \<exists>r'. perform c r = Inr r' \<and> rec_wroteHeader r' \<and> rec_status r' = rec_status r"
  by (cases c) (simp_all add: rec_WriteHeader_def rec_Write_def)

lemma perform_all_wrote:
  "rec_wroteHeader r \<Longrightarrow> \<exists>r'. perform_all cs r = Inr r' \<and> rec_wroteHeader r' \<and> rec_status r' = rec_status r"
proof (induction cs arbitrary: r)
  case (Cons c cs)
  then show ?case using perform_wrote [OF Cons.prems, of c] by fastforce
qed simp

lemma perform_all_append:
  "perform_all (xs @ ys) r = (case perform_all xs r of Inl r' \<Rightarrow> Inl r' | Inr r' \<Rightarrow> perform_all ys r')"
  by (induction xs arbitrary: r) (simp_all split: sum.splits)

text \<open>A recorder that has taken no status, over a writer that has sent none.\<close>

definition untouched :: "statusRecorder \<Rightarrow> bool" where
  "untouched r \<longleftrightarrow> \<not> rec_wroteHeader r \<and> rec_status r = 200 \<and> wr_sent (rec_writer r) = None \<and> wr_body (rec_writer r) = []"

definition refused :: "writer_call list \<Rightarrow> bool" where
  "refused cs \<longleftrightarrow> (case first_status cs of None \<Rightarrow> False | Some st \<Rightarrow> \<not> checkWriteHeaderCode st)"

lemma refused_header [simp]: "refused (SetHeader k v # cs) = refused cs" "refused (AddHeader k v # cs) = refused cs"
  by (simp_all add: refused_def)

lemma perform_first_status:
  assumes "untouched r"
  shows "rec_wroteHeader (left_by (perform_all cs r)) \<longleftrightarrow> first_status cs \<noteq> None"
    and "rec_status (left_by (perform_all cs r)) = (case first_status cs of None \<Rightarrow> 200 | Some st \<Rightarrow> st)"
    and "isl (perform_all cs r) \<longleftrightarrow> refused cs"
proof -
  have "rec_wroteHeader (left_by (perform_all cs r)) = (first_status cs \<noteq> None) \<and>
      rec_status (left_by (perform_all cs r)) = (case first_status cs of None \<Rightarrow> 200 | Some st \<Rightarrow> st) \<and>
      isl (perform_all cs r) = refused cs"
    using assms
  proof (induction cs arbitrary: r rule: first_status.induct)
    case (2 st cs)
    show ?case
    proof (cases "base_WriteHeader st (rec_writer r)")
      case None
      then show ?thesis using 2 by (auto simp: untouched_def refused_def rec_WriteHeader_def base_WriteHeader_def split: if_splits)
    next
      case (Some w)
      then have "checkWriteHeaderCode st" using 2 by (auto simp: untouched_def base_WriteHeader_def split: if_splits)
      then show ?thesis
        using 2 Some perform_all_wrote [of "r\<lparr>rec_status := st, rec_wroteHeader := True, rec_writer := w\<rparr>" cs]
        by (auto simp: untouched_def refused_def rec_WriteHeader_def)
    qed
  next
    case (3 p cs)
    obtain r' where "perform (WriteBody p) r = Inr r'" "rec_wroteHeader r'" "rec_status r' = 200"
      using 3 by (auto simp: untouched_def rec_Write_def rec_WriteHeader_def base_WriteHeader_def checkWriteHeaderCode_def)
    then show ?case using perform_all_wrote [of r' cs] by (auto simp: refused_def checkWriteHeaderCode_def)
  qed (simp_all add: untouched_def refused_def set_header_def add_header_def)
  then show "rec_wroteHeader (left_by (perform_all cs r)) \<longleftrightarrow> first_status cs \<noteq> None"
    and "rec_status (left_by (perform_all cs r)) = (case first_status cs of None \<Rightarrow> 200 | Some st \<Rightarrow> st)"
    and "isl (perform_all cs r) \<longleftrightarrow> refused cs" by blast+
qed

text \<open>What of the bytes written after a status becomes the body.\<close>

definition body_under :: "nat \<Rightarrow> string \<Rightarrow> string" where
  "body_under st p = (if bodyAllowedForStatus (wire_status st) then p else [])"

lemma body_under_append: "body_under st (p @ q) = body_under st p @ body_under st q"
  and body_under_Nil [simp]: "body_under st [] = []" and body_200 [simp]: "body_under 200 p = p"
  by (simp_all add: body_under_def bodyAllowedForStatus_def wire_status_def)

lemma wrote_body:
  assumes "rec_wroteHeader r" and "in_step r"
  shows "wr_body (rec_writer (left_by (perform c r))) = wr_body (rec_writer r) @ body_under (rec_status r) (written [c])"
  using assms
  by (cases c)
    (auto simp: in_step_def rec_WriteHeader_def rec_Write_def base_Write_simps set_header_def add_header_def
      body_under_def bodyAllowedForStatus_def split: option.splits)

lemma written_Cons: "written (c # cs) = written [c] @ written cs"
  by (cases c) simp_all

lemma wrote_all_body:
  assumes "rec_wroteHeader r" and "in_step r"
  shows "wr_body (rec_writer (left_by (perform_all cs r))) = wr_body (rec_writer r) @ body_under (rec_status r) (written cs)"
  using assms
proof (induction cs arbitrary: r)
  case (Cons c cs)
  obtain r' where r': "perform c r = Inr r'" "rec_wroteHeader r'" "rec_status r' = rec_status r"
    using perform_wrote [OF Cons.prems(1), of c] by blast
  then have "in_step r'" using perform_in_step [OF Cons.prems(2), of c] by simp
  from Cons.IH [OF r'(2) this] r' wrote_body [OF Cons.prems, of c] show ?case
    by (simp add: written_Cons [of c cs] body_under_append)
qed simp

lemma untouched_in_step: "untouched r \<Longrightarrow> in_step r"
  by (simp add: untouched_def in_step_def)

lemma perform_all_body:
  assumes "untouched r"
  shows "wr_body (rec_writer (left_by (perform_all cs r))) =
    (case first_status cs of None \<Rightarrow> [] | Some st \<Rightarrow> if refused cs then [] else body_under st (written cs))"
  using assms
proof (induction cs arbitrary: r rule: first_status.induct)
  case (2 st cs)
  show ?case
  proof (cases "perform (WriteHeader st) r")
    case (Inl r')
    then show ?thesis using 2
      by (auto simp: untouched_def refused_def rec_WriteHeader_def base_WriteHeader_def Let_def split: if_splits option.splits)
  next
    case (Inr r')
    then have r': "rec_wroteHeader r'" "rec_status r' = st" "wr_body (rec_writer r') = []" "checkWriteHeaderCode st"
      using 2 by (auto simp: untouched_def rec_WriteHeader_def base_WriteHeader_def Let_def split: if_splits option.splits)
    moreover have "in_step r'" using perform_in_step [OF untouched_in_step [OF 2], of "WriteHeader st"] Inr by simp
    ultimately show ?thesis using Inr wrote_all_body [of r' cs] by (simp add: refused_def)
  qed
next
  case (3 p cs)
  obtain r' where r': "perform (WriteBody p) r = Inr r'" "rec_wroteHeader r'" "rec_status r' = 200" "wr_body (rec_writer r') = p"
    using 3 by (auto simp: untouched_def rec_Write_def rec_WriteHeader_def base_WriteHeader_def checkWriteHeaderCode_def
        base_Write_simps bodyAllowedForStatus_def)
  moreover have "in_step r'" using perform_in_step [OF untouched_in_step [OF 3], of "WriteBody p"] r' by simp
  ultimately show ?case using wrote_all_body [of r' cs] by (simp add: refused_def checkWriteHeaderCode_def)
qed (simp_all add: untouched_def set_header_def add_header_def split: option.split)

lemma perform_carries:
  "\<not> touches k c \<Longrightarrow> carries k v (rec_writer r) \<Longrightarrow> carries k v (rec_writer (left_by (perform c r)))"
  by (cases c)
    (auto simp: carries_def rec_Write_def rec_WriteHeader_def base_WriteHeader_def base_Write_simps
      default_header_simps set_header_def add_header_def Let_def split: option.splits)

lemma perform_all_carries:
  "list_all (\<lambda>c. \<not> touches k c) cs \<Longrightarrow> carries k v (rec_writer r) \<Longrightarrow>
    carries k v (rec_writer (left_by (perform_all cs r)))"
proof (induction cs arbitrary: r)
  case (Cons c cs)
  show ?case using Cons.IH [of "left_by (perform c r)"] perform_carries [of k c v r] Cons.prems
    by (cases "perform c r") simp_all
qed simp

text \<open>The recorder as \<open>withLogging\<close> makes it.\<close>

definition fresh_recorder :: "writer \<Rightarrow> statusRecorder" where
  "fresh_recorder w = \<lparr>rec_writer = w, rec_status = 200, rec_wroteHeader = False\<rparr>"

lemma fresh_untouched: "wr_sent w = None \<Longrightarrow> wr_body w = [] \<Longrightarrow> untouched (fresh_recorder w)"
  by (simp add: untouched_def fresh_recorder_def)

text \<open>
  What the calls of a handler are once recovery has had its turn, and whether it panicked: by
  itself, or in a call that \<open>net/http\<close> refuses.
\<close>

definition recovered_calls :: "behaviour \<Rightarrow> writer_call list" where
  "recovered_calls b = fst b @ (if snd b = Panics \<and> first_status (fst b) = None
     then writeError_calls 500 codeInternal ''Error interno.'' else [])"

definition panicked :: "behaviour \<Rightarrow> bool" where
  "panicked b \<longleftrightarrow> snd b = Panics \<or> refused (fst b)"

definition final_status :: "behaviour \<Rightarrow> nat" where
  "final_status b = (case first_status (fst b) of Some st \<Rightarrow> st | None \<Rightarrow> if snd b = Panics then 500 else 200)"

definition panic_body :: string where
  "panic_body = Encode_json (error_json codeInternal ''Error interno.'')"

lemma first_status_append: "first_status (xs @ ys) = (case first_status xs of None \<Rightarrow> first_status ys | Some st \<Rightarrow> Some st)"
  by (induction xs rule: first_status.induct) simp_all

lemma written_append: "written (xs @ ys) = written xs @ written ys"
  by (induction xs rule: written.induct) simp_all

lemma first_status_written: "first_status cs = None \<Longrightarrow> written cs = []"
  by (induction cs rule: first_status.induct) simp_all

lemma error_calls:
  "first_status (writeError_calls st c m) = Some st" "written (writeError_calls st c m) = Encode_json (error_json c m)"
  "list_all (\<lambda>x. \<not> touches k x) (writeError_calls st c m) \<longleftrightarrow> k \<noteq> ''Content-Type''"
  by (simp_all add: writeError_calls_def writeJSON_calls_def)

lemma recovered_calls_status:
  "(case first_status (recovered_calls b) of None \<Rightarrow> 200 | Some st \<Rightarrow> st) = final_status b"
  "refused (recovered_calls b) = refused (fst b)"
  by (auto simp: recovered_calls_def final_status_def first_status_append error_calls refused_def checkWriteHeaderCode_def
      split: option.splits)

lemma withRecover_run:
  assumes "snd b \<noteq> Aborts" and "untouched r"
  shows "withRecover (run_handler b) r =
    (left_by (perform_all (recovered_calls b) r), if panicked b then [Inc metricHTTPPanics] else [], Returns)"
proof -
  note f = perform_first_status [OF assms(2), of "fst b"]
  have e: "\<not> isl (perform_all (fst b @ writeError_calls 500 codeInternal ''Error interno.'') r)"
    if "first_status (fst b) = None"
    using that by (simp add: perform_first_status [OF assms(2)] refused_def first_status_append error_calls checkWriteHeaderCode_def)
  show ?thesis
  proof (cases "perform_all (fst b) r")
    case (Inl r')
    then show ?thesis using f assms(1)
      by (auto simp: withRecover_def run_handler_def recovered_calls_def panicked_def refused_def split: option.splits)
  next
    case (Inr r')
    then show ?thesis using f e assms(1)
      by (cases "snd b")
        (auto simp: withRecover_def run_handler_def recovered_calls_def panicked_def perform_all_append split: sum.splits)
  qed
qed

lemma set_headers_simps [simp]:
  "set_headers [] w = w" "set_headers ((k, v) # hs) w = set_headers hs (set_header k v w)"
  by (simp_all add: set_headers_def)

lemma set_header_simps [simp]:
  "wr_sent (set_header k v w) = wr_sent w" "wr_body (set_header k v w) = wr_body w"
  "wr_Header (set_header k v w) = (wr_Header w)(k := [v])"
  by (simp_all add: set_header_def)

lemma set_headers_quiet [simp]: "wr_sent (set_headers hs w) = wr_sent w" "wr_body (set_headers hs w) = wr_body w"
  by (induction hs arbitrary: w) auto

lemma set_headers_other: "k \<notin> fst ` set hs \<Longrightarrow> wr_Header (set_headers hs w) k = wr_Header w k"
  by (induction hs arbitrary: w) auto

lemma set_headers_own: "distinct (map fst hs) \<Longrightarrow> (k, v) \<in> set hs \<Longrightarrow> wr_Header (set_headers hs w) k = [v]"
  by (induction hs arbitrary: w) (auto simp: set_headers_other)

lemma securityHeaders_names: "distinct (map fst (securityHeaders csp secure))"
  "k \<in> fst ` set (securityHeaders csp secure) \<Longrightarrow> k \<noteq> ''X-Request-Id'' \<and> k \<noteq> ''Content-Type''"
  by (auto simp: securityHeaders_def)

definition request_reports :: "string \<Rightarrow> rat \<Rightarrow> behaviour \<Rightarrow> report list" where
  "request_reports path elapsed b =
     (if panicked b then [Inc metricHTTPPanics] else [])
     @ [Inc ''sesamo_http_requests_total'', Inc (''sesamo_http_requests_total_'' @ statusClass (final_status b)),
        Obs ''sesamo_request_duration_seconds'' elapsed]
     @ (if path = ''/v1/introspect'' then [Obs ''sesamo_introspect_duration_seconds'' elapsed] else [])"

text \<open>What the writer holds when the request is over.\<close>

definition sent_for :: "behaviour \<Rightarrow> writer \<Rightarrow> writer" where
  "sent_for b w = default_header (rec_writer (left_by (perform_all (recovered_calls b) (fresh_recorder w))))"

lemma serve_wire_run:
  assumes "snd b \<noteq> Aborts" and "w0 = set_header ''X-Request-Id'' reqid (set_headers hs fresh_writer)"
  shows "serve_wire hs reqid path elapsed b = (sent_for b w0, request_reports path elapsed b, Some (final_status b))"
proof -
  have u: "untouched (fresh_recorder w0)" by (simp add: untouched_def fresh_recorder_def assms(2) fresh_writer_def)
  show ?thesis
    using withRecover_run [OF assms(1) u] perform_first_status(2) [OF u, of "recovered_calls b"]
    by (simp add: serve_wire_def withLogging_chain_def finish_request_def fresh_recorder_def request_reports_def assms(2)
        recovered_calls_status sent_for_def)
qed

lemma sent_status_line:
  assumes "wr_sent w = None" and "wr_body w = []"
  shows "\<exists>h. wr_sent (sent_for b w) = Some (wire_status (final_status b), h)"
    and "wr_body (sent_for b w) = (if snd b = Panics \<and> first_status (fst b) = None then panic_body
      else if refused (fst b) then [] else body_under (final_status b) (written (fst b)))"
proof -
  let ?r = "left_by (perform_all (recovered_calls b) (fresh_recorder w))"
  have u: "untouched (fresh_recorder w)" using assms by (rule fresh_untouched)
  have step: "in_step ?r" by (rule perform_all_in_step [OF untouched_in_step [OF u]])
  have st: "rec_status ?r = final_status b"
    using perform_first_status(2) [OF u, of "recovered_calls b"] by (simp add: recovered_calls_status)
  have "wire_status 200 = 200" by (simp add: wire_status_def)
  with step st show "\<exists>h. wr_sent (sent_for b w) = Some (wire_status (final_status b), h)"
    by (auto simp: in_step_def sent_for_def default_header_simps split: if_splits option.splits)
  have "body_under 500 p = p" "checkWriteHeaderCode 500" for p
    by (simp_all add: body_under_def bodyAllowedForStatus_def wire_status_def checkWriteHeaderCode_def)
  then show "wr_body (sent_for b w) = (if snd b = Panics \<and> first_status (fst b) = None then panic_body
      else if refused (fst b) then [] else body_under (final_status b) (written (fst b)))"
    using perform_all_body [OF u, of "recovered_calls b"]
    by (auto simp: sent_for_def default_header_simps recovered_calls_status recovered_calls_def final_status_def
        first_status_append written_append error_calls first_status_written panic_body_def refused_def split: option.splits)
qed

lemma sent_header:
  assumes "wr_sent (sent_for b w) = Some (st, h)" and "carries k v w"
    and "list_all (\<lambda>c. \<not> touches k c) (fst b)" and "k \<noteq> ''Content-Type''"
  shows "h k = [v]"
proof -
  have "carries k v (rec_writer (left_by (perform_all (recovered_calls b) (fresh_recorder w))))"
    using assms(2-4) by (intro perform_all_carries) (simp_all add: recovered_calls_def error_calls fresh_recorder_def)
  with assms(1) show ?thesis by (auto simp: carries_def sent_for_def default_header_simps split: option.splits)
qed

lemma reports_of_request:
  "incs (request_reports path elapsed b) = (if panicked b then [metricHTTPPanics] else [])
     @ [''sesamo_http_requests_total'', ''sesamo_http_requests_total_'' @ statusClass (final_status b)]"
  "samples (request_reports path elapsed b) = (''sesamo_request_duration_seconds'', elapsed)
     # (if path = ''/v1/introspect'' then [(''sesamo_introspect_duration_seconds'', elapsed)] else [])"
  by (simp_all add: request_reports_def incs_append samples_append)

text \<open>
  C15. The access log tells the truth about final statuses. Take any handler: any calls on its
  writer, whether it then returns or panics (an abort is left to \<open>net/http\<close>). The access log names
  the first status it sets, 200 if it only writes or does nothing, and 500 with the JSON error if
  it panics before either; the metrics count one request, under the class of that status, and one
  panic if there was one. Exactly one status line goes out, and it has that very status when it
  is a final one (200 to 999, or 101); for the rest the log is wrong: an informational status
  (as 103), or a code on which \<open>net/http\<close> panics (not 100 to 999), is logged while 200 goes out.
  The body is what was written, but for a status without a body. The identifier and every security
  header that the handler leaves alone are part of the header that goes out.
\<close>

theorem access_log_tells_the_truth:
  assumes "snd b \<noteq> Aborts"
  shows "\<exists>w reports h. serve_wire (securityHeaders csp secure) reqid path elapsed b = (w, reports, Some (final_status b)) \<and>
    wr_sent w = Some (if final_status b = 101 \<or> 200 \<le> final_status b \<and> final_status b \<le> 999 then final_status b else 200, h) \<and>
    wr_body w = (if snd b = Panics \<and> first_status (fst b) = None then panic_body
      else if refused (fst b) \<or> final_status b \<in> {101, 204, 304} then [] else written (fst b)) \<and>
    incs reports = (if snd b = Panics \<or> refused (fst b) then [metricHTTPPanics] else [])
      @ [''sesamo_http_requests_total'', ''sesamo_http_requests_total_'' @ statusClass (final_status b)] \<and>
    samples reports = (''sesamo_request_duration_seconds'', elapsed)
      # (if path = ''/v1/introspect'' then [(''sesamo_introspect_duration_seconds'', elapsed)] else []) \<and>
    (\<forall>k v. (k, v) \<in> set ((''X-Request-Id'', reqid) # securityHeaders csp secure) \<and> list_all (\<lambda>c. \<not> touches k c) (fst b)
       \<longrightarrow> h k = [v])"
proof -
  let ?hs = "securityHeaders csp secure"
  define w0 where "w0 = set_header ''X-Request-Id'' reqid (set_headers ?hs fresh_writer)"
  have quiet: "wr_sent w0 = None" "wr_body w0 = []" by (simp_all add: w0_def fresh_writer_def)
  obtain h where h: "wr_sent (sent_for b w0) = Some (wire_status (final_status b), h)"
    using sent_status_line(1) [OF quiet] by blast
  have head: "h k = [v]" if "(k, v) \<in> set ((''X-Request-Id'', reqid) # ?hs)" and "list_all (\<lambda>c. \<not> touches k c) (fst b)" for k v
  proof -
    have "k \<noteq> ''X-Request-Id''" if "(k, v) \<in> set ?hs" using that securityHeaders_names(2) by force
    then have "carries k v w0"
      using that(1) set_headers_own [OF securityHeaders_names(1), of k v csp secure fresh_writer] quiet
      by (auto simp: carries_def w0_def)
    then show ?thesis using that securityHeaders_names(2) [of k csp secure] by (intro sent_header [OF h]) force+
  qed
  have "body_under st p = (if st \<in> {101, 204, 304} then [] else p)" for st p
    by (auto simp: body_under_def bodyAllowedForStatus_def wire_status_def)
  then have body: "wr_body (sent_for b w0) = (if snd b = Panics \<and> first_status (fst b) = None then panic_body
      else if refused (fst b) \<or> final_status b \<in> {101, 204, 304} then [] else written (fst b))"
    using sent_status_line(2) [OF quiet, of b] by simp
  have head': "\<forall>k v. (k, v) \<in> set ((''X-Request-Id'', reqid) # ?hs) \<and> list_all (\<lambda>c. \<not> touches k c) (fst b) \<longrightarrow> h k = [v]"
    using head by blast
  show ?thesis
    unfolding serve_wire_run [OF assms w0_def]
    by (intro exI conjI)
      (rule refl | rule h [unfolded wire_status_def] | rule body | rule reports_of_request [unfolded panicked_def] | rule head')+
qed

text \<open>A handler that sets a cookie and then panics, before any status.\<close>

theorem access_log_tells_the_truth_witness:
  "\<exists>w reports h. serve_wire (securityHeaders ''csp'' False) ''r1'' ''/login'' 1 ([AddHeader ''Set-Cookie'' ''c''], Panics) = (w, reports, Some 500) \<and>
     wr_sent w = Some (500, h) \<and> h ''X-Request-Id'' = [''r1''] \<and> h ''X-Frame-Options'' = [''DENY''] \<and> wr_body w = panic_body \<and>
     incs reports = [metricHTTPPanics, ''sesamo_http_requests_total'', ''sesamo_http_requests_total_5xx'']"
proof -
  let ?b = "([AddHeader ''Set-Cookie'' ''c''], Panics)"
  have b: "snd ?b \<noteq> Aborts" by simp
  have f: "final_status ?b = 500" "\<not> refused (fst ?b)" by (simp_all add: final_status_def refused_def)
  obtain w reports h where "serve_wire (securityHeaders ''csp'' False) ''r1'' ''/login'' 1 ?b = (w, reports, Some 500)"
    and "wr_sent w = Some (500, h)" and "wr_body w = panic_body"
    and "incs reports = [metricHTTPPanics, ''sesamo_http_requests_total'', ''sesamo_http_requests_total_'' @ statusClass 500]"
    and k: "\<forall>k v. (k, v) \<in> set ((''X-Request-Id'', ''r1'') # securityHeaders ''csp'' False) \<and> list_all (\<lambda>c. \<not> touches k c) (fst ?b) \<longrightarrow> h k = [v]"
    using access_log_tells_the_truth [OF b, of "''csp''" False "''r1''" "''/login''" 1] unfolding f by auto
  moreover have "h ''X-Request-Id'' = [''r1'']" "h ''X-Frame-Options'' = [''DENY'']"
    using k [rule_format, of "''X-Request-Id''" "''r1''"] k [rule_format, of "''X-Frame-Options''" "''DENY''"]
    by (simp_all add: securityHeaders_def)
  ultimately show ?thesis by (intro exI [of _ w] exI [of _ reports] exI [of _ h] conjI) (simp_all add: statusClass_def)
qed

subsection \<open>The server as a function\<close>

text \<open>
  The calls of a handler that computes a response; \<open>text\<close> and \<open>cookie_text\<close> render its body and its
  cookies. \<open>Server.ServeHTTP\<close>, on responses, is what the chain does with these calls.
\<close>

definition render :: "(body \<Rightarrow> string) \<Rightarrow> (cookie \<Rightarrow> string) \<Rightarrow> response \<Rightarrow> writer_call list" where
  "render text cookie_text resp =
     map (\<lambda>c. AddHeader ''Set-Cookie'' (cookie_text c)) (resp_cookies resp)
     @ map (\<lambda>(k, v). SetHeader k v) (resp_headers resp) @ [WriteHeader (status_code resp), WriteBody (text (resp_body resp))]"

lemma render_status: "first_status (render text cookie_text resp) = Some (status_code resp)"
  and render_written: "written (render text cookie_text resp) = text (resp_body resp)"
proof -
  have "first_status (map (\<lambda>c. AddHeader k (f c)) xs @ ys) = first_status ys" for k f ys and xs :: "cookie list"
    by (induction xs) simp_all
  moreover have "first_status (map (\<lambda>(k, v). SetHeader k v) xs @ ys) = first_status ys" for xs ys
    by (induction xs) auto
  ultimately show "first_status (render text cookie_text resp) = Some (status_code resp)" by (simp add: render_def)
  have "written (map (\<lambda>c. AddHeader k (f c)) xs) = []" for k f and xs :: "cookie list"
    by (induction xs) simp_all
  moreover have "written (map (\<lambda>(k, v). SetHeader k v) xs) = []" for xs
    by (induction xs) auto
  ultimately show "written (render text cookie_text resp) = text (resp_body resp)" by (simp add: render_def written_append)
qed

lemma ServeHTTP_on_the_wire:
  assumes "mux doc s dr meth path r w = (Inr resp0, w1)" and "200 \<le> status_code resp0" "status_code resp0 \<le> 999"
    and "ServeHTTP doc s dr rid meth path r w = (Inr resp, w')"
  shows "\<exists>wr reports h. serve_wire (securityHeaders (buildCSP (url_Parse s) (cfg s)) (CookieSecure (cfg s)))
       (withRequestID (newRequestID rid (wall dr 9)) r) p elapsed (render text cookie_text resp0, Returns) =
         (wr, reports, Some (status_code resp)) \<and>
     wr_sent wr = Some (status_code resp, h) \<and>
     wr_body wr = (if bodyAllowedForStatus (status_code resp) then text (resp_body resp) else []) \<and>
     counters w' = counters w1 @ incs reports"
proof -
  let ?b = "(render text cookie_text resp0, Returns)"
  have f: "final_status ?b = status_code resp0" "wire_status (status_code resp0) = status_code resp0"
    "\<not> refused (fst ?b)" "\<not> panicked ?b"
    using assms(2,3) by (simp_all add: final_status_def render_status wire_status_def refused_def panicked_def checkWriteHeaderCode_def)
  have same: "status_code resp = status_code resp0 \<and> resp_body resp = resp_body resp0 \<and>
      counters w' = counters w1 @ [''sesamo_http_requests_total'', ''sesamo_http_requests_total_'' @ statusClass (status_code resp0)]"
    using assms(1,4) by (auto simp: ServeHTTP_def with_headers_def withLogging_def inc_counter_def bindM_def retM_def)
  have final: "snd ?b \<noteq> Aborts" by simp
  define w0 where "w0 = set_header ''X-Request-Id'' (withRequestID (newRequestID rid (wall dr 9)) r)
      (set_headers (securityHeaders (buildCSP (url_Parse s) (cfg s)) (CookieSecure (cfg s))) fresh_writer)"
  have quiet: "wr_sent w0 = None" "wr_body w0 = []" by (simp_all add: w0_def fresh_writer_def)
  show ?thesis
    using serve_wire_run [OF final w0_def] sent_status_line [OF quiet, of ?b] same f
    by (auto simp: render_written reports_of_request body_under_def)
qed

subsection \<open>Oversized bodies\<close>

text \<open>A body past the limit is refused by every form handler and by the webhook, before it is looked at.\<close>

lemma oversized_body_refused:
  assumes "maxBodyBytes < length body" and "secret \<noteq> []"
  shows "checkCSRF (withBodyLimit body r) = Some (writeError 400 codeInvalidRequest MsgBadForm)"
    and "handleResendWebhook mac decode secret now dbnow (withBodyLimit body r) = retM (writeError 400 codeInvalidRequest MsgBadBody)"
  using assms by (simp_all add: withBodyLimit_def checkCSRF_def handleResendWebhook_def)

lemma small_body_passes: "length body \<le> maxBodyBytes \<Longrightarrow> withBodyLimit body r = r\<lparr>raw_body := Some body\<rparr>"
  by (simp add: withBodyLimit_def)

end
