(* ===== verification/Migrations.thy ===== *)
theory Migrations
  imports Sesamo_Prelude "HOL-Library.Char_ord" "HOL-Library.List_Lexorder"
begin

text \<open>
  The migration runner (\<open>internal/db/db.go\<close>) with any number of instances starting at once. An
  instance is the program counter of \<open>Migrate\<close>: it takes the advisory lock, makes sure the table of
  applied migrations exists, and walks the embedded files in order, each in a transaction that
  runs the file and records its name. A step is one statement (the transaction is one step: it
  commits as a whole or not at all); \<open>fault\<close> says whether it fails. An instance can lose its
  session at any time, which frees its lock and undoes its transaction; the best-effort unlock
  can fail, which leaves the lock with the session. What a file does to the schema is outside: the
  state keeps which files took effect, in order. Shown: whatever the interleaving, the failures
  and the crashes, every file takes effect at most once and in order, and an instance that
  reports success has them all.
\<close>

definition listMigrations :: "string list \<Rightarrow> string list" where
  "listMigrations paths = sort (filter (\<lambda>p. 4 < length p \<and> drop (length p - 4) p = ''.sql'') paths)"

datatype mig_pc =
    Acquire
  | EnsureTable
  | Check "string list"
  | Apply string "string list"
  | Unlock bool
  | Returned bool

record cluster =
  schema_migrations :: "string list option"
  executed :: "string list"
  lock_holder :: "nat option"
  pc :: "nat \<Rightarrow> mig_pc"

definition recorded :: "cluster \<Rightarrow> string list" where
  "recorded c = (case schema_migrations c of None \<Rightarrow> [] | Some ns \<Rightarrow> ns)"

definition goto :: "nat \<Rightarrow> mig_pc \<Rightarrow> cluster \<Rightarrow> cluster" where
  "goto i p c = c\<lparr>pc := (pc c)(i := p)\<rparr>"

definition apply_migration :: "string \<Rightarrow> cluster \<Rightarrow> cluster" where
  "apply_migration n c = c\<lparr>schema_migrations := Some (recorded c @ [n]), executed := executed c @ [n]\<rparr>"

text \<open>One statement of \<open>Migrate\<close>; waiting for the lock leaves everything as it is.\<close>

definition migrate_step :: "string list \<Rightarrow> nat \<Rightarrow> bool \<Rightarrow> cluster \<Rightarrow> cluster" where
  "migrate_step files i fault c =
     (case pc c i of
        Acquire \<Rightarrow>
          if fault then goto i (Returned False) c
          else if lock_holder c \<noteq> None then c
          else goto i EnsureTable (c\<lparr>lock_holder := Some i\<rparr>)
      | EnsureTable \<Rightarrow>
          if fault then goto i (Unlock False) c
          else goto i (Check files) (c\<lparr>schema_migrations := Some (recorded c)\<rparr>)
      | Check [] \<Rightarrow> goto i (Unlock True) c
      | Check (n # ns) \<Rightarrow>
          if fault then goto i (Unlock False) c
          else if n \<in> set (recorded c) then goto i (Check ns) c
          else goto i (Apply n ns) c
      | Apply n ns \<Rightarrow>
          if fault \<or> n \<in> set (recorded c) then goto i (Unlock False) c
          else goto i (Check ns) (apply_migration n c)
      | Unlock ok \<Rightarrow>
          if fault then goto i (Returned ok) c
          else goto i (Returned ok) (c\<lparr>lock_holder := None\<rparr>)
      | Returned ok \<Rightarrow> c)"

definition session_end :: "nat \<Rightarrow> cluster \<Rightarrow> cluster" where
  "session_end i c =
     (let c' = (if lock_holder c = Some i then c\<lparr>lock_holder := None\<rparr> else c)
      in case pc c i of Returned ok \<Rightarrow> c' | _ \<Rightarrow> goto i (Returned False) c')"

inductive cluster_step :: "string list \<Rightarrow> cluster \<Rightarrow> cluster \<Rightarrow> bool" for files where
  run: "cluster_step files c (migrate_step files i fault c)"
| crash: "cluster_step files c (session_end i c)"

definition fresh_cluster :: "string list option \<Rightarrow> cluster" where
  "fresh_cluster before = \<lparr>schema_migrations = before, executed = [], lock_holder = None, pc = (\<lambda>_. Acquire)\<rparr>"

subsection \<open>The invariant\<close>

text \<open>What holds of an instance at its place in \<open>Migrate\<close>.\<close>

definition pc_ok :: "string list \<Rightarrow> cluster \<Rightarrow> nat \<Rightarrow> bool" where
  "pc_ok files c i \<longleftrightarrow>
     (case pc c i of
        Acquire \<Rightarrow> True
      | EnsureTable \<Rightarrow> lock_holder c = Some i
      | Check ns \<Rightarrow> lock_holder c = Some i \<and> (\<exists>past. files = past @ ns \<and> set past \<subseteq> set (recorded c))
      | Apply n ns \<Rightarrow> lock_holder c = Some i \<and> (\<exists>past. files = past @ n # ns \<and> set past \<subseteq> set (recorded c)) \<and> n \<notin> set (recorded c)
      | Unlock ok \<Rightarrow> lock_holder c = Some i \<and> (ok \<longrightarrow> set files \<subseteq> set (recorded c))
      | Returned ok \<Rightarrow> (ok \<longrightarrow> set files \<subseteq> set (recorded c)))"

definition pending :: "string list \<Rightarrow> string list \<Rightarrow> string list" where
  "pending files before = filter (\<lambda>f. f \<notin> set before) files"

definition cluster_ok :: "string list \<Rightarrow> string list \<Rightarrow> cluster \<Rightarrow> bool" where
  "cluster_ok files before c \<longleftrightarrow>
     recorded c = before @ executed c \<and> prefix (executed c) (pending files before) \<and> (\<forall>i. pc_ok files c i)"

lemma recorded_goto [simp]: "recorded (goto i p c) = recorded c" "recorded (c\<lparr>lock_holder := l\<rparr>) = recorded c"
  "recorded (c\<lparr>schema_migrations := Some (recorded c)\<rparr>) = recorded c" "recorded (apply_migration n c) = recorded c @ [n]"
  by (simp_all add: recorded_def goto_def apply_migration_def)

lemma goto_sel [simp]: "lock_holder (goto i p c) = lock_holder c" "executed (goto i p c) = executed c"
  "pc (goto i p c) = (pc c)(i := p)"
  by (simp_all add: goto_def)

lemma apply_sel [simp]: "lock_holder (apply_migration n c) = lock_holder c" "executed (apply_migration n c) = executed c @ [n]"
  "pc (apply_migration n c) = pc c"
  by (simp_all add: apply_migration_def)

text \<open>
  Another instance is unaffected by a step that only adds records, as long as the lock stays
  where it is or was free or the stepping instance's own.
\<close>

lemma pc_ok_other:
  assumes "pc_ok files c k" and "pc c' k = pc c k" and "set (recorded c) \<subseteq> set (recorded c')"
    and "lock_holder c = Some k \<Longrightarrow> lock_holder c' = Some k \<and> recorded c' = recorded c"
  shows "pc_ok files c' k"
  using assms by (cases "pc c k") (auto simp: pc_ok_def)

lemma in_order:
  assumes "distinct files" and "files = past @ n # ns" and "set past \<subseteq> set (before @ done')" and "n \<notin> set (before @ done')"
    and "prefix done' (pending files before)"
  shows "prefix (done' @ [n]) (pending files before)"
proof -
  let ?early = "pending past before" and ?late = "pending ns before"
  have split: "pending files before = ?early @ n # ?late" using assms(2,4) by (simp add: pending_def)
  have "set ?early \<subseteq> set done'" using assms(3) by (auto simp: pending_def)
  obtain rest where rest: "?early @ n # ?late = done' @ rest" using assms(5) split by (auto simp: prefix_def)
  have "distinct (?early @ n # ?late)" using assms(1) split by (metis distinct_filter pending_def)
  have "done' = ?early"
  proof (rule ccontr)
    assume "done' \<noteq> ?early"
    from rest consider us where "?early = done' @ us" "us @ n # ?late = rest" | us where "?early @ us = done'" "n # ?late = us @ rest"
      by (auto simp: append_eq_append_conv2)
    then show False
    proof cases
      case 1
      with \<open>done' \<noteq> ?early\<close> have "us \<noteq> []" by auto
      with 1 \<open>set ?early \<subseteq> set done'\<close> \<open>distinct (?early @ n # ?late)\<close> show False by (cases us) auto
    next
      case 2
      with \<open>done' \<noteq> ?early\<close> have "us \<noteq> []" by auto
      with 2 have "n \<in> set done'" by (cases us) auto
      with assms(4) show False by simp
    qed
  qed
  with split show ?thesis by (simp add: prefix_def)
qed

lemma cluster_okI:
  assumes ok: "cluster_ok files before c" and "pc_ok files c' i"
    and rec: "recorded c' = before @ executed c'" and pre: "prefix (executed c') (pending files before)"
    and others: "\<And>k. k \<noteq> i \<Longrightarrow> pc c' k = pc c k" and more: "set (recorded c) \<subseteq> set (recorded c')"
    and lock: "\<And>k. k \<noteq> i \<Longrightarrow> lock_holder c = Some k \<Longrightarrow> lock_holder c' = Some k \<and> recorded c' = recorded c"
  shows "cluster_ok files before c'"
proof -
  have "pc_ok files c' k" for k
  proof (cases "k = i")
    case False
    from ok have "pc_ok files c k" by (simp add: cluster_ok_def)
    then show ?thesis using others [OF False] more lock [OF False] by (rule pc_ok_other)
  qed (use assms(2) in simp)
  with rec pre show ?thesis by (simp add: cluster_ok_def)
qed

text \<open>A step that moves only the program counter, or frees or takes the lock.\<close>

lemma cluster_ok_move:
  assumes "cluster_ok files before c" and "pc_ok files c' i" and "recorded c' = recorded c" and "executed c' = executed c"
    and "\<And>k. k \<noteq> i \<Longrightarrow> pc c' k = pc c k" and "lock_holder c = None \<or> lock_holder c = Some i \<or> lock_holder c' = lock_holder c"
  shows "cluster_ok files before c'"
  using assms by (intro cluster_okI [of files before c c' i]) (auto simp: cluster_ok_def)

lemma apply_ok:
  assumes dist: "distinct files" and ok: "cluster_ok files before c" and at_apply: "pc c i = Apply n ns"
  shows "cluster_ok files before (goto i (Check ns) (apply_migration n c))"
proof -
  from ok have "pc_ok files c i" by (simp add: cluster_ok_def)
  with at_apply obtain past where past: "files = past @ n # ns" "set past \<subseteq> set (recorded c)" "n \<notin> set (recorded c)"
    and lock: "lock_holder c = Some i" by (auto simp: pc_ok_def)
  from ok have rec: "recorded c = before @ executed c" "prefix (executed c) (pending files before)" by (simp_all add: cluster_ok_def)
  have here: "pc_ok files (goto i (Check ns) (apply_migration n c)) i"
    using past lock by (auto simp: pc_ok_def intro!: exI [of _ "past @ [n]"])
  have "prefix (executed c @ [n]) (pending files before)"
    using past(2,3) rec by (intro in_order [OF dist past(1)]) simp_all
  with here show ?thesis
    by (intro cluster_okI [OF ok, of _ i]) (use rec lock in \<open>auto\<close>)
qed

lemma goto_ok: "cluster_ok files before c \<Longrightarrow> pc_ok files (goto i p c) i \<Longrightarrow> cluster_ok files before (goto i p c)"
  by (rule cluster_ok_move [of files before c _ i]) simp_all

lemma stop_ok: "cluster_ok files before c \<Longrightarrow> lock_holder c = Some i \<Longrightarrow> cluster_ok files before (goto i (Unlock False) c)"
  by (rule goto_ok) (simp_all add: pc_ok_def)

lemma cluster_pc: "cluster_ok files before c \<Longrightarrow> pc_ok files c i"
  by (simp add: cluster_ok_def)

lemma migrate_step_ok:
  assumes dist: "distinct files" and ok: "cluster_ok files before c"
  shows "cluster_ok files before (migrate_step files i fault c)"
proof (cases "pc c i")
  case (Apply n ns)
  then have "lock_holder c = Some i" using cluster_pc [OF ok, of i] by (simp add: pc_ok_def)
  with Apply apply_ok [OF dist ok Apply] stop_ok [OF ok] show ?thesis by (simp add: migrate_step_def)
next
  case (Check ns)
  then obtain past where past: "files = past @ ns" "set past \<subseteq> set (recorded c)" and lock: "lock_holder c = Some i"
    using cluster_pc [OF ok, of i] by (auto simp: pc_ok_def)
  show ?thesis
  proof (cases ns)
    case Nil
    then have "pc_ok files (goto i (Unlock True) c) i" using past lock by (simp add: pc_ok_def)
    with Check Nil goto_ok [OF ok] show ?thesis by (simp add: migrate_step_def)
  next
    case (Cons n ns')
    have "pc_ok files (goto i (Check ns') c) i" if "n \<in> set (recorded c)"
      using that past lock Cons by (auto simp: pc_ok_def intro!: exI [of _ "past @ [n]"])
    moreover have "pc_ok files (goto i (Apply n ns') c) i" if "n \<notin> set (recorded c)"
      using that past lock Cons by (auto simp: pc_ok_def)
    ultimately show ?thesis using Check Cons stop_ok [OF ok lock] goto_ok [OF ok] by (simp add: migrate_step_def)
  qed
next
  case Acquire
  then show ?thesis using ok by (auto simp: migrate_step_def pc_ok_def intro!: cluster_ok_move [OF ok, of _ i])
next
  case EnsureTable
  from ok have "pc_ok files c i" by (simp add: cluster_ok_def)
  with EnsureTable show ?thesis by (auto simp: migrate_step_def pc_ok_def intro!: cluster_ok_move [OF ok, of _ i])
next
  case (Unlock b)
  from ok have "pc_ok files c i" by (simp add: cluster_ok_def)
  with Unlock show ?thesis by (auto simp: migrate_step_def pc_ok_def intro!: cluster_ok_move [OF ok, of _ i])
next
  case (Returned b)
  with ok show ?thesis by (simp add: migrate_step_def)
qed

lemma session_end_ok:
  assumes ok: "cluster_ok files before c"
  shows "cluster_ok files before (session_end i c)"
proof -
  from ok have i: "pc_ok files c i" by (simp add: cluster_ok_def)
  show ?thesis
    by (rule cluster_ok_move [OF ok, of _ i])
       (use i in \<open>auto simp: session_end_def Let_def pc_ok_def split: mig_pc.splits\<close>)
qed

lemma cluster_reachable_ok:
  assumes "distinct files" and "(cluster_step files)\<^sup>*\<^sup>* (fresh_cluster before) c"
  shows "cluster_ok files (case before of None \<Rightarrow> [] | Some ns \<Rightarrow> ns) c"
  using assms(2)
proof (induction rule: rtranclp_induct)
  case base
  show ?case by (simp add: cluster_ok_def fresh_cluster_def recorded_def pc_ok_def)
next
  case (step c c')
  from step.hyps(2) step.IH show ?case
    by cases (simp_all add: migrate_step_ok [OF assms(1)] session_end_ok)
qed

subsection \<open>Success, and who reaches it\<close>

lemma success_is_complete:
  assumes "distinct files" and "cluster_ok files before c" and "pc c i = Returned True"
  shows "executed c = pending files before"
proof -
  have rec: "recorded c = before @ executed c" "prefix (executed c) (pending files before)" "set files \<subseteq> set (recorded c)"
    using assms(2,3) cluster_pc [OF assms(2), of i] by (auto simp: cluster_ok_def pc_ok_def)
  obtain rest where rest: "pending files before = executed c @ rest" using rec(2) by (auto simp: prefix_def)
  have "set (pending files before) \<subseteq> set (executed c)" using rec(1,3) by (auto simp: pending_def)
  with rest have "set rest \<subseteq> set (executed c)" by simp
  moreover have "distinct (executed c @ rest)" using assms(1) rest by (metis distinct_filter pending_def)
  ultimately have "rest = []" by (cases rest) auto
  with rest show ?thesis by simp
qed

definition steps :: "string list \<Rightarrow> nat \<Rightarrow> nat \<Rightarrow> cluster \<Rightarrow> cluster" where
  "steps files i n = migrate_step files i False ^^ n"

lemma steps_0 [simp]: "steps files i 0 c = c"
  by (simp add: steps_def)

lemma steps_Suc: "steps files i (Suc n) c = steps files i n (migrate_step files i False c)"
  by (simp add: steps_def funpow_swap1)

lemma reaches_end:
  "distinct files \<Longrightarrow> cluster_ok files before c \<Longrightarrow> pc c i = Check ns \<Longrightarrow> \<exists>n. pc (steps files i n c) i = Returned True"
proof (induction ns arbitrary: c)
  case Nil
  then have "pc (steps files i 2 c) i = Returned True" by (simp add: eval_nat_numeral steps_Suc migrate_step_def)
  then show ?case by blast
next
  case (Cons m ns)
  show ?case
  proof (cases "m \<in> set (recorded c)")
    case True
    let ?c = "migrate_step files i False c"
    have "pc ?c i = Check ns" using Cons.prems(3) True by (simp add: migrate_step_def)
    with Cons.IH [OF Cons.prems(1) migrate_step_ok [OF Cons.prems(1,2)]] obtain n where "pc (steps files i n ?c) i = Returned True" by blast
    then show ?thesis by (intro exI [of _ "Suc n"]) (simp add: steps_Suc)
  next
    case False
    let ?c = "migrate_step files i False (migrate_step files i False c)"
    have "pc ?c i = Check ns" using Cons.prems(3) False by (simp add: migrate_step_def)
    with Cons.IH [OF Cons.prems(1) migrate_step_ok [OF Cons.prems(1) migrate_step_ok [OF Cons.prems(1,2)]]]
    obtain n where "pc (steps files i n ?c) i = Returned True" by blast
    then show ?thesis by (intro exI [of _ "Suc (Suc n)"]) (simp add: steps_Suc)
  qed
qed

lemma waiting_instance_finishes:
  assumes "distinct files" and "cluster_ok files before c" and "pc c i = Acquire" and "lock_holder c = None"
  shows "\<exists>n. pc (steps files i n c) i = Returned True"
proof -
  let ?c = "migrate_step files i False (migrate_step files i False c)"
  have "pc ?c i = Check files" using assms(3,4) by (simp add: migrate_step_def)
  with reaches_end [OF assms(1) migrate_step_ok [OF assms(1) migrate_step_ok [OF assms(1,2)]]]
  obtain n where "pc (steps files i n ?c) i = Returned True" by blast
  then show ?thesis by (intro exI [of _ "Suc (Suc n)"]) (simp add: steps_Suc)
qed

text \<open>
  C26. Whatever the interleaving of the starting instances, the failures and the crashes, the
  migration files take effect at most once and in the order of their names, skipping exactly
  those recorded before; an instance that reports success has all of them in effect; and an
  instance still waiting when the lock is free finishes successfully if nothing else fails.
\<close>

theorem migrations_run_once_in_order:
  assumes "distinct paths" and "(cluster_step (listMigrations paths))\<^sup>*\<^sup>* (fresh_cluster before) c"
  shows "prefix (executed c) (pending (listMigrations paths) (case before of None \<Rightarrow> [] | Some ns \<Rightarrow> ns)) \<and>
    sorted (executed c) \<and> distinct (executed c) \<and>
    (pc c i = Returned True \<longrightarrow> executed c = pending (listMigrations paths) (case before of None \<Rightarrow> [] | Some ns \<Rightarrow> ns)) \<and>
    (pc c i = Acquire \<longrightarrow> lock_holder c = None \<longrightarrow> (\<exists>n. pc (steps (listMigrations paths) i n c) i = Returned True))"
proof -
  let ?files = "listMigrations paths" and ?before = "case before of None \<Rightarrow> [] | Some ns \<Rightarrow> ns"
  have dist: "distinct ?files" using assms(1) by (simp add: listMigrations_def)
  have ok: "cluster_ok ?files ?before c" by (rule cluster_reachable_ok [OF dist assms(2)])
  then have pre: "prefix (executed c) (pending ?files ?before)" by (simp add: cluster_ok_def)
  have "sorted (pending ?files ?before)" "distinct (pending ?files ?before)"
    using dist by (simp_all add: pending_def listMigrations_def sorted_wrt_filter)
  with pre have "sorted (executed c)" "distinct (executed c)" by (auto simp: prefix_def sorted_append)
  with pre success_is_complete [OF dist ok, of i] waiting_instance_finishes [OF dist ok, of i] show ?thesis by blast
qed

definition sample_cluster :: cluster where
  "sample_cluster = migrate_step [''a.sql'', ''b.sql''] 1 False (steps [''a.sql'', ''b.sql''] 0 5 (fresh_cluster (Some [''a.sql''])))"

lemma steps_reach: "(cluster_step files)\<^sup>*\<^sup>* c (steps files i n c)"
  by (induction n arbitrary: c) (auto simp: steps_Suc intro: cluster_step.run converse_rtranclp_into_rtranclp)

theorem migrations_run_once_in_order_witness:
  "executed sample_cluster = [''b.sql''] \<and> distinct (executed sample_cluster) \<and>
   prefix (executed sample_cluster) (pending [''a.sql'', ''b.sql''] [''a.sql''])"
proof -
  have files: "listMigrations [''b.sql'', ''a.sql'', ''README''] = [''a.sql'', ''b.sql'']" by code_simp
  have "(cluster_step [''a.sql'', ''b.sql''])\<^sup>*\<^sup>* (fresh_cluster (Some [''a.sql''])) sample_cluster"
    unfolding sample_cluster_def by (rule rtranclp.rtrancl_into_rtrancl [OF steps_reach cluster_step.run])
  with files have reach: "(cluster_step (listMigrations [''b.sql'', ''a.sql'', ''README'']))\<^sup>*\<^sup>* (fresh_cluster (Some [''a.sql''])) sample_cluster"
    by simp
  have "distinct [''b.sql'', ''a.sql'', ''README'']" by simp
  from migrations_run_once_in_order [OF this reach, of 0] files
  have "distinct (executed sample_cluster)" "prefix (executed sample_cluster) (pending [''a.sql'', ''b.sql''] [''a.sql''])" by simp_all
  moreover have "executed sample_cluster = [''b.sql'']" by code_simp
  ultimately show ?thesis by simp
qed

end
