(* ===== verification/Boot.thy ===== *)
theory Boot
  imports Server Oauth Migrations
begin

text \<open>
  Starting the process: \<open>NewServer\<close> (\<open>internal/http/server.go\<close>) and the commands \<open>migrate\<close> and \<open>serve\<close>
  (\<open>cmd/sesamo/main.go\<close>) up to the point where requests are accepted. What the operating system
  and Postgres contribute are arguments: the environment, whether the pool connects, and what
  \<open>Migrate\<close> returned. A \<open>server\<close> value \<open>base\<close> carries the third-party functions; the fields the
  program sets itself are overwritten. Shown: what a process that serves requests in
  production is guaranteed to have.
\<close>

datatype boot_err = ProviderError oauth_err | KeyringError keyring_err

text \<open>\<open>order\<close> is the iteration order of the provider map, \<open>boot_key\<close> the drawn ephemeral key.\<close>

definition NewServer :: "idp_lib \<Rightarrow> (registry \<Rightarrow> string list) \<Rightarrow> bytes \<Rightarrow> server \<Rightarrow> config \<Rightarrow> boot_err + server \<times> registry" where
  "NewServer lib order boot_key base c =
     (case buildProviders lib c of
        Inl e \<Rightarrow> Inl (ProviderError e)
      | Inr reg \<Rightarrow> (case buildOutboxKeyring c boot_key of
          Inl e \<Rightarrow> Inl (KeyringError e)
        | Inr kr \<Rightarrow> Inr (base\<lparr>cfg := c, srv_keyring := kr, provider_names := order reg, providers := (\<lambda>_. None)\<rparr>, reg)))"

text \<open>The providers as one request sees them: with the network and the clock of that request.\<close>

definition at_request :: "idp_lib \<Rightarrow> network \<Rightarrow> exchange_clock \<Rightarrow> registry \<Rightarrow> server \<Rightarrow> server" where
  "at_request lib net t reg s = s\<lparr>providers := (\<lambda>name. map_option (as_provider lib net t) (Get reg name))\<rparr>"

datatype started =
    ConfigFailed config_err
  | ConnectFailed
  | MigrateFailed
  | ServerFailed boot_err
  | Serving server registry

text \<open>\<open>connect\<close>: the pool for this DSN opens and answers; \<open>migrated\<close>: the result of \<open>Migrate\<close>.\<close>

definition runMigrate :: "url_parser \<Rightarrow> bool \<times> bool \<Rightarrow> environ \<Rightarrow> (string \<Rightarrow> bool) \<Rightarrow> bool \<Rightarrow> nat" where
  "runMigrate Parse brand_order env connect migrated =
     (case load Parse brand_order env True of
        Inl e \<Rightarrow> 1
      | Inr c \<Rightarrow> if \<not> connect (DatabaseURL c) then 1 else if \<not> migrated then 1 else 0)"

definition runServe :: "url_parser \<Rightarrow> bool \<times> bool \<Rightarrow> environ \<Rightarrow> (string \<Rightarrow> bool) \<Rightarrow> bool \<Rightarrow> idp_lib \<Rightarrow> (registry \<Rightarrow> string list)
    \<Rightarrow> bytes \<Rightarrow> server \<Rightarrow> started" where
  "runServe Parse brand_order env connect migrated lib order boot_key base =
     (case load Parse brand_order env True of
        Inl e \<Rightarrow> ConfigFailed e
      | Inr c \<Rightarrow>
          if \<not> connect (DatabaseURL c) then ConnectFailed
          else if \<not> migrated then MigrateFailed
          else case NewServer lib order boot_key base c of
            Inl e \<Rightarrow> ServerFailed e
          | Inr (s, reg) \<Rightarrow> Serving s reg)"

definition starts_with_keys :: "config \<Rightarrow> keyring \<Rightarrow> bool" where
  "starts_with_keys c kr \<longleftrightarrow> ParseKeyring (EmailOutboxKeys c) = Inr kr"

lemma runServe_Serving:
  assumes "runServe Parse brand_order env connect migrated lib order boot_key base = Serving s reg"
  obtains c where "load Parse brand_order env True = Inr c" "cfg s = c" "connect (DatabaseURL c)" "migrated"
    "buildProviders lib c = Inr reg" "buildOutboxKeyring c boot_key = Inr (srv_keyring s)"
  using assms by (auto simp: runServe_def NewServer_def split: sum.splits if_splits)

text \<open>Every way of not starting, from the same inputs.\<close>

lemma runServe_decides:
  "(\<exists>s reg. runServe Parse brand_order env connect migrated lib order boot_key base = Serving s reg) \<longleftrightarrow>
   (\<exists>c reg kr. load Parse brand_order env True = Inr c \<and> connect (DatabaseURL c) \<and> migrated \<and> buildProviders lib c = Inr reg
      \<and> buildOutboxKeyring c boot_key = Inr kr)"
  by (auto simp: runServe_def NewServer_def split: sum.splits if_splits)

lemma built_registry:
  "buildProviders lib c = Inr reg \<Longrightarrow>
     (Get reg ''google'' \<noteq> None \<longleftrightarrow> oauth_Enabled (Google c)) \<and> (Get reg ''github'' \<noteq> None \<longleftrightarrow> oauth_Enabled (GitHub c))
     \<and> (Get reg ''apple'' \<noteq> None \<longleftrightarrow> apple_Enabled (Apple c))"
  by (auto simp: buildProviders_def Let_def NewRegistry_def Add_def Get_def split: if_splits sum.splits)

text \<open>
  C37. A process that serves requests in production meets every requirement on production: its
  cookies are secure and its base URL is https, both bearer secrets are long and differ, the
  database is named, its connection is encrypted and its schema is migrated, mail goes through Resend
  or Postmark with an API key, from a sender that is not on localhost, with a webhook secret in
  the case of Resend, queued mail is sealed under the operator's keyring and
  never under a key drawn at boot, every OAuth provider is either complete and registered or
  absent, the integer settings parse, and its session durations meet the requirements of the
  session store, so that the cap on the age of a session is in force.
\<close>

theorem production_boot_is_safe:
  assumes "runServe Parse brand_order env connect migrated lib order boot_key base = Serving s reg" and "Env (cfg s) = EnvProduction"
  shows "cap_configured (session_config_of (cfg s)) \<and> 0 < Lifetime (session_config_of (cfg s))
    \<and> CookieSecure (cfg s) \<and> HasPrefix (BaseURL (cfg s)) ''https://''
    \<and> 32 \<le> length (ServiceToken (cfg s)) \<and> 32 \<le> length (AdminAPIKey (cfg s)) \<and> ServiceToken (cfg s) \<noteq> AdminAPIKey (cfg s)
    \<and> dsnSSLMode Parse env (DatabaseURL (cfg s)) \<in> set productionSSLModes \<and> migrated
    \<and> starts_with_keys (cfg s) (srv_keyring s)
    \<and> (oauth_absent (Google (cfg s)) \<or> Get reg ''google'' \<noteq> None) \<and> (oauth_absent (GitHub (cfg s)) \<or> Get reg ''github'' \<noteq> None)
    \<and> (apple_absent (Apple (cfg s)) \<or> Get reg ''apple'' \<noteq> None)
    \<and> EmailProvider (cfg s) \<in> {''resend'', ''postmark''} \<and> EmailAPIKey (cfg s) \<noteq> []
    \<and> EmailFrom (cfg s) \<noteq> [] \<and> \<not> Contains (ToLower (EmailFrom (cfg s))) ''localhost''
    \<and> (EmailProvider (cfg s) = ''resend'' \<longrightarrow> ResendWebhookSecret (cfg s) \<noteq> [])
    \<and> 0 < RollingRenewalThreshold (session_config_of (cfg s)) \<and> int_settings_parse env \<and> DatabaseURL (cfg s) \<noteq> []"
proof -
  obtain c where c: "load Parse brand_order env True = Inr c" "cfg s = c" "migrated" "buildProviders lib c = Inr reg"
    "buildOutboxKeyring c boot_key = Inr (srv_keyring s)"
    by (rule runServe_Serving [OF assms(1)])
  with assms(2) have prod: "Env c = EnvProduction" by simp
  note safe = production_config_is_safe [OF c(1) prod]
  then have "starts_with_keys c (srv_keyring s)" using c(5) by (simp add: buildOutboxKeyring_def starts_with_keys_def)
  with safe built_registry [OF c(4)] c(2,3) show ?thesis by simp
qed

text \<open>A complete production environment, started.\<close>

definition boot_environ :: environ where
  "boot_environ = sample_environ(''SESAMO_EMAIL_OUTBOX_KEYS'' := ''k1:'' @ EncodeToString StdEncoding (replicate 32 0))"

definition no_lib :: idp_lib where
  "no_lib = \<lparr>sha256 = id, VerifyPKCS1v15 = (\<lambda>k d s. s = d), ecdsa_Sign = (\<lambda>_ _. None), pem_Decode = (\<lambda>_. None),
     ParsePKCS8PrivateKey = (\<lambda>_. None), json_quote = id, json_header = (\<lambda>_. None), json_claims = (\<lambda>_. None),
     json_jwks = (\<lambda>_. None), json_id_token = (\<lambda>_. None), json_access_token = (\<lambda>_. None), json_user = (\<lambda>_. None),
     json_emails = (\<lambda>_. None)\<rparr>"

definition base_server :: server where
  "base_server = \<lparr>cfg = env_config (\<lambda>_. []), url_Parse = (\<lambda>_. None), SplitHost = Some, normIP = Some, HashToken = bytes_of,
     idkey = (\<lambda>p s t m n l. p @ s), bcrypt = (\<lambda>h p. None), seal = (\<lambda>k n p a. p), hmac = (\<lambda>k m. k @ m), decode_event = (\<lambda>_. None),
     srv_keyring = \<lparr>activeID = [], aeads = []\<rparr>, providers = (\<lambda>_. None), provider_names = []\<rparr>"

definition boot_run :: started where
  "boot_run = runServe (\<lambda>_. None) (False, False) boot_environ (\<lambda>_. True) True no_lib (\<lambda>_. []) (replicate 32 0) base_server"

lemma boot_run_serves:
  "case boot_run of Serving s reg \<Rightarrow> Env (cfg s) = EnvProduction \<and> SessionMaxLifetime (cfg s) = 90 * 24 * Hour | _ \<Rightarrow> False"
  by code_simp

theorem production_boot_is_safe_witness:
  "\<exists>s reg. boot_run = Serving s reg \<and> Env (cfg s) = EnvProduction \<and> cap_configured (session_config_of (cfg s))
     \<and> starts_with_keys (cfg s) (srv_keyring s) \<and> CookieSecure (cfg s) \<and> EmailAPIKey (cfg s) \<noteq> [] \<and> int_settings_parse boot_environ"
proof -
  obtain s reg where run: "boot_run = Serving s reg" "Env (cfg s) = EnvProduction"
    using boot_run_serves by (auto split: started.splits)
  from production_boot_is_safe [OF run(1) [unfolded boot_run_def] run(2)] run show ?thesis by blast
qed

end
