(* ===== verification/Descriptor.thy ===== *)
theory Descriptor
  imports Oauth Server_Safety
begin

text \<open>
  The deployment descriptor (\<open>internal/http/descriptor.go\<close>): the document of \<open>/.well-known/sesamo\<close>
  and of \<open>sesamo describe\<close>. The build version is an argument (it is linked in), and so is the order
  in which a Go map of providers is iterated. The document is the value handed
  to \<open>encoding/json\<close>; its text is in \<open>Openapi\<close>. Shown: the published routes and credentials are those of the
  routing tables, and the document is a function of the non-secret part of the configuration.
\<close>

definition stableErrorCodes :: "code list" where
  "stableErrorCodes =
     [codeInvalidCredentials, codeInvalidRequest, codeRateLimited, codeUnauthorized, codeForbidden, codeNotFound,
      codeInternal, codeStateMismatch, codeOAuthFailed, codeCSRFFailed]"

definition descriptorSchemaVersion :: int where "descriptorSchemaVersion = 1"
definition sessionRenewalHeader :: string where "sessionRenewalHeader = ''X-Session-Renewed''"
definition authServiceToken :: string where "authServiceToken = ''bearer_service_token''"
definition authAdminKey :: string where "authAdminKey = ''bearer_admin_api_key''"
definition authSvixSignature :: string where "authSvixSignature = ''svix_signature''"

record descriptorService =
  svc_Name :: string
  svc_Version :: string

record descriptorProject =
  prj_Slug :: string
  prj_DisplayName :: string

record descriptorEndpoint =
  ep_Method :: string
  ep_Path :: string
  ep_Auth :: string

record descriptorEndpoints =
  ep_Descriptor :: descriptorEndpoint
  ep_Login :: descriptorEndpoint
  ep_LoginSubmit :: descriptorEndpoint
  ep_Signup :: descriptorEndpoint
  ep_Logout :: descriptorEndpoint
  ep_OAuthStart :: descriptorEndpoint
  ep_OAuthCallback :: descriptorEndpoint
  ep_ResetPage :: descriptorEndpoint
  ep_Reset :: descriptorEndpoint
  ep_ResetConfirmPage :: descriptorEndpoint
  ep_ResetConfirm :: descriptorEndpoint
  ep_MagicLink :: descriptorEndpoint
  ep_MagicLinkConfirm :: descriptorEndpoint
  ep_ResendWebhook :: descriptorEndpoint
  ep_Introspect :: descriptorEndpoint
  ep_RevokeSession :: descriptorEndpoint
  ep_AdminUser :: descriptorEndpoint
  ep_AdminRevokeSessions :: descriptorEndpoint
  ep_AdminDisable :: descriptorEndpoint
  ep_Healthz :: descriptorEndpoint
  ep_Readyz :: descriptorEndpoint
  ep_Metrics :: descriptorEndpoint
  ep_OpenAPI :: descriptorEndpoint
  ep_LLMs :: descriptorEndpoint

record descriptorCapabilities =
  cap_Password :: bool
  cap_MagicLink :: bool
  cap_EmailDeliveryWebhook :: bool
  cap_OAuthProviders :: "string list"
  cap_Signup :: string

record descriptorSession =
  ds_CookieName :: string
  ds_Secure :: bool
  ds_SameSite :: string
  ds_LifetimeSeconds :: int
  ds_AbsoluteLifetimeSeconds :: int
  ds_RenewalHeader :: string

record descriptorDoc =
  doc_SchemaVersion :: int
  doc_Service :: descriptorService
  doc_Project :: descriptorProject
  doc_Endpoints :: descriptorEndpoints
  doc_Capabilities :: descriptorCapabilities
  doc_Session :: descriptorSession
  doc_Errors :: "string list"

text \<open>
  Whole seconds of a duration, truncated towards zero. The code goes through a \<open>float64\<close>, which is
  exact for the whole-second lifetimes the configuration produces.
\<close>

definition whole_seconds :: "duration \<Rightarrow> int" where
  "whole_seconds d = (if d < 0 then - ((- d) div Second) else d div Second)"

definition route_open :: "string \<Rightarrow> string \<Rightarrow> descriptorEndpoint" where
  "route_open m p = \<lparr>ep_Method = m, ep_Path = p, ep_Auth = []\<rparr>"

definition route_auth :: "string \<Rightarrow> string \<Rightarrow> string \<Rightarrow> descriptorEndpoint" where
  "route_auth m p a = \<lparr>ep_Method = m, ep_Path = p, ep_Auth = a\<rparr>"

definition published_endpoints :: descriptorEndpoints where
  "published_endpoints =
     \<lparr>ep_Descriptor = route_open ''GET'' ''/.well-known/sesamo'',
      ep_Login = route_open ''GET'' ''/login'',
      ep_LoginSubmit = route_open ''POST'' ''/login'',
      ep_Signup = route_open ''POST'' ''/signup'',
      ep_Logout = route_open ''POST'' ''/logout'',
      ep_OAuthStart = route_open ''GET'' ''/auth/{provider}'',
      ep_OAuthCallback = route_open ''GET'' ''/auth/{provider}/callback'',
      ep_ResetPage = route_open ''GET'' ''/reset'',
      ep_Reset = route_open ''POST'' ''/reset'',
      ep_ResetConfirmPage = route_open ''GET'' ''/reset/confirm'',
      ep_ResetConfirm = route_open ''POST'' ''/reset/confirm'',
      ep_MagicLink = route_open ''POST'' ''/magiclink'',
      ep_MagicLinkConfirm = route_open ''GET'' ''/magiclink/confirm'',
      ep_ResendWebhook = route_auth ''POST'' ''/v1/webhooks/resend'' authSvixSignature,
      ep_Introspect = route_auth ''POST'' ''/v1/introspect'' authServiceToken,
      ep_RevokeSession = route_auth ''POST'' ''/v1/sessions/revoke'' authServiceToken,
      ep_AdminUser = route_auth ''GET'' ''/v1/admin/users/{id}'' authAdminKey,
      ep_AdminRevokeSessions = route_auth ''POST'' ''/v1/admin/users/{id}/revoke-sessions'' authAdminKey,
      ep_AdminDisable = route_auth ''POST'' ''/v1/admin/users/{id}/disable'' authAdminKey,
      ep_Healthz = route_open ''GET'' ''/healthz'',
      ep_Readyz = route_open ''GET'' ''/readyz'',
      ep_Metrics = route_open ''GET'' ''/metrics'',
      ep_OpenAPI = route_open ''GET'' ''/openapi.json'',
      ep_LLMs = route_open ''GET'' ''/llms.txt''\<rparr>"

definition buildDescriptor :: "string \<Rightarrow> config \<Rightarrow> string list \<Rightarrow> descriptorDoc" where
  "buildDescriptor version c oauthProviders =
     \<lparr>doc_SchemaVersion = descriptorSchemaVersion,
      doc_Service = \<lparr>svc_Name = ''sesamo'', svc_Version = (if version = [] then ''dev'' else version)\<rparr>,
      doc_Project = \<lparr>prj_Slug = ProjectSlug c, prj_DisplayName = ProjectDisplayName c\<rparr>,
      doc_Endpoints = published_endpoints,
      doc_Capabilities = \<lparr>cap_Password = True, cap_MagicLink = True,
        cap_EmailDeliveryWebhook = (ResendWebhookSecret c \<noteq> []), cap_OAuthProviders = sort oauthProviders,
        cap_Signup = SignupPolicy c\<rparr>,
      doc_Session = \<lparr>ds_CookieName = CookieName c, ds_Secure = CookieSecure c, ds_SameSite = ''Lax'',
        ds_LifetimeSeconds = whole_seconds (SessionLifetime c),
        ds_AbsoluteLifetimeSeconds = whole_seconds (SessionMaxLifetime c), ds_RenewalHeader = sessionRenewalHeader\<rparr>,
      doc_Errors = map code_string stableErrorCodes\<rparr>"

text \<open>\<open>order\<close> is the iteration order of the registry's map.\<close>

definition DescribeJSON :: "idp_lib \<Rightarrow> (registry \<Rightarrow> string list) \<Rightarrow> string \<Rightarrow> config \<Rightarrow> oauth_err + descriptorDoc" where
  "DescribeJSON lib order version c =
     (case buildProviders lib c of
        Inl e \<Rightarrow> Inl e
      | Inr reg \<Rightarrow> Inr (buildDescriptor version c (order reg)))"

subsection \<open>The document and the routing tables\<close>

definition endpoint_list :: "descriptorEndpoints \<Rightarrow> descriptorEndpoint list" where
  "endpoint_list e =
     [ep_Descriptor e, ep_Login e, ep_LoginSubmit e, ep_Signup e, ep_Logout e, ep_OAuthStart e, ep_OAuthCallback e, ep_ResetPage e,
      ep_Reset e, ep_ResetConfirmPage e, ep_ResetConfirm e, ep_MagicLink e, ep_MagicLinkConfirm e, ep_ResendWebhook e,
      ep_Introspect e, ep_RevokeSession e, ep_AdminUser e, ep_AdminRevokeSessions e, ep_AdminDisable e, ep_Healthz e,
      ep_Readyz e, ep_Metrics e, ep_OpenAPI e, ep_LLMs e]"

text \<open>A path as the mux reads it: a segment in braces is a wildcard.\<close>

definition segments_of :: "string \<Rightarrow> segment list" where
  "segments_of path = map (\<lambda>s. if HasPrefix s ''{'' then Wild else Lit s) (Split CHR ''/'' (TrimPrefix path ''/''))"

text \<open>The credential a route's handler asks for, as the document names it.\<close>

definition credential_of :: "route \<Rightarrow> string" where
  "credential_of rt =
     (if rt \<in> admin_routes then authAdminKey
      else if rt = Introspect \<or> rt = SessionRevoke then authServiceToken
      else if rt = ResendWebhook then authSvixSignature else [])"

definition endpoint_of :: "pattern \<Rightarrow> string \<times> segment list \<times> string" where
  "endpoint_of p = (fst p, fst (snd p), credential_of (snd (snd p)))"

lemma published_paths:
  "set (map (\<lambda>e. (ep_Method e, segments_of (ep_Path e), ep_Auth e)) (endpoint_list published_endpoints)) =
   set (map endpoint_of (filter (\<lambda>p. snd (snd p) \<notin> {ThemeCSS, BrandStyles, VerifyLink}) routes))"
  by code_simp

subsection \<open>What the document depends on\<close>

record public_part =
  pub_slug :: string
  pub_display :: string
  pub_cookie :: string
  pub_secure :: bool
  pub_lifetime :: duration
  pub_max_lifetime :: duration
  pub_signup :: string
  pub_webhook :: bool
  pub_providers :: "bool \<times> bool \<times> bool"

definition public_view :: "config \<Rightarrow> public_part" where
  "public_view c =
     \<lparr>pub_slug = ProjectSlug c, pub_display = ProjectDisplayName c, pub_cookie = CookieName c, pub_secure = CookieSecure c,
      pub_lifetime = SessionLifetime c, pub_max_lifetime = SessionMaxLifetime c, pub_signup = SignupPolicy c,
      pub_webhook = (ResendWebhookSecret c \<noteq> []),
      pub_providers = (oauth_Enabled (Google c), oauth_Enabled (GitHub c), apple_Enabled (Apple c))\<rparr>"

definition lists_names :: "(registry \<Rightarrow> string list) \<Rightarrow> registry \<Rightarrow> bool" where
  "lists_names order reg \<longleftrightarrow> distinct (order reg) \<and> set (order reg) = Names reg"

lemma built_names:
  "buildProviders lib c = Inr reg \<Longrightarrow>
     Names reg = (if oauth_Enabled (Google c) then {''google''} else {}) \<union> (if oauth_Enabled (GitHub c) then {''github''} else {})
       \<union> (if apple_Enabled (Apple c) then {''apple''} else {})"
  by (auto simp: buildProviders_def Let_def NewRegistry_def Add_def Names_def split: if_splits sum.splits)

text \<open>
  The descriptor depends on nothing but the public part of the configuration: not on keys, tokens
  or client secrets, nor on the order in which the provider map is iterated.
\<close>

lemma same_descriptor:
  assumes "public_view c = public_view c'"
    and "buildProviders lib c = Inr reg" and "buildProviders lib c' = Inr reg'"
    and "lists_names order reg" and "lists_names order' reg'"
  shows "buildDescriptor v c (order reg) = buildDescriptor v c' (order' reg')"
proof -
  have "Names reg = Names reg'"
    using assms(1) built_names [OF assms(2)] built_names [OF assms(3)] by (simp add: public_view_def)
  then have "sort (order reg) = sort (order' reg')"
    using assms(4,5) by (intro sorted_distinct_set_unique) (auto simp: lists_names_def)
  with assms(1) show ?thesis by (simp add: buildDescriptor_def public_view_def)
qed

end
