(* ===== verification/Openapi.thy ===== *)
theory Openapi
  imports Descriptor Json
begin

text \<open>
  The two documents of the discovery surface as JSON (\<open>internal/http/descriptor.go\<close>): the OpenAPI
  contract with the substitution of the running version, the descriptor as its struct tags
  marshal it, the briefing for agents, and the routes that serve them. The contract is given as
  the value that its literal denotes, one definition per path and component; \<open>openAPISpec\<close> is
  that value written without the white space between tokens. Shown: what is served parses, names the
  running version whatever bytes it has, and agrees with the routing tables.
\<close>

subsection \<open>The contract\<close>

definition openapi_info :: "string \<Rightarrow> jvalue" where
  "openapi_info version = VObj [
    (''title'', VStr (''S'' @ [CHR 0xC3, CHR 0xA9] @ ''samo'')),
    (''version'', VStr version),
    (''summary'', VStr (''Servidor de autenticaci'' @ [CHR 0xC3, CHR 0xB3] @ ''n con sesiones opacas en Postgres.'')),
    (''description'', VStr (''Superficie HTTP de un deployment de S'' @ [CHR 0xC3, CHR 0xA9] @ ''samo. Un deployment sirve un solo project (single-tenant). Descubrimiento en tiempo de ejecuci'' @ [CHR 0xC3, CHR 0xB3] @ ''n: GET /.well-known/sesamo.''))]"

definition openapi_servers :: jvalue where
  "openapi_servers = VArr [VObj [(''url'', VStr ''/''), (''description'', VStr ''Este deployment (rutas relativas).'')]]"

definition openapi_tags :: jvalue where
  "openapi_tags = VArr [
    VObj [(''name'', VStr ''enduser''), (''description'', VStr ''Flujos de usuario final (navegador o cliente headless).'')],
    VObj [(''name'', VStr ''service''), (''description'', VStr ''Server-to-server; requiere SESAMO_SERVICE_TOKEN.'')],
    VObj [(''name'', VStr ''admin''), (''description'', VStr (''Administraci'' @ [CHR 0xC3, CHR 0xB3] @ ''n; requiere SESAMO_ADMIN_API_KEY.''))],
    VObj [(''name'', VStr ''ops''), (''description'', VStr (''Salud, m'' @ [CHR 0xC3, CHR 0xA9] @ ''tricas y descubrimiento.''))]]"

definition path_login :: jvalue where
  "path_login = VObj [
    (''get'', VObj [
     (''tags'', VArr [VStr ''enduser'']),
     (''summary'', VStr (''M'' @ [CHR 0xC3, CHR 0xA9] @ ''todos de login disponibles y token CSRF.'')),
     (''description'', VStr (''HTML por defecto. Con Accept: application/json o ?mode=json devuelve providers, methods y csrf_token; el token acompa'' @ [CHR 0xC3, CHR 0xB1] @ ''a a los POST de esta secci'' @ [CHR 0xC3, CHR 0xB3] @ ''n.'')),
     (''parameters'', VArr [
      VObj [
       (''name'', VStr ''mode''),
       (''in'', VStr ''query''),
       (''required'', VBool False),
       (''schema'', VObj [(''type'', VStr ''string''), (''enum'', VArr [VStr ''json''])])]]),
     (''responses'', VObj [
      (''200'', VObj [
       (''description'', VStr (''P'' @ [CHR 0xC3, CHR 0xA1] @ ''gina de login o descripci'' @ [CHR 0xC3, CHR 0xB3] @ ''n de m'' @ [CHR 0xC3, CHR 0xA9] @ ''todos.'')),
       (''content'', VObj [
        (''application/json'', VObj [(''schema'', VObj [(''$ref'', VStr ''#/components/schemas/LoginOptions'')])]),
        (''text/html'', VObj [(''schema'', VObj [(''type'', VStr ''string'')])])])])])]),
    (''post'', VObj [
     (''tags'', VArr [VStr ''enduser'']),
     (''summary'', VStr (''Login con email y contrase'' @ [CHR 0xC3, CHR 0xB1] @ ''a.'')),
     (''requestBody'', VObj [
      (''required'', VBool True),
      (''content'', VObj [
       (''application/x-www-form-urlencoded'', VObj [
        (''schema'', VObj [
         (''type'', VStr ''object''),
         (''required'', VArr [VStr ''email'', VStr ''password'']),
         (''properties'', VObj [
          (''email'', VObj [(''type'', VStr ''string''), (''format'', VStr ''email'')]),
          (''password'', VObj [(''type'', VStr ''string'')]),
          (''csrf_token'', VObj [(''type'', VStr ''string''), (''description'', VStr ''Alternativa al header X-CSRF-Token.'')])])])])])]),
     (''responses'', VObj [
      (''200'', VObj [(''$ref'', VStr ''#/components/responses/SessionEstablished'')]),
      (''303'', VObj [(''description'', VStr (''Redirecci'' @ [CHR 0xC3, CHR 0xB3] @ ''n al destino post-login (modo navegador).''))]),
      (''400'', VObj [(''$ref'', VStr ''#/components/responses/Error'')]),
      (''401'', VObj [(''$ref'', VStr ''#/components/responses/Error'')]),
      (''403'', VObj [(''$ref'', VStr ''#/components/responses/Error'')]),
      (''429'', VObj [(''$ref'', VStr ''#/components/responses/Error'')])])])]"

definition path_signup :: jvalue where
  "path_signup = VObj [
    (''post'', VObj [
     (''tags'', VArr [VStr ''enduser'']),
     (''summary'', VStr ''Registro de una cuenta nueva.''),
     (''description'', VStr ''Deshabilitado cuando SESAMO_SIGNUP=disabled; consultar capabilities.signup en el descriptor.''),
     (''requestBody'', VObj [
      (''required'', VBool True),
      (''content'', VObj [
       (''application/x-www-form-urlencoded'', VObj [
        (''schema'', VObj [
         (''type'', VStr ''object''),
         (''required'', VArr [VStr ''email'', VStr ''password'']),
         (''properties'', VObj [
          (''email'', VObj [(''type'', VStr ''string''), (''format'', VStr ''email'')]),
          (''password'', VObj [(''type'', VStr ''string'')]),
          (''name'', VObj [(''type'', VStr ''string'')]),
          (''csrf_token'', VObj [(''type'', VStr ''string'')])])])])])]),
     (''responses'', VObj [
      (''200'', VObj [(''$ref'', VStr ''#/components/responses/SessionEstablished'')]),
      (''303'', VObj [(''description'', VStr (''Redirecci'' @ [CHR 0xC3, CHR 0xB3] @ ''n post-registro (modo navegador).''))]),
      (''400'', VObj [(''$ref'', VStr ''#/components/responses/Error'')]),
      (''403'', VObj [(''$ref'', VStr ''#/components/responses/Error'')]),
      (''429'', VObj [(''$ref'', VStr ''#/components/responses/Error'')])])])]"

definition path_logout :: jvalue where
  "path_logout = VObj [
    (''post'', VObj [
     (''tags'', VArr [VStr ''enduser'']),
     (''summary'', VStr (''Cierra la sesi'' @ [CHR 0xC3, CHR 0xB3] @ ''n actual.'')),
     (''description'', VStr ''Solo POST y con par CSRF: un GET de logout se dispara desde cualquier imagen remota.''),
     (''responses'', VObj [
      (''200'', VObj [(''$ref'', VStr ''#/components/responses/Status'')]),
      (''303'', VObj [(''description'', VStr (''Redirecci'' @ [CHR 0xC3, CHR 0xB3] @ ''n post-logout (modo navegador).''))]),
      (''403'', VObj [(''$ref'', VStr ''#/components/responses/Error'')])])])]"

definition path_auth_provider :: jvalue where
  "path_auth_provider = VObj [
    (''get'', VObj [
     (''tags'', VArr [VStr ''enduser'']),
     (''summary'', VStr ''Inicia el flujo OAuth de un provider habilitado.''),
     (''parameters'', VArr [VObj [(''$ref'', VStr ''#/components/parameters/Provider'')]]),
     (''responses'', VObj [
      (''303'', VObj [(''description'', VStr (''Redirecci'' @ [CHR 0xC3, CHR 0xB3] @ ''n al authorization endpoint del provider.''))]),
      (''404'', VObj [(''$ref'', VStr ''#/components/responses/Error'')])])])]"

definition path_auth_provider_callback :: jvalue where
  "path_auth_provider_callback = VObj [
    (''get'', VObj [
     (''tags'', VArr [VStr ''enduser'']),
     (''summary'', VStr (''Callback OAuth: valida state y PKCE, y establece la sesi'' @ [CHR 0xC3, CHR 0xB3] @ ''n.'')),
     (''parameters'', VArr [
      VObj [(''$ref'', VStr ''#/components/parameters/Provider'')],
      VObj [(''name'', VStr ''code''), (''in'', VStr ''query''), (''required'', VBool False), (''schema'', VObj [(''type'', VStr ''string'')])],
      VObj [(''name'', VStr ''state''), (''in'', VStr ''query''), (''required'', VBool False), (''schema'', VObj [(''type'', VStr ''string'')])]]),
     (''responses'', VObj [
      (''303'', VObj [(''description'', VStr (''Redirecci'' @ [CHR 0xC3, CHR 0xB3] @ ''n al destino post-login.''))]),
      (''400'', VObj [(''$ref'', VStr ''#/components/responses/Error'')]),
      (''403'', VObj [(''$ref'', VStr ''#/components/responses/Error'')]),
      (''502'', VObj [(''$ref'', VStr ''#/components/responses/Error'')])])])]"

definition path_reset :: jvalue where
  "path_reset = VObj [
    (''get'', VObj [
     (''tags'', VArr [VStr ''enduser'']),
     (''summary'', VStr ''Formulario de pedido de reset.''),
     (''responses'', VObj [(''200'', VObj [(''description'', VStr (''P'' @ [CHR 0xC3, CHR 0xA1] @ ''gina de pedido de reset.''))])])]),
    (''post'', VObj [
     (''tags'', VArr [VStr ''enduser'']),
     (''summary'', VStr (''Pide un email de reset de contrase'' @ [CHR 0xC3, CHR 0xB1] @ ''a.'')),
     (''description'', VStr (''Respuesta id'' @ [CHR 0xC3, CHR 0xA9] @ ''ntica exista o no la cuenta: no es un or'' @ [CHR 0xC3, CHR 0xA1] @ ''culo de enumeraci'' @ [CHR 0xC3, CHR 0xB3] @ ''n.'')),
     (''requestBody'', VObj [
      (''required'', VBool True),
      (''content'', VObj [
       (''application/x-www-form-urlencoded'', VObj [
        (''schema'', VObj [
         (''type'', VStr ''object''),
         (''required'', VArr [VStr ''email'']),
         (''properties'', VObj [(''email'', VObj [(''type'', VStr ''string''), (''format'', VStr ''email'')]), (''csrf_token'', VObj [(''type'', VStr ''string'')])])])])])]),
     (''responses'', VObj [
      (''200'', VObj [(''$ref'', VStr ''#/components/responses/Status'')]),
      (''303'', VObj [(''description'', VStr (''Redirecci'' @ [CHR 0xC3, CHR 0xB3] @ ''n con acuse gen'' @ [CHR 0xC3, CHR 0xA9] @ ''rico.''))]),
      (''403'', VObj [(''$ref'', VStr ''#/components/responses/Error'')]),
      (''429'', VObj [(''$ref'', VStr ''#/components/responses/Error'')])])])]"

definition path_reset_confirm :: jvalue where
  "path_reset_confirm = VObj [
    (''get'', VObj [
     (''tags'', VArr [VStr ''enduser'']),
     (''summary'', VStr (''Formulario de nueva contrase'' @ [CHR 0xC3, CHR 0xB1] @ ''a para un token de reset.'')),
     (''parameters'', VArr [VObj [(''$ref'', VStr ''#/components/parameters/Token'')]]),
     (''responses'', VObj [(''200'', VObj [(''description'', VStr (''P'' @ [CHR 0xC3, CHR 0xA1] @ ''gina de nueva contrase'' @ [CHR 0xC3, CHR 0xB1] @ ''a.''))])])]),
    (''post'', VObj [
     (''tags'', VArr [VStr ''enduser'']),
     (''summary'', VStr (''Consume el token de reset y fija la contrase'' @ [CHR 0xC3, CHR 0xB1] @ ''a nueva.'')),
     (''requestBody'', VObj [
      (''required'', VBool True),
      (''content'', VObj [
       (''application/x-www-form-urlencoded'', VObj [
        (''schema'', VObj [
         (''type'', VStr ''object''),
         (''required'', VArr [VStr ''token'', VStr ''password'']),
         (''properties'', VObj [
          (''token'', VObj [(''type'', VStr ''string'')]),
          (''password'', VObj [(''type'', VStr ''string'')]),
          (''csrf_token'', VObj [(''type'', VStr ''string'')])])])])])]),
     (''responses'', VObj [
      (''200'', VObj [(''$ref'', VStr ''#/components/responses/Status'')]),
      (''303'', VObj [(''description'', VStr (''Redirecci'' @ [CHR 0xC3, CHR 0xB3] @ ''n al login.''))]),
      (''400'', VObj [(''$ref'', VStr ''#/components/responses/Error'')]),
      (''403'', VObj [(''$ref'', VStr ''#/components/responses/Error'')])])])]"

definition path_verify :: jvalue where
  "path_verify = VObj [
    (''get'', VObj [
     (''tags'', VArr [VStr ''enduser'']),
     (''summary'', VStr (''Verifica una direcci'' @ [CHR 0xC3, CHR 0xB3] @ ''n de email con el token enviado.'')),
     (''parameters'', VArr [VObj [(''$ref'', VStr ''#/components/parameters/Token'')]]),
     (''responses'', VObj [
      (''200'', VObj [(''$ref'', VStr ''#/components/responses/Status'')]),
      (''303'', VObj [(''description'', VStr (''Redirecci'' @ [CHR 0xC3, CHR 0xB3] @ ''n con el resultado.''))]),
      (''400'', VObj [(''$ref'', VStr ''#/components/responses/Error'')])])])]"

definition path_magiclink :: jvalue where
  "path_magiclink = VObj [
    (''post'', VObj [
     (''tags'', VArr [VStr ''enduser'']),
     (''summary'', VStr (''Pide un link de acceso sin contrase'' @ [CHR 0xC3, CHR 0xB1] @ ''a.'')),
     (''description'', VStr (''Respuesta id'' @ [CHR 0xC3, CHR 0xA9] @ ''ntica exista o no la cuenta.'')),
     (''requestBody'', VObj [
      (''required'', VBool True),
      (''content'', VObj [
       (''application/x-www-form-urlencoded'', VObj [
        (''schema'', VObj [
         (''type'', VStr ''object''),
         (''required'', VArr [VStr ''email'']),
         (''properties'', VObj [(''email'', VObj [(''type'', VStr ''string''), (''format'', VStr ''email'')]), (''csrf_token'', VObj [(''type'', VStr ''string'')])])])])])]),
     (''responses'', VObj [
      (''200'', VObj [(''$ref'', VStr ''#/components/responses/Status'')]),
      (''303'', VObj [(''description'', VStr (''Redirecci'' @ [CHR 0xC3, CHR 0xB3] @ ''n con acuse gen'' @ [CHR 0xC3, CHR 0xA9] @ ''rico.''))]),
      (''403'', VObj [(''$ref'', VStr ''#/components/responses/Error'')]),
      (''429'', VObj [(''$ref'', VStr ''#/components/responses/Error'')])])])]"

definition path_magiclink_confirm :: jvalue where
  "path_magiclink_confirm = VObj [
    (''get'', VObj [
     (''tags'', VArr [VStr ''enduser'']),
     (''summary'', VStr (''Consume el token de magic link y establece la sesi'' @ [CHR 0xC3, CHR 0xB3] @ ''n.'')),
     (''parameters'', VArr [VObj [(''$ref'', VStr ''#/components/parameters/Token'')]]),
     (''responses'', VObj [
      (''200'', VObj [(''$ref'', VStr ''#/components/responses/SessionEstablished'')]),
      (''303'', VObj [(''description'', VStr (''Redirecci'' @ [CHR 0xC3, CHR 0xB3] @ ''n al destino post-login.''))]),
      (''400'', VObj [(''$ref'', VStr ''#/components/responses/Error'')])])])]"

definition path_v1_webhooks_resend :: jvalue where
  "path_v1_webhooks_resend = VObj [
    (''post'', VObj [
     (''tags'', VArr [VStr ''ops'']),
     (''summary'', VStr ''Registra eventos de entrega de Resend.''),
     (''description'', VStr (''Callback p'' @ [CHR 0xC3, CHR 0xBA] @ ''blico autenticado por firma Svix. Disponible solo cuando SESAMO_RESEND_WEBHOOK_SECRET est'' @ [CHR 0xC3, CHR 0xA1] @ '' configurado; consultar capabilities.email_delivery_webhook.'')),
     (''parameters'', VArr [
      VObj [(''name'', VStr ''svix-id''), (''in'', VStr ''header''), (''required'', VBool True), (''schema'', VObj [(''type'', VStr ''string'')])],
      VObj [
       (''name'', VStr ''svix-timestamp''),
       (''in'', VStr ''header''),
       (''required'', VBool True),
       (''schema'', VObj [(''type'', VStr ''string'')])],
      VObj [
       (''name'', VStr ''svix-signature''),
       (''in'', VStr ''header''),
       (''required'', VBool True),
       (''schema'', VObj [(''type'', VStr ''string'')])]]),
     (''requestBody'', VObj [(''required'', VBool True), (''content'', VObj [(''application/json'', VObj [(''schema'', VObj [(''type'', VStr ''object'')])])])]),
     (''responses'', VObj [
      (''200'', VObj [(''$ref'', VStr ''#/components/responses/Status'')]),
      (''400'', VObj [(''$ref'', VStr ''#/components/responses/Error'')]),
      (''503'', VObj [(''$ref'', VStr ''#/components/responses/Error'')])])])]"

definition path_v1_introspect :: jvalue where
  "path_v1_introspect = VObj [
    (''post'', VObj [
     (''tags'', VArr [VStr ''service'']),
     (''summary'', VStr (''Resuelve un token de sesi'' @ [CHR 0xC3, CHR 0xB3] @ ''n opaco a una identidad.'')),
     (''description'', VStr (''Camino caliente de integraci'' @ [CHR 0xC3, CHR 0xB3] @ ''n. El token viaja en el campo token o en la cookie de sesi'' @ [CHR 0xC3, CHR 0xB3] @ ''n reenviada por el gateway. Un token inv'' @ [CHR 0xC3, CHR 0xA1] @ ''lido o vencido no es un error: responde 200 con active=false.'')),
     (''security'', VArr [VObj [(''serviceToken'', VArr [])]]),
     (''requestBody'', VObj [
      (''required'', VBool False),
      (''content'', VObj [
       (''application/x-www-form-urlencoded'', VObj [
        (''schema'', VObj [
         (''type'', VStr ''object''),
         (''properties'', VObj [
          (''token'', VObj [(''type'', VStr ''string''), (''description'', VStr (''Valor crudo de la cookie de sesi'' @ [CHR 0xC3, CHR 0xB3] @ ''n.''))])])])])])]),
     (''responses'', VObj [
      (''200'', VObj [
       (''description'', VStr (''Resultado de la introspecci'' @ [CHR 0xC3, CHR 0xB3] @ ''n.'')),
       (''headers'', VObj [
        (''X-Session-Renewed'', VObj [
         (''description'', VStr (''Presente con valor 1 cuando la renovaci'' @ [CHR 0xC3, CHR 0xB3] @ ''n rolling extendi'' @ [CHR 0xC3, CHR 0xB3] @ '' la sesi'' @ [CHR 0xC3, CHR 0xB3] @ ''n.'')),
         (''schema'', VObj [(''type'', VStr ''string'')])])]),
       (''content'', VObj [(''application/json'', VObj [(''schema'', VObj [(''$ref'', VStr ''#/components/schemas/IntrospectResponse'')])])])]),
      (''401'', VObj [(''$ref'', VStr ''#/components/responses/Error'')]),
      (''500'', VObj [(''$ref'', VStr ''#/components/responses/Error'')]),
      (''503'', VObj [(''$ref'', VStr ''#/components/responses/Error'')])])])]"

definition path_v1_sessions_revoke :: jvalue where
  "path_v1_sessions_revoke = VObj [
    (''post'', VObj [
     (''tags'', VArr [VStr ''service'']),
     (''summary'', VStr (''Revoca una sesi'' @ [CHR 0xC3, CHR 0xB3] @ ''n por token.'')),
     (''security'', VArr [VObj [(''serviceToken'', VArr [])]]),
     (''requestBody'', VObj [
      (''required'', VBool True),
      (''content'', VObj [
       (''application/x-www-form-urlencoded'', VObj [
        (''schema'', VObj [
         (''type'', VStr ''object''),
         (''required'', VArr [VStr ''token'']),
         (''properties'', VObj [(''token'', VObj [(''type'', VStr ''string'')])])])])])]),
     (''responses'', VObj [
      (''200'', VObj [(''$ref'', VStr ''#/components/responses/Status'')]),
      (''400'', VObj [(''$ref'', VStr ''#/components/responses/Error'')]),
      (''401'', VObj [(''$ref'', VStr ''#/components/responses/Error'')]),
      (''500'', VObj [(''$ref'', VStr ''#/components/responses/Error'')])])])]"

definition path_v1_admin_users_id :: jvalue where
  "path_v1_admin_users_id = VObj [
    (''get'', VObj [
     (''tags'', VArr [VStr ''admin'']),
     (''summary'', VStr ''Devuelve un usuario por id.''),
     (''security'', VArr [VObj [(''adminKey'', VArr [])]]),
     (''parameters'', VArr [VObj [(''$ref'', VStr ''#/components/parameters/UserID'')]]),
     (''responses'', VObj [
      (''200'', VObj [
       (''description'', VStr ''Usuario.''),
       (''content'', VObj [(''application/json'', VObj [(''schema'', VObj [(''$ref'', VStr ''#/components/schemas/User'')])])])]),
      (''401'', VObj [(''$ref'', VStr ''#/components/responses/Error'')]),
      (''404'', VObj [(''$ref'', VStr ''#/components/responses/Error'')]),
      (''503'', VObj [(''$ref'', VStr ''#/components/responses/Error'')])])])]"

definition path_v1_admin_users_id_revoke_sessions :: jvalue where
  "path_v1_admin_users_id_revoke_sessions = VObj [
    (''post'', VObj [
     (''tags'', VArr [VStr ''admin'']),
     (''summary'', VStr ''Revoca todas las sesiones de un usuario.''),
     (''security'', VArr [VObj [(''adminKey'', VArr [])]]),
     (''parameters'', VArr [VObj [(''$ref'', VStr ''#/components/parameters/UserID'')]]),
     (''responses'', VObj [
      (''200'', VObj [(''$ref'', VStr ''#/components/responses/Status'')]),
      (''401'', VObj [(''$ref'', VStr ''#/components/responses/Error'')]),
      (''500'', VObj [(''$ref'', VStr ''#/components/responses/Error'')])])])]"

definition path_v1_admin_users_id_disable :: jvalue where
  "path_v1_admin_users_id_disable = VObj [
    (''post'', VObj [
     (''tags'', VArr [VStr ''admin'']),
     (''summary'', VStr ''Habilita o deshabilita una cuenta.''),
     (''description'', VStr (''El campo disabled lleva el estado deseado, as'' @ [CHR 0xC3, CHR 0xAD] @ '' que el mismo endpoint deshabilita y revierte. Deshabilitar revoca adem'' @ [CHR 0xC3, CHR 0xA1] @ ''s todas las sesiones vivas.'')),
     (''security'', VArr [VObj [(''adminKey'', VArr [])]]),
     (''parameters'', VArr [VObj [(''$ref'', VStr ''#/components/parameters/UserID'')]]),
     (''requestBody'', VObj [
      (''required'', VBool True),
      (''content'', VObj [
       (''application/x-www-form-urlencoded'', VObj [
        (''schema'', VObj [
         (''type'', VStr ''object''),
         (''required'', VArr [VStr ''disabled'']),
         (''properties'', VObj [(''disabled'', VObj [(''type'', VStr ''boolean'')])])])])])]),
     (''responses'', VObj [
      (''200'', VObj [
       (''description'', VStr ''Estado aplicado.''),
       (''content'', VObj [
        (''application/json'', VObj [
         (''schema'', VObj [
          (''type'', VStr ''object''),
          (''properties'', VObj [
           (''status'', VObj [(''type'', VStr ''string'')]),
           (''user_id'', VObj [(''type'', VStr ''string'')]),
           (''disabled'', VObj [(''type'', VStr ''boolean'')])])])])])]),
      (''400'', VObj [(''$ref'', VStr ''#/components/responses/Error'')]),
      (''401'', VObj [(''$ref'', VStr ''#/components/responses/Error'')]),
      (''404'', VObj [(''$ref'', VStr ''#/components/responses/Error'')]),
      (''500'', VObj [(''$ref'', VStr ''#/components/responses/Error'')])])])]"

definition path_healthz :: jvalue where
  "path_healthz = VObj [
    (''get'', VObj [
     (''tags'', VArr [VStr ''ops'']),
     (''summary'', VStr ''Liveness: el proceso responde.''),
     (''responses'', VObj [
      (''200'', VObj [(''description'', VStr ''ok''), (''content'', VObj [(''text/plain'', VObj [(''schema'', VObj [(''type'', VStr ''string'')])])])])])])]"

definition path_readyz :: jvalue where
  "path_readyz = VObj [
    (''get'', VObj [
     (''tags'', VArr [VStr ''ops'']),
     (''summary'', VStr ''Readiness: la base responde.''),
     (''responses'', VObj [
      (''200'', VObj [(''description'', VStr ''ready''), (''content'', VObj [(''text/plain'', VObj [(''schema'', VObj [(''type'', VStr ''string'')])])])]),
      (''503'', VObj [
       (''description'', VStr ''db unavailable''),
       (''content'', VObj [(''text/plain'', VObj [(''schema'', VObj [(''type'', VStr ''string'')])])])])])])]"

definition path_metrics :: jvalue where
  "path_metrics = VObj [
    (''get'', VObj [
     (''tags'', VArr [VStr ''ops'']),
     (''summary'', VStr (''M'' @ [CHR 0xC3, CHR 0xA9] @ ''tricas en formato de exposici'' @ [CHR 0xC3, CHR 0xB3] @ ''n Prometheus.'')),
     (''responses'', VObj [
      (''200'', VObj [
       (''description'', VStr (''M'' @ [CHR 0xC3, CHR 0xA9] @ ''tricas.'')),
       (''content'', VObj [(''text/plain'', VObj [(''schema'', VObj [(''type'', VStr ''string'')])])])])])])]"

definition path_well_known_sesamo :: jvalue where
  "path_well_known_sesamo = VObj [
    (''get'', VObj [
     (''tags'', VArr [VStr ''ops'']),
     (''summary'', VStr (''Descriptor del deployment, legible por m'' @ [CHR 0xC3, CHR 0xA1] @ ''quinas.'')),
     (''responses'', VObj [
      (''200'', VObj [
       (''description'', VStr ''Descriptor.''),
       (''content'', VObj [(''application/json'', VObj [(''schema'', VObj [(''type'', VStr ''object'')])])])])])])]"

definition path_openapi_json :: jvalue where
  "path_openapi_json = VObj [
    (''get'', VObj [
     (''tags'', VArr [VStr ''ops'']),
     (''summary'', VStr ''Este documento.''),
     (''responses'', VObj [
      (''200'', VObj [
       (''description'', VStr (''Especificaci'' @ [CHR 0xC3, CHR 0xB3] @ ''n OpenAPI.'')),
       (''content'', VObj [(''application/json'', VObj [(''schema'', VObj [(''type'', VStr ''object'')])])])])])])]"

definition path_llms_txt :: jvalue where
  "path_llms_txt = VObj [
    (''get'', VObj [
     (''tags'', VArr [VStr ''ops'']),
     (''summary'', VStr (''Gu'' @ [CHR 0xC3, CHR 0xAD] @ ''a corta de integraci'' @ [CHR 0xC3, CHR 0xB3] @ ''n para agentes.'')),
     (''responses'', VObj [
      (''200'', VObj [
       (''description'', VStr ''Texto plano.''),
       (''content'', VObj [(''text/plain'', VObj [(''schema'', VObj [(''type'', VStr ''string'')])])])])])])]"

definition openapi_securitySchemes :: jvalue where
  "openapi_securitySchemes = VObj [
    (''serviceToken'', VObj [
     (''type'', VStr ''http''),
     (''scheme'', VStr ''bearer''),
     (''description'', VStr (''SESAMO_SERVICE_TOKEN. Habilita introspecci'' @ [CHR 0xC3, CHR 0xB3] @ ''n y revocaci'' @ [CHR 0xC3, CHR 0xB3] @ ''n, nunca administraci'' @ [CHR 0xC3, CHR 0xB3] @ ''n.''))]),
    (''adminKey'', VObj [
     (''type'', VStr ''http''),
     (''scheme'', VStr ''bearer''),
     (''description'', VStr ''SESAMO_ADMIN_API_KEY. Debe diferir del service token.'')])]"

definition openapi_parameters :: jvalue where
  "openapi_parameters = VObj [
    (''Provider'', VObj [
     (''name'', VStr ''provider''),
     (''in'', VStr ''path''),
     (''required'', VBool True),
     (''description'', VStr (''Nombre del provider OAuth; los habilitados est'' @ [CHR 0xC3, CHR 0xA1] @ ''n en capabilities.oauth_providers.'')),
     (''schema'', VObj [(''type'', VStr ''string''), (''enum'', VArr [VStr ''google'', VStr ''github'', VStr ''apple''])])]),
    (''Token'', VObj [
     (''name'', VStr ''token''),
     (''in'', VStr ''query''),
     (''required'', VBool True),
     (''description'', VStr ''Token de un solo uso enviado por email.''),
     (''schema'', VObj [(''type'', VStr ''string'')])]),
    (''UserID'', VObj [
     (''name'', VStr ''id''),
     (''in'', VStr ''path''),
     (''required'', VBool True),
     (''schema'', VObj [(''type'', VStr ''string''), (''format'', VStr ''uuid'')])])]"

definition openapi_responses :: jvalue where
  "openapi_responses = VObj [
    (''Error'', VObj [
     (''description'', VStr (''Error con c'' @ [CHR 0xC3, CHR 0xB3] @ ''digo estable.'')),
     (''content'', VObj [(''application/json'', VObj [(''schema'', VObj [(''$ref'', VStr ''#/components/schemas/Error'')])])])]),
    (''Status'', VObj [
     (''description'', VStr (''Acuse de la operaci'' @ [CHR 0xC3, CHR 0xB3] @ ''n.'')),
     (''content'', VObj [
      (''application/json'', VObj [(''schema'', VObj [(''type'', VStr ''object''), (''properties'', VObj [(''status'', VObj [(''type'', VStr ''string'')])])])])])]),
    (''SessionEstablished'', VObj [
     (''description'', VStr (''Sesi'' @ [CHR 0xC3, CHR 0xB3] @ ''n creada; la cookie de sesi'' @ [CHR 0xC3, CHR 0xB3] @ ''n viaja en Set-Cookie (HttpOnly, SameSite=Lax).'')),
     (''content'', VObj [
      (''application/json'', VObj [(''schema'', VObj [(''type'', VStr ''object''), (''properties'', VObj [(''status'', VObj [(''type'', VStr ''string'')])])])])])])]"

definition openapi_schemas :: jvalue where
  "openapi_schemas = VObj [
    (''Error'', VObj [
     (''type'', VStr ''object''),
     (''required'', VArr [VStr ''error'']),
     (''description'', VStr (''Forma '' @ [CHR 0xC3, CHR 0xBA] @ ''nica de error de toda respuesta JSON. El c'' @ [CHR 0xC3, CHR 0xB3] @ ''digo es estable y legible por m'' @ [CHR 0xC3, CHR 0xA1] @ ''quina; el mensaje es humano y deliberadamente gen'' @ [CHR 0xC3, CHR 0xA9] @ ''rico.'')),
     (''properties'', VObj [
      (''error'', VObj [
       (''type'', VStr ''object''),
       (''required'', VArr [VStr ''code'', VStr ''message'']),
       (''properties'', VObj [
        (''code'', VObj [
         (''type'', VStr ''string''),
         (''enum'', VArr [
          VStr ''invalid_credentials'',
          VStr ''invalid_request'',
          VStr ''rate_limited'',
          VStr ''unauthorized'',
          VStr ''forbidden'',
          VStr ''not_found'',
          VStr ''internal_error'',
          VStr ''state_mismatch'',
          VStr ''oauth_failed'',
          VStr ''csrf_failed''])]),
        (''message'', VObj [(''type'', VStr ''string'')])])])])]),
    (''IntrospectResponse'', VObj [
     (''type'', VStr ''object''),
     (''required'', VArr [VStr ''active'']),
     (''description'', VStr (''Con la forma de RFC 7662: active es el '' @ [CHR 0xC3, CHR 0xBA] @ ''nico campo que todo caller debe chequear. El resto se omite cuando active es false.'')),
     (''properties'', VObj [
      (''active'', VObj [(''type'', VStr ''boolean'')]),
      (''user_id'', VObj [(''type'', VStr ''string''), (''format'', VStr ''uuid'')]),
      (''email'', VObj [(''type'', VStr ''string''), (''format'', VStr ''email'')]),
      (''email_verified'', VObj [(''type'', VStr ''boolean'')]),
      (''name'', VObj [(''type'', VArr [VStr ''string'', VStr ''null''])]),
      (''expires_at'', VObj [(''type'', VStr ''integer''), (''format'', VStr ''int64''), (''description'', VStr ''Epoch en segundos.'')]),
      (''metadata'', VObj [(''type'', VStr ''object''), (''additionalProperties'', VBool True)])])]),
    (''LoginOptions'', VObj [
     (''type'', VStr ''object''),
     (''properties'', VObj [
      (''providers'', VObj [(''type'', VStr ''array''), (''items'', VObj [(''type'', VStr ''string'')])]),
      (''methods'', VObj [(''type'', VStr ''array''), (''items'', VObj [(''type'', VStr ''string'')])]),
      (''csrf_token'', VObj [(''type'', VStr ''string''), (''description'', VStr ''Mandarlo en el campo csrf_token o en el header X-CSRF-Token.'')]),
      (''branding'', VObj [(''type'', VStr ''object''), (''additionalProperties'', VBool True)])])]),
    (''User'', VObj [
     (''type'', VStr ''object''),
     (''properties'', VObj [
      (''id'', VObj [(''type'', VStr ''string''), (''format'', VStr ''uuid'')]),
      (''email'', VObj [(''type'', VStr ''string''), (''format'', VStr ''email'')]),
      (''email_verified'', VObj [(''type'', VStr ''boolean'')]),
      (''name'', VObj [(''type'', VArr [VStr ''string'', VStr ''null''])]),
      (''disabled'', VObj [(''type'', VStr ''boolean'')]),
      (''created_at'', VObj [(''type'', VStr ''string''), (''format'', VStr ''date-time'')]),
      (''metadata'', VObj [(''type'', VStr ''object''), (''additionalProperties'', VBool True)])])])]"

definition openapi_paths :: "(string \<times> jvalue) list" where
  "openapi_paths =
     [(''/login'', path_login),
      (''/signup'', path_signup),
      (''/logout'', path_logout),
      (''/auth/{provider}'', path_auth_provider),
      (''/auth/{provider}/callback'', path_auth_provider_callback),
      (''/reset'', path_reset),
      (''/reset/confirm'', path_reset_confirm),
      (''/verify'', path_verify),
      (''/magiclink'', path_magiclink),
      (''/magiclink/confirm'', path_magiclink_confirm),
      (''/v1/webhooks/resend'', path_v1_webhooks_resend),
      (''/v1/introspect'', path_v1_introspect),
      (''/v1/sessions/revoke'', path_v1_sessions_revoke),
      (''/v1/admin/users/{id}'', path_v1_admin_users_id),
      (''/v1/admin/users/{id}/revoke-sessions'', path_v1_admin_users_id_revoke_sessions),
      (''/v1/admin/users/{id}/disable'', path_v1_admin_users_id_disable),
      (''/healthz'', path_healthz),
      (''/readyz'', path_readyz),
      (''/metrics'', path_metrics),
      (''/.well-known/sesamo'', path_well_known_sesamo),
      (''/openapi.json'', path_openapi_json),
      (''/llms.txt'', path_llms_txt)]"

definition openapi_components :: jvalue where
  "openapi_components =
     VObj [(''securitySchemes'', openapi_securitySchemes), (''parameters'', openapi_parameters),
       (''responses'', openapi_responses), (''schemas'', openapi_schemas)]"

definition openapi_value :: "string \<Rightarrow> jvalue" where
  "openapi_value version =
     VObj [(''openapi'', VStr ''3.1.0''), (''info'', openapi_info version), (''servers'', openapi_servers), (''tags'', openapi_tags),
       (''paths'', VObj openapi_paths), (''components'', openapi_components)]"

definition openAPISpec :: string where
  "openAPISpec = Marshal (openapi_value ''0.0.0-placeholder'')"

subsection \<open>The running version\<close>

definition openAPIVersionPlaceholder :: string where
  "openAPIVersionPlaceholder = dquote # ''0.0.0-placeholder'' @ [dquote]"

text \<open>\<open>strings.Replace\<close> of the first occurrence.\<close>

fun Replace_first :: "string \<Rightarrow> string \<Rightarrow> string \<Rightarrow> string" where
  "Replace_first old new [] = (if old = [] then new else [])"
| "Replace_first old new (c # s) =
     (if HasPrefix (c # s) old then new @ drop (length old) (c # s) else c # Replace_first old new s)"

definition running_version :: "string \<Rightarrow> string" where
  "running_version version = (if version = [] then ''dev'' else version)"

definition openAPIDocument :: "string \<Rightarrow> string" where
  "openAPIDocument version =
     Replace_first openAPIVersionPlaceholder (Marshal (VStr (running_version version))) openAPISpec"

definition llmsTxt :: string where
  "llmsTxt = concat (map (\<lambda>l. l @ [CHR 0x0A])
     [''# S'' @ [CHR 0xC3, CHR 0xA9] @ ''samo'',
      [],
      ''Servidor de autenticaci'' @ [CHR 0xC3, CHR 0xB3] @ ''n con sesiones opacas en Postgres. Un deployment'',
      ''sirve un solo project (single-tenant): ninguna request lleva tenant.'',
      [],
      ''## Descubrimiento'',
      [],
      ''- GET /.well-known/sesamo  descriptor JSON y fuente de verdad: versi'' @ [CHR 0xC3, CHR 0xB3] @ ''n,'',
      ''  project, endpoints, capacidades, sesi'' @ [CHR 0xC3, CHR 0xB3] @ ''n y cat'' @ [CHR 0xC3, CHR 0xA1] @ ''logo de errores.'',
      ''- GET /openapi.json        contrato HTTP completo (OpenAPI 3.1).'',
      [],
      ''## Validar una sesi'' @ [CHR 0xC3, CHR 0xB3] @ ''n'',
      [],
      ''La sesi'' @ [CHR 0xC3, CHR 0xB3] @ ''n vive en una cookie opaca (session.cookie_name del descriptor,'',
      ''por defecto '' @ [CHR 0x22] @ ''sid'' @ [CHR 0x22] @ ''). No la parsees: no es un JWT y no lleva claims.'',
      [],
      ''    POST /v1/introspect'',
      ''    Authorization: Bearer $SESAMO_SERVICE_TOKEN'',
      ''    Content-Type: application/x-www-form-urlencoded'',
      [],
      ''    token=<valor crudo de la cookie de sesi'' @ [CHR 0xC3, CHR 0xB3] @ ''n>'',
      [],
      ''Devuelve 200 con {'' @ [CHR 0x22] @ ''active'' @ [CHR 0x22] @ '':true,'' @ [CHR 0x22] @ ''user_id'' @ [CHR 0x22] @ '','' @ [CHR 0x22] @ ''email'' @ [CHR 0x22] @ '',...} o'',
      ''{'' @ [CHR 0x22] @ ''active'' @ [CHR 0x22] @ '':false}. Un token vencido, revocado o inexistente NO es un error'',
      ''HTTP: es active=false, as'' @ [CHR 0xC3, CHR 0xAD] @ '' que cheque'' @ [CHR 0xC3, CHR 0xA1] @ '' active antes que cualquier otro'',
      ''campo. El header X-Session-Renewed: 1 avisa que la sesi'' @ [CHR 0xC3, CHR 0xB3] @ ''n se extendi'' @ [CHR 0xC3, CHR 0xB3] @ '' y'',
      ''un gateway que cachea la cookie deber'' @ [CHR 0xC3, CHR 0xAD] @ ''a refrescarla. Para cerrar sesi'' @ [CHR 0xC3, CHR 0xB3] @ ''n'',
      ''desde el backend: POST /v1/sessions/revoke, mismo Bearer, mismo token.'',
      [],
      ''## Login headless y contrato CSRF'',
      [],
      ''Todo POST que muta estado (login, signup, logout, reset, magiclink) exige'',
      ''un par CSRF de doble env'' @ [CHR 0xC3, CHR 0xAD] @ ''o. La cookie es HttpOnly, as'' @ [CHR 0xC3, CHR 0xAD] @ '' que el token se'',
      ''pide expl'' @ [CHR 0xC3, CHR 0xAD] @ ''citamente:'',
      [],
      ''1. GET /login con Accept: application/json (o ?mode=json) devuelve'',
      ''   {'' @ [CHR 0x22] @ ''providers'' @ [CHR 0x22] @ '','' @ [CHR 0x22] @ ''methods'' @ [CHR 0x22] @ '','' @ [CHR 0x22] @ ''csrf_token'' @ [CHR 0x22] @ ''} y setea la cookie CSRF.'',
      ''2. Reenvi'' @ [CHR 0xC3, CHR 0xA1] @ '' esa cookie y mand'' @ [CHR 0xC3, CHR 0xA1] @ '' el token en el header X-CSRF-Token (o en el'',
      ''   campo de formulario csrf_token).'',
      [],
      ''Sin el par la respuesta es 403 con c'' @ [CHR 0xC3, CHR 0xB3] @ ''digo csrf_failed. Para OAuth us'' @ [CHR 0xC3, CHR 0xA1],
      ''/auth/{provider} y su callback; los providers habilitados est'' @ [CHR 0xC3, CHR 0xA1] @ ''n en'',
      ''capabilities.oauth_providers.'',
      [],
      ''## Errores'',
      [],
      ''Forma '' @ [CHR 0xC3, CHR 0xBA] @ ''nica: {'' @ [CHR 0x22] @ ''error'' @ [CHR 0x22] @ '':{'' @ [CHR 0x22] @ ''code'' @ [CHR 0x22] @ '':'' @ [CHR 0x22] @ ''...'' @ [CHR 0x22] @ '','' @ [CHR 0x22] @ ''message'' @ [CHR 0x22] @ '':'' @ [CHR 0x22] @ ''...'' @ [CHR 0x22] @ ''}}. El code es estable'',
      ''y es lo que hay que programar; el message es humano y puede cambiar. Los'',
      ''diez: invalid_credentials, invalid_request, rate_limited, unauthorized,'',
      ''forbidden, not_found, internal_error, state_mismatch, oauth_failed,'',
      ''csrf_failed; el descriptor los publica en su campo '' @ [CHR 0x22] @ ''errors'' @ [CHR 0x22] @ ''. Reset y'',
      ''magiclink responden igual exista o no la cuenta: no sirven para averiguar'',
      ''si un email est'' @ [CHR 0xC3, CHR 0xA1] @ '' registrado.'',
      [],
      ''## Configuraci'' @ [CHR 0xC3, CHR 0xB3] @ ''n'',
      [],
      ''Solo variables de entorno (SESAMO_*), documentadas en .env.example del'',
      ''repositorio. No hay archivo ni API de configuraci'' @ [CHR 0xC3, CHR 0xB3] @ ''n: nada de lo que este'',
      ''servidor expone permite cambiarla. Para ver el descriptor sin levantar el'',
      ''servidor: sesamo describe.''])"

subsection \<open>The descriptor as JSON\<close>

definition endpoint_json :: "descriptorEndpoint \<Rightarrow> jvalue" where
  "endpoint_json e =
     VObj ([(''method'', VStr (ep_Method e)), (''path'', VStr (ep_Path e))]
       @ (if ep_Auth e = [] then [] else [(''auth'', VStr (ep_Auth e))]))"

definition endpoints_json :: "descriptorEndpoints \<Rightarrow> jvalue" where
  "endpoints_json e =
     VObj [(''descriptor'', endpoint_json (ep_Descriptor e)), (''login'', endpoint_json (ep_Login e)),
       (''login_submit'', endpoint_json (ep_LoginSubmit e)), (''signup'', endpoint_json (ep_Signup e)),
       (''logout'', endpoint_json (ep_Logout e)), (''oauth_start'', endpoint_json (ep_OAuthStart e)),
       (''oauth_callback'', endpoint_json (ep_OAuthCallback e)), (''reset_page'', endpoint_json (ep_ResetPage e)),
       (''reset'', endpoint_json (ep_Reset e)), (''reset_confirm_page'', endpoint_json (ep_ResetConfirmPage e)),
       (''reset_confirm'', endpoint_json (ep_ResetConfirm e)), (''magiclink'', endpoint_json (ep_MagicLink e)),
       (''magiclink_confirm'', endpoint_json (ep_MagicLinkConfirm e)), (''resend_webhook'', endpoint_json (ep_ResendWebhook e)),
       (''introspect'', endpoint_json (ep_Introspect e)), (''revoke_session'', endpoint_json (ep_RevokeSession e)),
       (''admin_user'', endpoint_json (ep_AdminUser e)), (''admin_revoke_sessions'', endpoint_json (ep_AdminRevokeSessions e)),
       (''admin_disable'', endpoint_json (ep_AdminDisable e)), (''healthz'', endpoint_json (ep_Healthz e)),
       (''readyz'', endpoint_json (ep_Readyz e)), (''metrics'', endpoint_json (ep_Metrics e)),
       (''openapi'', endpoint_json (ep_OpenAPI e)), (''llms'', endpoint_json (ep_LLMs e))]"

definition capabilities_json :: "descriptorCapabilities \<Rightarrow> jvalue" where
  "capabilities_json c =
     VObj [(''password'', VBool (cap_Password c)), (''magic_link'', VBool (cap_MagicLink c)),
       (''email_delivery_webhook'', VBool (cap_EmailDeliveryWebhook c)),
       (''oauth_providers'', VArr (map VStr (cap_OAuthProviders c))), (''signup'', VStr (cap_Signup c))]"

definition session_json :: "descriptorSession \<Rightarrow> jvalue" where
  "session_json d =
     VObj [(''cookie_name'', VStr (ds_CookieName d)), (''secure'', VBool (ds_Secure d)), (''same_site'', VStr (ds_SameSite d)),
       (''lifetime_seconds'', VNum (Itoa (ds_LifetimeSeconds d))),
       (''absolute_lifetime_seconds'', VNum (Itoa (ds_AbsoluteLifetimeSeconds d))), (''renewal_header'', VStr (ds_RenewalHeader d))]"

definition descriptor_json :: "descriptorDoc \<Rightarrow> jvalue" where
  "descriptor_json d =
     VObj [(''schema_version'', VNum (Itoa (doc_SchemaVersion d))),
       (''service'', VObj [(''name'', VStr (svc_Name (doc_Service d))), (''version'', VStr (svc_Version (doc_Service d)))]),
       (''project'', VObj [(''slug'', VStr (prj_Slug (doc_Project d))), (''display_name'', VStr (prj_DisplayName (doc_Project d)))]),
       (''endpoints'', endpoints_json (doc_Endpoints d)), (''capabilities'', capabilities_json (doc_Capabilities d)),
       (''session'', session_json (doc_Session d)), (''errors'', VArr (map VStr (doc_Errors d)))]"

text \<open>
  The documents of \<open>registerDescriptor\<close>, rendered once; \<open>other\<close> holds those of the other routes.
\<close>

definition discovery_docs :: "(string \<Rightarrow> string) \<Rightarrow> string \<Rightarrow> config \<Rightarrow> string list \<Rightarrow> string \<Rightarrow> string" where
  "discovery_docs other version c oauthProviders name =
     (if name = ''descriptor'' then Encode_json (descriptor_json (buildDescriptor version c oauthProviders))
      else if name = ''openapi'' then openAPIDocument version
      else if name = ''llms'' then llmsTxt
      else other name)"

subsection \<open>Reading a document\<close>

fun at_path :: "string list \<Rightarrow> jvalue \<Rightarrow> jvalue option" where
  "at_path [] v = Some v"
| "at_path (k # ks) v = (case v of VObj kvs \<Rightarrow> Option.bind (map_of kvs k) (at_path ks) | _ \<Rightarrow> None)"

fun members :: "jvalue option \<Rightarrow> (string \<times> jvalue) list" where
  "members (Some (VObj kvs)) = kvs"
| "members _ = []"

fun elements :: "jvalue option \<Rightarrow> jvalue list" where
  "elements (Some (VArr vs)) = vs"
| "elements _ = []"

fun text_at :: "jvalue option \<Rightarrow> string" where
  "text_at (Some (VStr s)) = s"
| "text_at _ = []"

text \<open>Every reference of a document, and where one leads.\<close>

fun references :: "jvalue \<Rightarrow> string list" where
  "references (VObj kvs) = concat (map (\<lambda>(k, v). if k = ''$ref'' then [text_at (Some v)] else references v) kvs)"
| "references (VArr vs) = concat (map references vs)"
| "references _ = []"

definition referent :: "jvalue \<Rightarrow> string \<Rightarrow> jvalue option" where
  "referent d r = (case Split CHR ''/'' r of x # ks \<Rightarrow> if x = ''#'' then at_path ks d else None | [] \<Rightarrow> None)"

definition parameters_of :: "jvalue \<Rightarrow> jvalue \<Rightarrow> jvalue list" where
  "parameters_of d op =
     map (\<lambda>q. case at_path [''$ref''] q of Some (VStr r) \<Rightarrow> the (referent d r) | _ \<Rightarrow> q) (elements (at_path [''parameters''] op))"

definition required_in :: "string \<Rightarrow> jvalue \<Rightarrow> jvalue \<Rightarrow> string list" where
  "required_in place d op =
     map (\<lambda>q. text_at (at_path [''name''] q))
       (filter (\<lambda>q. text_at (at_path [''in''] q) = place \<and> at_path [''required''] q = Some (VBool True)) (parameters_of d op))"

text \<open>The credential an operation asks for, in the terms of the descriptor.\<close>

definition credential_in :: "jvalue \<Rightarrow> jvalue \<Rightarrow> string" where
  "credential_in d op =
     (let schemes = concat (map (\<lambda>s. map fst (members (Some s))) (elements (at_path [''security''] op))) in
      if schemes = [''serviceToken''] then authServiceToken
      else if schemes = [''adminKey''] then authAdminKey
      else if set [''svix-id'', ''svix-timestamp'', ''svix-signature''] \<subseteq> set (required_in ''header'' d op) then authSvixSignature
      else [])"

definition verb :: "string \<Rightarrow> string" where
  "verb meth = (if meth = ''get'' then ''GET'' else if meth = ''post'' then ''POST'' else meth)"

definition operations :: "jvalue \<Rightarrow> (string \<times> string \<times> jvalue) list" where
  "operations d =
     concat (map (\<lambda>(path, item). map (\<lambda>(meth, op). (verb meth, path, op)) (members (Some item))) (members (at_path [''paths''] d)))"

text \<open>The parameters that a path names in braces.\<close>

definition wildcards_of :: "string \<Rightarrow> string list" where
  "wildcards_of path = map (\<lambda>s. butlast (tl s)) (filter (\<lambda>s. HasPrefix s ''{'') (Split CHR ''/'' path))"

definition described :: "jvalue \<Rightarrow> (string \<times> segment list \<times> string) list" where
  "described e =
     map (\<lambda>(_, v). (text_at (at_path [''method''] v), segments_of (text_at (at_path [''path''] v)), text_at (at_path [''auth''] v)))
       (members (at_path [''endpoints''] e))"

subsection \<open>What the contract says\<close>

lemma openapi_fields [simp]:
  "at_path [''paths''] (openapi_value v) = Some (VObj openapi_paths)"
  "at_path (''components'' # ks) (openapi_value v) = at_path ks openapi_components"
  "at_path [''info'', ''version''] (openapi_value v) = Some (VStr v)"
  by (simp_all add: openapi_value_def openapi_info_def)

definition contract :: "(string \<times> string \<times> string \<times> string list) list" where
  "contract =
     [(''GET'', ''/login'', [], []),
      (''POST'', ''/login'', [], []),
      (''POST'', ''/signup'', [], []),
      (''POST'', ''/logout'', [], []),
      (''GET'', ''/auth/{provider}'', [], [''provider'']),
      (''GET'', ''/auth/{provider}/callback'', [], [''provider'']),
      (''GET'', ''/reset'', [], []),
      (''POST'', ''/reset'', [], []),
      (''GET'', ''/reset/confirm'', [], []),
      (''POST'', ''/reset/confirm'', [], []),
      (''GET'', ''/verify'', [], []),
      (''POST'', ''/magiclink'', [], []),
      (''GET'', ''/magiclink/confirm'', [], []),
      (''POST'', ''/v1/webhooks/resend'', authSvixSignature, []),
      (''POST'', ''/v1/introspect'', authServiceToken, []),
      (''POST'', ''/v1/sessions/revoke'', authServiceToken, []),
      (''GET'', ''/v1/admin/users/{id}'', authAdminKey, [''id'']),
      (''POST'', ''/v1/admin/users/{id}/revoke-sessions'', authAdminKey, [''id'']),
      (''POST'', ''/v1/admin/users/{id}/disable'', authAdminKey, [''id'']),
      (''GET'', ''/healthz'', [], []),
      (''GET'', ''/readyz'', [], []),
      (''GET'', ''/metrics'', [], []),
      (''GET'', ''/.well-known/sesamo'', [], []),
      (''GET'', ''/openapi.json'', [], []),
      (''GET'', ''/llms.txt'', [], [])]"

lemma openapi_contract:
  "map (\<lambda>(m, p, op). (m, p, credential_in (openapi_value v) op, required_in ''path'' (openapi_value v) op)) (operations (openapi_value v)) = contract"
  by code_simp

lemma contract_routes:
  "set (map (\<lambda>(m, p, c, _). (m, segments_of p, c)) contract) =
   set (map endpoint_of (filter (\<lambda>p. snd (snd p) \<notin> {ThemeCSS, BrandStyles}) routes))"
  by code_simp

lemma contract_wildcards: "list_all (\<lambda>(m, p, c, ws). ws = wildcards_of p) contract"
  by code_simp

lemma openapi_operations:
  "set (map (\<lambda>(m, p, op). (m, segments_of p, credential_in (openapi_value v) op)) (operations (openapi_value v))) =
   set (map endpoint_of (filter (\<lambda>p. snd (snd p) \<notin> {ThemeCSS, BrandStyles}) routes))"
  unfolding contract_routes [symmetric] openapi_contract [of v, symmetric] by (simp add: case_prod_beta comp_def)

lemma openapi_wildcards:
  "list_all (\<lambda>(m, p, op). required_in ''path'' (openapi_value v) op = wildcards_of p) (operations (openapi_value v))"
  using contract_wildcards unfolding openapi_contract [of v, symmetric] by (simp add: list.pred_map comp_def case_prod_unfold)

lemmas openapi_defs =
  openapi_value_def openapi_info_def openapi_servers_def openapi_tags_def openapi_paths_def openapi_components_def
  openapi_securitySchemes_def openapi_parameters_def openapi_responses_def openapi_schemas_def
  path_login_def path_signup_def path_logout_def path_auth_provider_def path_auth_provider_callback_def path_reset_def
  path_reset_confirm_def path_verify_def path_magiclink_def path_magiclink_confirm_def path_v1_webhooks_resend_def
  path_v1_introspect_def path_v1_sessions_revoke_def path_v1_admin_users_id_def path_v1_admin_users_id_revoke_sessions_def
  path_v1_admin_users_id_disable_def path_healthz_def path_readyz_def path_metrics_def path_well_known_sesamo_def
  path_openapi_json_def path_llms_txt_def

text \<open>The objects that a reference of the contract may name.\<close>

definition referable :: "string list" where
  "referable =
     concat (map (\<lambda>kind. map (\<lambda>kv. ''#/components/'' @ kind @ CHR ''/'' # fst kv) (members (at_path [kind] openapi_components)))
       [''parameters'', ''responses'', ''schemas''])"

lemma referable_names:
  "referable =
     [''#/components/parameters/Provider'', ''#/components/parameters/Token'', ''#/components/parameters/UserID'',
      ''#/components/responses/Error'', ''#/components/responses/Status'', ''#/components/responses/SessionEstablished'',
      ''#/components/schemas/Error'', ''#/components/schemas/IntrospectResponse'', ''#/components/schemas/LoginOptions'',
      ''#/components/schemas/User'']"
  by code_simp

lemma openapi_references: "list_all (\<lambda>r. r \<in> set referable) (references (openapi_value v))"
  unfolding referable_names by (simp add: openapi_defs)

lemma referable_defined: "list_all (\<lambda>r. referent (openapi_value v) r \<noteq> None) referable"
  unfolding referable_names
  by (simp add: referent_def del: at_path.simps)
    (simp add: openapi_components_def openapi_parameters_def openapi_responses_def openapi_schemas_def)

lemma openapi_error_codes:
  "at_path [''schemas'', ''Error'', ''properties'', ''error'', ''properties'', ''code'', ''enum''] openapi_components =
     Some (VArr (map (VStr \<circ> code_string) stableErrorCodes))"
  by code_simp

text \<open>Valid UTF-8, for a text that is ASCII but for the two-byte letters of Spanish.\<close>

fun latin :: "string \<Rightarrow> bool" where
  "latin [] = True"
| "latin (Char a b c d e f g False # s) = latin s"
| "latin (Char a b c d e f g True # s) =
     (Char a b c d e f g True = CHR 0xC3 \<and> (case s of Char a b c d e f False True # t \<Rightarrow> latin t | _ \<Rightarrow> False))"

lemma cont_char: "cont (Char a b c d e f False True)"
  by (cases a; cases b; cases c; cases d; cases e; cases f; simp add: cont_def)

lemma ascii_char: "ord (Char a b c d e f g False) < 0x80"
  by (cases a; cases b; cases c; cases d; cases e; cases f; cases g; simp)

lemma latin_valid: "latin s \<Longrightarrow> valid_utf8 s"
proof (induction s rule: latin.induct)
  case (2 a b c d e f g s)
  then show ?case using ascii_char [of a b c d e f g] by (simp add: valid_utf8_def)
next
  case (3 a b c d e f g s)
  then obtain a' b' c' d' e' f' t where s: "s = Char a' b' c' d' e' f' False True # t" and "latin t"
    and x: "Char a b c d e f g True = CHR 0xC3"
    by (auto split: list.splits char.splits bool.splits)
  then have "valid_utf8 t" using 3 by auto
  then show ?case unfolding x s by (simp add: valid_utf8_def cont_char)
qed (simp add: valid_utf8_def)

fun latin_strings :: "jvalue \<Rightarrow> bool" where
  "latin_strings (VStr s) = latin s"
| "latin_strings (VArr vs) = list_all latin_strings vs"
| "latin_strings (VObj kvs) = list_all (\<lambda>(k, v). latin k \<and> latin_strings v) kvs"
| "latin_strings _ = True"

lemma latin_strings_valid: "latin_strings v \<Longrightarrow> valid_strings v"
  by (induction v) (auto simp: list_all_iff latin_valid)

lemma openapi_latin: "latin version \<Longrightarrow> latin_strings (openapi_value version)"
  by (simp add: openapi_defs)

subsection \<open>The substitution of the version\<close>

definition before_version :: string where
  "before_version =
     CHR ''{'' # quote_json ''openapi'' @ CHR '':'' # quote_json ''3.1.0'' @ CHR '','' # quote_json ''info'' @ '':{'' @
     quote_json ''title'' @ CHR '':'' # quote_json (''S'' @ [CHR 0xC3, CHR 0xA9] @ ''samo'') @ CHR '','' # quote_json ''version'' @ '':''"

lemma before_version_text:
  "before_version = (let q = [dquote] in ''{'' @ q @ ''openapi'' @ q @ '':'' @ q @ ''3.1.0'' @ q @ '','' @ q @ ''info'' @ q @ '':{'' @ q @ ''title'' @ q @ '':'' @ q @
     ''S'' @ [CHR 0xC3, CHR 0xA9] @ ''samo'' @ q @ '','' @ q @ ''version'' @ q @ '':'')"
  by code_simp

lemma Marshal_openapi: "\<exists>s. \<forall>v. Marshal (openapi_value v) = before_version @ quote_json v @ s"
  by (simp add: openapi_value_def openapi_info_def before_version_def)

lemma quoted_placeholder: "quote_json ''0.0.0-placeholder'' = openAPIVersionPlaceholder"
  by code_simp

lemma placeholder_found:
  "Replace_first openAPIVersionPlaceholder new (before_version @ openAPIVersionPlaceholder @ s) = before_version @ new @ s"
  by (simp add: before_version_text openAPIVersionPlaceholder_def HasPrefix_def dquote_def)

lemma openAPIDocument_value: "openAPIDocument version = Marshal (openapi_value (running_version version))"
proof -
  obtain s where "\<forall>v. Marshal (openapi_value v) = before_version @ quote_json v @ s" using Marshal_openapi by blast
  then show ?thesis by (simp add: openAPIDocument_def openAPISpec_def quoted_placeholder placeholder_found)
qed

lemma openapi_parts:
  "valid_strings openapi_servers" "valid_strings openapi_tags" "valid_strings (VObj openapi_paths)" "valid_strings openapi_components"
  using latin_strings_valid [OF openapi_latin [of "[]"]] by (simp_all add: openapi_value_def)

lemma sanitize_openapi: "sanitize (openapi_value v) = openapi_value (to_valid v)"
proof -
  have "valid_strings (openapi_info [])"
    using latin_strings_valid [OF openapi_latin [of "[]"]] by (simp add: openapi_value_def)
  then have "sanitize (openapi_info v) = openapi_info (to_valid v)"
    by (simp add: openapi_info_def valid_text)
  with openapi_parts [THEN sanitize_valid] show ?thesis by (simp add: openapi_value_def valid_text latin_valid)
qed

lemma openapi_shape: "plain_numbers (openapi_value v)" "depth (openapi_value v) \<le> maxNestingDepth"
  by (simp_all add: openapi_defs maxNestingDepth_def)

subsection \<open>What is served\<close>

lemma served:
  "mux doc s dr ''GET'' [''.well-known'', ''sesamo''] r = retM (text_response 200 [(''Cache-Control'', ''public, max-age=300'')] (doc ''descriptor''))"
  "mux doc s dr ''GET'' [''openapi.json''] r =
     retM (text_response 200 [(''Content-Type'', ''application/json; charset=utf-8''), (''Cache-Control'', ''public, max-age=300'')] (doc ''openapi''))"
  "mux doc s dr ''GET'' [''llms.txt''] r =
     retM (text_response 200 [(''Content-Type'', ''text/plain; charset=utf-8''), (''Cache-Control'', ''public, max-age=300'')] (doc ''llms''))"
  by (simp_all add: mux_def routes_def register_defs matches_def method_matches_def handle_def Let_def)

lemma described_endpoints:
  "described (sanitize (VObj [(''endpoints'', endpoints_json published_endpoints)])) =
   map (\<lambda>e. (ep_Method e, segments_of (ep_Path e), ep_Auth e)) (endpoint_list published_endpoints)"
  by code_simp

lemma described_descriptor: "described (sanitize (descriptor_json (buildDescriptor v c ps))) =
   map (\<lambda>e. (ep_Method e, segments_of (ep_Path e), ep_Auth e)) (endpoint_list published_endpoints)"
  unfolding described_endpoints [symmetric]
  by (simp add: described_def descriptor_json_def buildDescriptor_def valid_text latin_valid)

lemma descriptor_fields:
  "at_path [''service'', ''version''] (sanitize (descriptor_json (buildDescriptor v c ps))) = Some (VStr (to_valid (running_version v)))"
  "at_path [''errors''] (sanitize (descriptor_json (buildDescriptor v c ps))) = Some (VArr (map (VStr \<circ> code_string) stableErrorCodes))"
  by (simp_all add: descriptor_json_def buildDescriptor_def running_version_def valid_text latin_valid stableErrorCodes_def)

lemma descriptor_shape:
  "plain_numbers (descriptor_json d)" "depth (descriptor_json d) \<le> maxNestingDepth"
proof -
  have "depth (VArr (map VStr xs)) \<le> 1" for xs by (induction xs) simp_all
  then show "plain_numbers (descriptor_json d)" "depth (descriptor_json d) \<le> maxNestingDepth"
    by (auto simp: descriptor_json_def endpoints_json_def endpoint_json_def capabilities_json_def session_json_def maxNestingDepth_def
        list_all_iff)
qed

lemma every_code_listed: "set stableErrorCodes = UNIV"
proof -
  have "k \<in> set stableErrorCodes" for k by (cases k) (simp_all add: stableErrorCodes_def)
  then show ?thesis by auto
qed

text \<open>
  C31. The discovery documents agree with each other and with the server, up to three routes, and
  hold no secret. Two deployments that agree on the public part of their configuration serve the
  same documents, whatever their keys, tokens, client secrets, database and mail settings are and
  in whatever order the provider map is iterated. Substituting the running version, whatever bytes
  it has, keeps the contract JSON that parses (that its literal parses before is how it is
  modelled: as the JSON value it denotes), the descriptor is JSON that parses, both name the same
  running version and list the same error codes, all that there are; \<open>sesamo describe\<close> prints
  the same descriptor. The contract has an operation, with the credential it asks for, for
  every route of the tables but the two stylesheets, and for nothing else; the descriptor has an
  entry for the same routes but the verification link \<open>GET /verify\<close>, which it leaves out. Every
  wildcard is a required path parameter and every reference of the contract resolves.
\<close>

theorem discovery_documents_agree:
  assumes "public_view c = public_view c'"
    and "buildProviders lib c = Inr reg" and "buildProviders lib c' = Inr reg'"
    and "lists_names order reg" and "lists_names order' reg'"
  shows "\<exists>docs d e hs hs'. docs = discovery_docs other version c (order reg) \<and> docs = discovery_docs other version c' (order' reg') \<and>
    mux docs s dr ''GET'' [''openapi.json''] r = retM (text_response 200 hs (docs ''openapi'')) \<and> Unmarshal (docs ''openapi'') = Some d \<and>
    mux docs s dr ''GET'' [''.well-known'', ''sesamo''] r = retM (text_response 200 hs' (docs ''descriptor'')) \<and>
    Unmarshal (docs ''descriptor'') = Some e \<and>
    (\<exists>doc. DescribeJSON lib order version c = Inr doc \<and> e = sanitize (descriptor_json doc)) \<and>
    at_path [''info'', ''version''] d = Some (VStr (to_valid (running_version version))) \<and>
    at_path [''service'', ''version''] e = Some (VStr (to_valid (running_version version))) \<and>
    at_path [''components'', ''schemas'', ''Error'', ''properties'', ''error'', ''properties'', ''code'', ''enum''] d =
      Some (VArr (map (VStr \<circ> code_string) stableErrorCodes)) \<and>
    at_path [''errors''] e = Some (VArr (map (VStr \<circ> code_string) stableErrorCodes)) \<and> set stableErrorCodes = UNIV \<and>
    set (map (\<lambda>(m, p, op). (m, segments_of p, credential_in d op)) (operations d)) =
      set (map endpoint_of (filter (\<lambda>p. snd (snd p) \<notin> {ThemeCSS, BrandStyles}) routes)) \<and>
    set (described e) = set (map endpoint_of (filter (\<lambda>p. snd (snd p) \<notin> {ThemeCSS, BrandStyles, VerifyLink}) routes)) \<and>
    list_all (\<lambda>(m, p, op). required_in ''path'' d op = wildcards_of p) (operations d) \<and>
    list_all (\<lambda>r. referent d r \<noteq> None) (references d)"
proof -
  let ?v = "to_valid (running_version version)"
  define docs where "docs = discovery_docs other version c (order reg)"
  define d where "d = openapi_value ?v"
  define e where "e = sanitize (descriptor_json (buildDescriptor version c (order reg)))"
  have "docs = discovery_docs other version c' (order' reg')"
    using same_descriptor [OF assms] by (simp add: docs_def discovery_docs_def fun_eq_iff)
  moreover have "Unmarshal (docs ''openapi'') = Some d"
    using Unmarshal_of_Marshal [OF openapi_shape, of "[]"]
    by (simp add: docs_def discovery_docs_def openAPIDocument_value sanitize_openapi d_def)
  moreover have "Unmarshal (docs ''descriptor'') = Some e"
    using Unmarshal_of_Marshal [OF descriptor_shape, of "[CHR 0x0A]"]
    by (simp add: docs_def discovery_docs_def Encode_json_def json_space_def e_def)
  moreover have "list_all (\<lambda>r. referent d r \<noteq> None) (references d)"
    using openapi_references referable_defined unfolding d_def list_all_iff by blast
  moreover have "set (described e) = set (map endpoint_of (filter (\<lambda>p. snd (snd p) \<notin> {ThemeCSS, BrandStyles, VerifyLink}) routes))"
    unfolding e_def described_descriptor by (rule published_paths)
  moreover have "DescribeJSON lib order version c = Inr (buildDescriptor version c (order reg))"
    using assms(2) by (simp add: DescribeJSON_def)
  moreover note openapi_operations [of ?v, folded d_def] openapi_wildcards [of ?v, folded d_def]
    descriptor_fields [of version c "order reg", folded e_def]
  moreover have "at_path [''info'', ''version''] d = Some (VStr ?v)"
    and "at_path [''components'', ''schemas'', ''Error'', ''properties'', ''error'', ''properties'', ''code'', ''enum''] d =
      Some (VArr (map (VStr \<circ> code_string) stableErrorCodes))"
    by (simp_all only: d_def openapi_fields openapi_error_codes)
  ultimately show ?thesis using served [of docs s dr r] every_code_listed docs_def e_def by blast
qed

definition bare_lib :: idp_lib where
  "bare_lib = \<lparr>sha256 = id, VerifyPKCS1v15 = (\<lambda>k d s. s = d), ecdsa_Sign = (\<lambda>_ _. None), pem_Decode = (\<lambda>_. None),
     ParsePKCS8PrivateKey = (\<lambda>_. None), json_quote = id, json_header = (\<lambda>_. None), json_claims = (\<lambda>_. None),
     json_jwks = (\<lambda>_. None), json_id_token = (\<lambda>_. None), json_access_token = (\<lambda>_. None), json_user = (\<lambda>_. None),
     json_emails = (\<lambda>_. None)\<rparr>"

definition bare_config :: config where "bare_config = env_config (\<lambda>_. [])"

lemma documents_exist:
  "\<exists>docs d e hs hs'. docs = A \<and> docs = B \<and> M docs hs \<and> U docs d \<and> M' docs hs' \<and> U' docs e \<and> D e \<and> V d \<and> R d e
    \<Longrightarrow> A = B \<and> (\<exists>d. U A d \<and> V d)"
  by blast

theorem discovery_documents_agree_witness:
  "discovery_docs id ''1'' (bare_config\<lparr>ServiceToken := ''s1'', AdminAPIKey := ''k1''\<rparr>) [] =
     discovery_docs id ''1'' (bare_config\<lparr>ServiceToken := ''s2'', AdminAPIKey := ''k2''\<rparr>) [] \<and>
   (\<exists>d. Unmarshal (discovery_docs id ''1'' (bare_config\<lparr>ServiceToken := ''s1'', AdminAPIKey := ''k1''\<rparr>) [] ''openapi'') = Some d \<and>
     at_path [''info'', ''version''] d = Some (VStr ''1''))"
proof -
  have off: "\<not> oauth_Enabled (Google bare_config)" "\<not> oauth_Enabled (GitHub bare_config)" "\<not> apple_Enabled (Apple bare_config)"
    by (simp_all add: bare_config_def env_config_def env_oauth_def env_apple_def oauth_Enabled_def apple_Enabled_def getenv_def
        Let_def TrimSpace_def)
  have built: "buildProviders bare_lib (bare_config\<lparr>ServiceToken := x, AdminAPIKey := y\<rparr>) = Inr NewRegistry" for x y
    using off by (simp add: buildProviders_def)
  have pv: "public_view (bare_config\<lparr>ServiceToken := ''s1'', AdminAPIKey := ''k1''\<rparr>) =
      public_view (bare_config\<lparr>ServiceToken := ''s2'', AdminAPIKey := ''k2''\<rparr>)" by (simp add: public_view_def)
  have ln: "lists_names (\<lambda>_. []) NewRegistry" by (simp add: lists_names_def Names_def NewRegistry_def)
  note agree = discovery_documents_agree [OF pv built built ln ln, of id "''1''"]
  have v: "to_valid (running_version ''1'') = ''1''" by (simp add: running_version_def valid_text latin_valid)
  from documents_exist [OF agree] show ?thesis unfolding v .
qed

end
