(* ===== verification/Import_File.thy ===== *)
theory Import_File
  imports Users Json
begin

text \<open>
  The import command on the bytes of an export (\<open>cmd/sesamo/import.go\<close>): \<open>bufio.Scanner\<close> with its
  token limit, trimming, decoding of a line into \<open>auth0Record\<close> by the rules of \<open>encoding/json\<close>
  (exact name first, then up to case folding; \<open>null\<close> leaves a field alone; a value of another type
  fails the line; the last duplicate wins), and the loop of \<open>Users\<close> over the lines. The command line,
  the configuration and opening the file are the caller's. A file is the bytes read from it and
  whether reading then failed. Shown: what becomes of every line, on both exits, and that
  exported accounts are read back as they were written.
\<close>

subsection \<open>Lines\<close>

definition maxTokenSize :: nat where "maxTokenSize = 8 * 1024 * 1024"

text \<open>The bytes up to a newline, and what follows it, if there is one.\<close>

fun cut_line :: "string \<Rightarrow> string \<times> string option" where
  "cut_line [] = ([], None)"
| "cut_line (c # s) = (if c = CHR 0x0A then ([], Some s) else apfst ((#) c) (cut_line s))"

definition dropCR :: "string \<Rightarrow> string" where
  "dropCR l = (if l \<noteq> [] \<and> last l = CHR 0x0D then butlast l else l)"

lemma cut_line_shorter: "cut_line s = (l, Some t) \<Longrightarrow> length t < length s"
  by (induction s arbitrary: l) (auto simp: apfst_def map_prod_def split: if_splits prod.splits)

text \<open>
  The tokens of the scanner and whether it gave up: a line (with its carriage return) that fills
  the buffer before its newline is seen is \<open>ErrTooLong\<close>. An empty last line is no token.
\<close>

function scan_lines :: "nat \<Rightarrow> string \<Rightarrow> string list \<times> bool" where
  "scan_lines limit s =
     (case cut_line s of
        (l, None) \<Rightarrow> if limit \<le> length l then ([], True) else (if l = [] then [] else [dropCR l], False)
      | (l, Some t) \<Rightarrow> if limit \<le> length l then ([], True) else apfst ((#) (dropCR l)) (scan_lines limit t))"
  by pat_completeness auto
termination
  by (relation "measure (\<lambda>(limit, s). length s)") (auto dest: cut_line_shorter [OF sym])

declare scan_lines.simps [simp del]

text \<open>\<open>strings.TrimSpace\<close> on UTF-8: the white space of Unicode.\<close>

fun rune_bytes :: "rune \<Rightarrow> string" where
  "rune_bytes (Ascii c) = [c]" | "rune_bytes (Multi m) = m" | "rune_bytes (Invalid c) = [c]"

definition wide_spaces :: "nat list list" where
  "wide_spaces = [[0xC2, 0x85], [0xC2, 0xA0], [0xE1, 0x9A, 0x80], [0xE2, 0x80, 0xA8], [0xE2, 0x80, 0xA9], [0xE2, 0x80, 0xAF],
     [0xE2, 0x81, 0x9F], [0xE3, 0x80, 0x80]] @ map (\<lambda>n. [0xE2, 0x80, n]) [0x80..<0x8B]"

fun space_rune :: "rune \<Rightarrow> bool" where
  "space_rune (Ascii c) = is_space c"
| "space_rune (Multi m) = (map ord m \<in> set wide_spaces)"
| "space_rune (Invalid c) = False"

definition trim_line :: "string \<Rightarrow> string" where
  "trim_line s = concat (map rune_bytes (rev (dropWhile space_rune (rev (dropWhile space_rune (runes s))))))"

subsection \<open>Decoding a line\<close>

text \<open>Names are folded as \<open>encoding/json\<close> does: upper case, and the two letters that fold to ASCII.\<close>

fun fold_rune :: "rune \<Rightarrow> string" where
  "fold_rune (Ascii c) = (if 97 \<le> ord c \<and> ord c \<le> 122 then [char_of (ord c - 32)] else [c])"
| "fold_rune (Multi m) = (if map ord m = [0xC5, 0xBF] then ''S'' else if map ord m = [0xE2, 0x84, 0xAA] then ''K'' else m)"
| "fold_rune (Invalid c) = replacement"

definition fold_name :: "string \<Rightarrow> string" where
  "fold_name s = concat (map fold_rune (runes s))"

datatype field = FEmail | FEmailVerified | FPasswordHash | FPasswordHash2 | FName

definition field_names :: "(string \<times> field) list" where
  "field_names = [(''email'', FEmail), (''email_verified'', FEmailVerified), (''passwordHash'', FPasswordHash),
     (''password_hash'', FPasswordHash2), (''name'', FName)]"

definition field_of :: "string \<Rightarrow> field option" where
  "field_of key =
     (case map_of field_names key of
        Some f \<Rightarrow> Some f
      | None \<Rightarrow> map_of (map (apfst fold_name) field_names) (fold_name key))"

definition empty_record :: auth0Record where
  "empty_record = \<lparr>a0_Email = [], a0_EmailVerified = False, a0_PasswordHash = [], a0_PasswordHash2 = [], a0_Name = None\<rparr>"

text \<open>Storing a value in a field; \<open>None\<close> when the value has the wrong type.\<close>

fun store_field :: "field \<Rightarrow> jvalue \<Rightarrow> auth0Record \<Rightarrow> auth0Record option" where
  "store_field FName VNull r = Some (r\<lparr>a0_Name := None\<rparr>)"
| "store_field f VNull r = Some r"
| "store_field FEmail (VStr s) r = Some (r\<lparr>a0_Email := s\<rparr>)"
| "store_field FEmailVerified (VBool b) r = Some (r\<lparr>a0_EmailVerified := b\<rparr>)"
| "store_field FPasswordHash (VStr s) r = Some (r\<lparr>a0_PasswordHash := s\<rparr>)"
| "store_field FPasswordHash2 (VStr s) r = Some (r\<lparr>a0_PasswordHash2 := s\<rparr>)"
| "store_field FName (VStr s) r = Some (r\<lparr>a0_Name := Some s\<rparr>)"
| "store_field f v r = None"

fun store_members :: "(string \<times> jvalue) list \<Rightarrow> auth0Record \<Rightarrow> auth0Record option" where
  "store_members [] r = Some r"
| "store_members ((k, v) # kvs) r =
     (case field_of k of
        None \<Rightarrow> store_members kvs r
      | Some f \<Rightarrow> Option.bind (store_field f v r) (store_members kvs))"

definition decode_record :: "string \<Rightarrow> auth0Record option" where
  "decode_record raw =
     (case Unmarshal raw of
        Some (VObj kvs) \<Rightarrow> store_members kvs empty_record
      | Some VNull \<Rightarrow> Some empty_record
      | _ \<Rightarrow> None)"

text \<open>A line with the identifiers drawn for it.\<close>

definition read_line :: "string \<Rightarrow> string \<times> string \<Rightarrow> line" where
  "read_line l uids =
     (let raw = trim_line l in
      if raw = [] then Blank
      else case decode_record raw of None \<Rightarrow> Malformed | Some r \<Rightarrow> Record (fst uids) (snd uids) r)"

subsection \<open>The command\<close>

text \<open>The loop up to the end of the input: what is still pending, and the tally.\<close>

fun consume_lines :: "gotime \<Rightarrow> line list \<Rightarrow> pending_row list \<Rightarrow> tally \<Rightarrow> (pending_row list \<times> tally) dbm" where
  "consume_lines dbnow [] pending t = retM (pending, t)"
| "consume_lines dbnow (Blank # ls) pending t = consume_lines dbnow ls pending t"
| "consume_lines dbnow (Malformed # ls) pending t = consume_lines dbnow ls pending (t\<lparr>n_failed := n_failed t + 1\<rparr>)"
| "consume_lines dbnow (Record uid1 uid2 r # ls) pending t =
     (if a0_Email r = [] then consume_lines dbnow ls pending (t\<lparr>n_failed := n_failed t + 1\<rparr>)
      else
        let pending' = pending @ [(uid1, uid2, \<lparr>im_Email = a0_Email r,
              im_EmailVerified = a0_EmailVerified r, im_PasswordHash = hash r, im_Name = a0_Name r\<rparr>)]
        in if importChunkSize \<le> length pending'
           then bindM (flush dbnow pending' t) (\<lambda>t'. consume_lines dbnow ls [] t')
           else consume_lines dbnow ls pending' t)"

text \<open>
  \<open>limit\<close> is the size of the scanner's buffer, \<open>read_fails\<close> that reading ends with an error. Then the
  command returns at once: the rows still pending are not imported.
\<close>

definition import_file :: "nat \<Rightarrow> gotime \<Rightarrow> (nat \<Rightarrow> string \<times> string) \<Rightarrow> string \<Rightarrow> bool \<Rightarrow> (nat \<times> tally) dbm" where
  "import_file limit dbnow uids contents read_fails =
     (let (ls, too_long) = scan_lines limit contents in
      bindM (consume_lines dbnow (map2 read_line ls (map uids [0..<length ls])) [] \<lparr>n_created = 0, n_skipped = 0, n_failed = 0\<rparr>)
        (\<lambda>(pending, t).
          if too_long \<or> read_fails then retM (1, t)
          else bindM (flush dbnow pending t) (\<lambda>t'. retM (if n_failed t' > 0 then 1 else 0, t'))))"

subsection \<open>What becomes of every line\<close>

lemma import_lines_consume:
  "import_lines dbnow ls pending t = bindM (consume_lines dbnow ls pending t) (\<lambda>(p, t'). flush dbnow p t')"
proof (induction dbnow ls pending t rule: import_lines.induct)
  case (4 dbnow uid1 uid2 r ls pending t)
  then show ?case by (simp add: Let_def) (auto simp: bindM_def fun_eq_iff split: prod.splits sum.splits)
qed (simp_all add: bindM_def retM_def)

text \<open>On a file that is read to its end, the command is \<open>runImport\<close> on its lines.\<close>

lemma import_file_clean:
  assumes "scan_lines limit contents = (ls, False)"
  shows "import_file limit dbnow uids contents False = runImport dbnow (map2 read_line ls (map uids [0..<length ls]))"
  by (simp add: import_file_def assms runImport_def import_lines_consume bindM_def fun_eq_iff split: prod.splits sum.splits)

text \<open>The lines consumed are the counted ones and the pending ones, and fewer than a chunk are pending.\<close>

definition consumed :: "nat \<Rightarrow> pending_row list \<Rightarrow> tally \<Rightarrow> world \<Rightarrow> (err + pending_row list \<times> tally) \<times> world \<Rightarrow> bool" where
  "consumed k ps t w out \<longleftrightarrow> (\<exists>ps' t' us. fst out = Inr (ps', t') \<and> tally_total t' + length ps' = tally_total t + length ps + k \<and>
     n_created t' = n_created t + length us \<and> wdb (snd out) = (wdb w)\<lparr>users := users (wdb w) @ us\<rparr> \<and> length ps' < importChunkSize)"

lemma consumed_after:
  assumes "fst r = Inr t1" and "tally_total t1 = tally_total t + length ps" and "n_created t1 = n_created t + length us"
    and "wdb (snd r) = (wdb w)\<lparr>users := users (wdb w) @ us\<rparr>" and "consumed k [] t1 (snd r) out"
  shows "consumed k ps t w out"
proof -
  from assms(5) obtain ps' t' vs where "fst out = Inr (ps', t')" "tally_total t' + length ps' = tally_total t1 + k"
    "n_created t' = n_created t1 + length vs" "wdb (snd out) = (wdb (snd r))\<lparr>users := users (wdb (snd r)) @ vs\<rparr>"
    "length ps' < importChunkSize" by (auto simp: consumed_def)
  with assms(2-4) show ?thesis unfolding consumed_def
    by (intro exI [of _ ps'] exI [of _ t'] exI [of _ "us @ vs"]) simp
qed

lemma consumed_failed:
  "consumed k ps (t\<lparr>n_failed := n_failed t + 1\<rparr>) w out \<Longrightarrow> consumed (Suc k) ps t w out"
  by (auto simp: consumed_def tally_total_def)

lemma consume_lines_consumed:
  "length ps < importChunkSize \<Longrightarrow> consumed (counted ls) ps t w (consume_lines dbnow ls ps t w)"
proof (induction dbnow ls ps t arbitrary: w rule: consume_lines.induct)
  case (1 dbnow pending t)
  then show ?case by (auto simp: consumed_def retM_def counted_def intro: exI [of _ "[]"])
next
  case (2 dbnow ls pending t)
  then show ?case by (simp add: counted_def)
next
  case (3 dbnow ls pending t)
  from consumed_failed [OF "3.IH" [OF "3.prems"]] show ?case by (simp add: counted_def)
next
  case (4 dbnow uid1 uid2 r ls ps t)
  let ?p = "ps @ [(uid1, uid2, \<lparr>im_Email = a0_Email r,
              im_EmailVerified = a0_EmailVerified r, im_PasswordHash = hash r, im_Name = a0_Name r\<rparr>)]"
  consider "a0_Email r = []" | "a0_Email r \<noteq> []" "importChunkSize \<le> length ?p"
    | "a0_Email r \<noteq> []" "\<not> importChunkSize \<le> length ?p" by blast
  then show ?case
  proof cases
    case 1
    from consumed_failed [OF "4.IH"(1) [OF 1 "4.prems"]] 1 show ?thesis by (simp add: counted_def)
  next
    case 2
    obtain t1 w1 us where f: "flush dbnow ?p t w = (Inr t1, w1)" "tally_total t1 = tally_total t + length ?p"
      "n_created t1 = n_created t + length us" "wdb w1 = (wdb w)\<lparr>users := users (wdb w) @ us\<rparr>"
      using flush_tallied [of ?p t w dbnow] by (auto simp: tallied_def) (metis prod.collapse)
    have "consumed (counted ls) [] t1 w1 (consume_lines dbnow ls [] t1 w1)"
      using "4.IH"(2) [OF 2(1) refl 2(2), of t1 w1] by (simp add: importChunkSize_def)
    with f consumed_after [of "(Inr t1, w1)" t1 t ?p us w "counted ls"]
    have "consumed (counted ls) ?p t w (consume_lines dbnow ls [] t1 w1)" by simp
    with 2 f(1) show ?thesis by (simp add: Let_def counted_def consumed_def)
  next
    case 3
    from "4.IH"(3) [OF 3(1) refl 3(2), of w] 3 show ?thesis by (simp add: Let_def counted_def consumed_def)
  qed
qed

lemma counted_lines:
  "length us = length ls \<Longrightarrow> counted (map2 read_line ls us) = length (filter (\<lambda>l. trim_line l \<noteq> []) ls)"
  by (induction ls us rule: list_induct2') (auto simp: counted_def read_line_def Let_def split: option.splits)

text \<open>
  C18. The import command accounts for every line of the export, whatever bytes it holds. In every
  world (any batch or row may fail) it ends; the number it reports as created is the number of
  rows it added, and stored accounts are untouched. When the file is read to its end, its three
  counters add up to the number of lines that are not blank, and the exit code is 0 exactly
  when nothing failed. When reading fails or a line does not fit the buffer, the exit code is 1,
  and fewer than a chunk of the lines read before are left out: they are in no counter.
\<close>

theorem import_file_accounts_for_every_line:
  "\<exists>code t w' us ls too_long k. scan_lines limit contents = (ls, too_long) \<and>
     import_file limit dbnow uids contents read_fails w = (Inr (code, t), w') \<and>
     wdb w' = (wdb w)\<lparr>users := users (wdb w) @ us\<rparr> \<and> n_created t = length us \<and>
     tally_total t + k = length (filter (\<lambda>l. trim_line l \<noteq> []) ls) \<and> k < importChunkSize \<and>
     (if too_long \<or> read_fails then code = 1 else k = 0 \<and> (code = 0 \<longleftrightarrow> n_failed t = 0))"
proof -
  let ?t0 = "\<lparr>n_created = 0, n_skipped = 0, n_failed = 0\<rparr>"
  obtain ls too_long where s: "scan_lines limit contents = (ls, too_long)" by fastforce
  let ?ls = "map2 read_line ls (map uids [0..<length ls])"
  have n: "counted ?ls = length (filter (\<lambda>l. trim_line l \<noteq> []) ls)" by (rule counted_lines) simp
  have "consumed (counted ?ls) [] ?t0 w (consume_lines dbnow ?ls [] ?t0 w)"
    by (rule consume_lines_consumed) (simp add: importChunkSize_def)
  then obtain ps t us w1 where c: "consume_lines dbnow ?ls [] ?t0 w = (Inr (ps, t), w1)"
    and t: "tally_total t + length ps = counted ?ls" "n_created t = length us" "length ps < importChunkSize"
    and db: "wdb w1 = (wdb w)\<lparr>users := users (wdb w) @ us\<rparr>"
    by (auto simp: consumed_def tally_total_def [of ?t0]) (metis prod.collapse)
  show ?thesis
  proof (cases "too_long \<or> read_fails")
    case True
    with s c have "import_file limit dbnow uids contents read_fails w = (Inr (1, t), w1)"
      by (simp add: import_file_def bindM_def retM_def)
    with True s t(2,3) t(1) [unfolded n] db show ?thesis
      by (intro exI [of _ 1] exI [of _ t] exI [of _ w1] exI [of _ us] exI [of _ ls] exI [of _ too_long] exI [of _ "length ps"]) simp
  next
    case False
    obtain t2 w2 vs where f: "flush dbnow ps t w1 = (Inr t2, w2)" "tally_total t2 = tally_total t + length ps"
      "n_created t2 = n_created t + length vs" "wdb w2 = (wdb w1)\<lparr>users := users (wdb w1) @ vs\<rparr>"
      using flush_tallied [of ps t w1 dbnow] by (auto simp: tallied_def) (metis prod.collapse)
    with False s c have "import_file limit dbnow uids contents read_fails w = (Inr (if n_failed t2 > 0 then 1 else 0, t2), w2)"
      by (simp add: import_file_def bindM_def retM_def)
    with False s t(2,3) t(1) [unfolded n] f(2-4) db show ?thesis
      by (intro exI [of _ "if n_failed t2 > 0 then 1 else 0"] exI [of _ t2] exI [of _ w2] exI [of _ "us @ vs"] exI [of _ ls]
          exI [of _ too_long] exI [of _ 0]) (auto simp: importChunkSize_def)
  qed
qed

subsection \<open>Exported accounts are read back\<close>

lemma multi_width_high:
  assumes "multi_width s = k" and "k \<noteq> 0" and "c \<in> set (take k s)"
  shows "0x80 \<le> ord c"
proof -
  obtain a u where s: "s = a # u" using assms by (cases s) auto
  from assms show ?thesis unfolding s
    by (auto simp: Let_def cont_def second_ok_def split: if_splits list.splits)
qed

lemma runes_high: "Multi m \<in> set (runes s) \<Longrightarrow> c \<in> set m \<Longrightarrow> 0x80 \<le> ord c"
proof (induction s rule: runes.induct)
  case (2 a s)
  let ?k = "multi_width (a # s)"
  show ?case
  proof (cases "ord a < 0x80 \<or> ?k = 0")
    case True
    then have "Multi m \<in> set (runes s)" using "2.prems"(1) by (auto simp: Let_def simp del: multi_width.simps split: if_splits)
    with 2 True show ?thesis by blast
  next
    case False
    then have "Multi m = Multi (take ?k (a # s)) \<or> Multi m \<in> set (runes (drop (?k - 1) s))"
      using "2.prems"(1) by (auto simp: Let_def simp del: multi_width.simps)
    with 2 False multi_width_high [OF refl] show ?thesis by (auto simp del: multi_width.simps take_Suc_Cons)
  qed
qed simp

definition one_line :: "string \<Rightarrow> bool" where
  "one_line s \<longleftrightarrow> CHR 0x0A \<notin> set s"

lemma hex_digit_line: "n < 16 \<Longrightarrow> hex_digit n \<noteq> CHR 0x0A"
  using hex_value_digit [of n] by (auto simp: hex_value_def)

lemma escape_one_line: "wf_rune x \<Longrightarrow> (\<And>m c. x = Multi m \<Longrightarrow> c \<in> set m \<Longrightarrow> 0x80 \<le> ord c) \<Longrightarrow> CHR 0x0A \<notin> set (escape_rune x)"
proof (cases x)
  case (Ascii c)
  assume "wf_rune x"
  with Ascii have "ord c < 0x80" by (simp add: wf_rune_def)
  then have "ord c div 16 < 16" "ord c mod 16 < 16" by auto
  note hex_digit_line [OF this(1)] hex_digit_line [OF this(2)]
  then show ?thesis unfolding Ascii by (auto simp: escape_ascii_def backslash_def dquote_def)
next
  case (Multi m)
  assume "\<And>m c. x = Multi m \<Longrightarrow> c \<in> set m \<Longrightarrow> 0x80 \<le> ord c"
  from this [OF Multi] have "CHR 0x0A \<notin> set m" by fastforce
  with Multi show ?thesis by (auto simp: backslash_def)
qed (simp add: backslash_def)

lemma quote_one_line: "one_line (quote_json s)"
proof -
  have "CHR 0x0A \<notin> set (escape_rune x)" if "x \<in> set (runes s)" for x
    using that wf_runes [of s] runes_high [of _ s] by (intro escape_one_line) (auto simp: list_all_iff)
  then show ?thesis by (auto simp: one_line_def quote_json_def dquote_def)
qed

lemma multi_width_snoc: "ord c < 0x80 \<Longrightarrow> multi_width (s @ [c]) = multi_width s"
  by (cases s) (auto simp: Let_def cont_def second_ok_def split: list.splits)

lemma runes_snoc: "ord c < 0x80 \<Longrightarrow> runes (s @ [c]) = runes s @ [Ascii c]"
proof (induction s rule: runes.induct)
  case (2 a s)
  let ?k = "multi_width (a # s)"
  have w: "multi_width (a # s @ [c]) = ?k" using multi_width_snoc [OF "2.prems", of "a # s"] by simp
  show ?case
  proof (cases "ord a < 0x80 \<or> ?k = 0")
    case True
    with 2 w show ?thesis by (auto simp: Let_def simp del: multi_width.simps)
  next
    case False
    then have "?k \<le> length (a # s)" "2 \<le> ?k" using multi_width_take [OF refl, of "a # s"] by simp_all
    then have "drop (?k - 1) (s @ [c]) = drop (?k - 1) s @ [c]" "take ?k (a # s @ [c]) = take ?k (a # s)"
      by (auto simp: take_Cons' simp del: multi_width.simps)
    with 2 False w show ?thesis by (simp add: Let_def del: multi_width.simps)
  qed
qed simp

lemma rune_bytes_runes: "concat (map rune_bytes (runes s)) = s"
proof (induction s rule: runes.induct)
  case (2 a s)
  let ?k = "multi_width (a # s)"
  have "take ?k (a # s) @ drop (?k - 1) s = a # s" if "?k \<noteq> 0"
    using that by (cases "?k") (simp_all del: multi_width.simps)
  with 2 show ?case by (simp add: Let_def del: multi_width.simps)
qed simp

lemma trim_braces: "trim_line (CHR ''{'' # s @ ''}'') = CHR ''{'' # s @ ''}''"
proof -
  have "runes (CHR ''{'' # s @ ''}'') = Ascii CHR ''{'' # runes s @ [Ascii CHR ''}'']" by (simp add: runes_snoc)
  moreover have "\<not> space_rune (Ascii CHR ''{'')" "\<not> space_rune (Ascii CHR ''}'')" by (simp_all add: is_space_def)
  ultimately show ?thesis by (simp add: trim_line_def rune_bytes_runes)
qed

text \<open>An account as an export has it, and the text of an export.\<close>

definition account_json :: "auth0Record \<Rightarrow> jvalue" where
  "account_json r =
     VObj [(''email'', VStr (a0_Email r)), (''email_verified'', VBool (a0_EmailVerified r)), (''passwordHash'', VStr (a0_PasswordHash r)),
       (''password_hash'', VStr (a0_PasswordHash2 r)), (''name'', case a0_Name r of None \<Rightarrow> VNull | Some n \<Rightarrow> VStr n)]"

definition export :: "auth0Record list \<Rightarrow> string" where
  "export rs = concat (map (\<lambda>r. Encode_json (account_json r)) rs)"

definition valid_account :: "auth0Record \<Rightarrow> bool" where
  "valid_account r \<longleftrightarrow> valid_utf8 (a0_Email r) \<and> valid_utf8 (a0_PasswordHash r) \<and> valid_utf8 (a0_PasswordHash2 r) \<and>
     (case a0_Name r of None \<Rightarrow> True | Some n \<Rightarrow> valid_utf8 n)"

lemma account_text:
  "\<exists>s. Marshal (account_json r) = CHR ''{'' # s @ ''}''" "one_line (Marshal (account_json r))"
proof -
  have "CHR 0x0A \<notin> set (quote_json x)" for x using quote_one_line by (simp add: one_line_def)
  then show "one_line (Marshal (account_json r))"
    by (auto simp: one_line_def account_json_def split: option.splits)
  show "\<exists>s. Marshal (account_json r) = CHR ''{'' # s @ ''}''" by (simp add: account_json_def)
qed

lemma field_values:
  "field_of ''email'' = Some FEmail" "field_of ''email_verified'' = Some FEmailVerified" "field_of ''passwordHash'' = Some FPasswordHash"
  "field_of ''password_hash'' = Some FPasswordHash2" "field_of ''name'' = Some FName"
  by (simp_all add: field_of_def field_names_def)

lemma decode_account:
  assumes "valid_account r"
  shows "decode_record (Marshal (account_json r)) = Some r"
proof -
  have names: "valid_utf8 ''email''" "valid_utf8 ''email_verified''" "valid_utf8 ''passwordHash''" "valid_utf8 ''password_hash''" "valid_utf8 ''name''"
    by (simp_all add: ascii_valid)
  have "plain_numbers (account_json r)" "depth (account_json r) \<le> maxNestingDepth" "valid_strings (account_json r)"
    using assms names by (auto simp: account_json_def valid_account_def maxNestingDepth_def split: option.splits)
  then have "Unmarshal (Marshal (account_json r)) = Some (account_json r)"
    using Unmarshal_of_Marshal [of "account_json r" "[]"] by (simp add: sanitize_valid)
  then show ?thesis
    by (simp add: decode_record_def) (simp add: account_json_def field_values empty_record_def split: option.splits)
qed

lemma cut_line_encoded: "one_line l \<Longrightarrow> cut_line (l @ CHR 0x0A # s) = (l, Some s)"
  by (induction l) (auto simp: one_line_def)

lemma scan_export:
  assumes "\<forall>r \<in> set rs. length (Marshal (account_json r)) < limit" and "0 < limit"
  shows "scan_lines limit (export rs) = (map (\<lambda>r. Marshal (account_json r)) rs, False)"
  using assms(1)
proof (induction rs)
  case Nil
  with assms(2) show ?case by (simp add: export_def scan_lines.simps)
next
  case (Cons r rs)
  let ?l = "Marshal (account_json r)"
  have "cut_line (export (r # rs)) = (?l, Some (export rs))"
    using cut_line_encoded [OF account_text(2)] by (simp add: export_def Encode_json_def)
  moreover obtain t where "?l = CHR ''{'' # t @ ''}''" using account_text(1) by blast
  then have "dropCR ?l = ?l" by (simp add: dropCR_def)
  ultimately show ?case using Cons by (subst scan_lines.simps) simp
qed

text \<open>An export of accounts imports exactly those accounts, and nothing on its lines is lost or failed.\<close>

lemma export_reads_back:
  assumes "\<forall>r \<in> set rs. valid_account r \<and> length (Marshal (account_json r)) < limit" and "0 < limit"
  shows "import_file limit dbnow uids (export rs) False =
    runImport dbnow (map2 (\<lambda>r (u, v). Record u v r) rs (map uids [0..<length rs]))"
proof -
  have "read_line (Marshal (account_json r)) uv = (case uv of (u, v) \<Rightarrow> Record u v r)" if "r \<in> set rs" for r uv
  proof -
    obtain t where "Marshal (account_json r) = CHR ''{'' # t @ ''}''" using account_text(1) by blast
    with trim_braces [of t] decode_account [of r] that assms(1) show ?thesis by (simp add: read_line_def case_prod_beta)
  qed
  then have "map2 read_line (map (\<lambda>r. Marshal (account_json r)) rs) us = map2 (\<lambda>r (u, v). Record u v r) rs us" for us
    by (auto simp: zip_map1 dest: set_zip_leftD)
  with import_file_clean [OF scan_export, of rs limit] assms show ?thesis by simp
qed

end
