(* ===== verification/Commands.thy ===== *)
theory Commands
  imports Boot Openapi Import_File
begin

text \<open>
  The command line (\<open>cmd/sesamo/main.go\<close>, \<open>admin.go\<close>, \<open>describe.go\<close>): which command the arguments
  select, its exit code and what it prints. \<open>serve\<close> and the import run against the outside world;
  they are the arguments \<open>serve\<close> and \<open>import\<close>. Usage lines and log lines are left out. Shown: every
  command line that selects nothing exits with 2; where the server starts, \<open>describe\<close> prints the
  document it serves, in any environment; in production it still needs a connection string.
\<close>

subsection \<open>Describing\<close>

text \<open>\<open>json.MarshalIndent\<close> with no prefix and two spaces per level.\<close>

definition fresh_line :: "nat \<Rightarrow> string" where
  "fresh_line n = CHR 0x0A # replicate (2 * n) CHR '' ''"

fun indented :: "nat \<Rightarrow> jvalue \<Rightarrow> string" where
  "indented n (VArr vs) =
     (if vs = [] then ''[]''
      else CHR ''['' # Join CHR '','' (map (\<lambda>v. fresh_line (Suc n) @ indented (Suc n) v) vs) @ fresh_line n @ '']'')"
| "indented n (VObj kvs) =
     (if kvs = [] then ''{}''
      else CHR ''{'' # Join CHR '','' (map (\<lambda>(k, v). fresh_line (Suc n) @ quote_json k @ '': '' @ indented (Suc n) v) kvs) @ fresh_line n @ ''}'')"
| "indented n v = Marshal v"

definition MarshalIndent :: "jvalue \<Rightarrow> string" where
  "MarshalIndent v = indented 0 v"

text \<open>The exit code and the document printed, if any.\<close>

definition runDescribe :: "url_parser \<Rightarrow> bool \<times> bool \<Rightarrow> environ \<Rightarrow> idp_lib \<Rightarrow> (registry \<Rightarrow> string list) \<Rightarrow> string
    \<Rightarrow> string list \<Rightarrow> nat \<times> string" where
  "runDescribe Parse brand_order env lib order version args =
     (if list_ex (\<lambda>a. a \<noteq> ''--json'') args then (2, [])
      else case load Parse brand_order env False of
        Inl e \<Rightarrow> (1, [])
      | Inr c \<Rightarrow> (case DescribeJSON lib order version c of
          Inl e \<Rightarrow> (1, [])
        | Inr doc \<Rightarrow> (0, MarshalIndent (descriptor_json doc) @ [CHR 0x0A])))"

subsection \<open>The command line\<close>

definition runAdmin :: "(string list \<Rightarrow> nat) \<Rightarrow> string list \<Rightarrow> nat" where
  "runAdmin import args =
     (case args of
        [] \<Rightarrow> 2
      | sub # rest \<Rightarrow> if sub = ''import'' then import rest else 2)"

text \<open>\<open>runImport\<close> up to the file: \<open>opened\<close> is the content of a path and whether reading it fails at the end.\<close>

definition run_import_command :: "url_parser \<Rightarrow> bool \<times> bool \<Rightarrow> environ \<Rightarrow> (string \<Rightarrow> bool) \<Rightarrow> (string \<Rightarrow> (string \<times> bool) option)
    \<Rightarrow> gotime \<Rightarrow> (nat \<Rightarrow> string \<times> string) \<Rightarrow> string list \<Rightarrow> nat dbm" where
  "run_import_command Parse brand_order env connect opened dbnow uids args =
     (case args of
        [] \<Rightarrow> retM 2
      | path # _ \<Rightarrow> (case load Parse brand_order env True of
          Inl e \<Rightarrow> retM 1
        | Inr c \<Rightarrow>
            if \<not> connect (DatabaseURL c) then retM 1
            else case opened path of
              None \<Rightarrow> retM 1
            | Some (contents, read_fails) \<Rightarrow>
                bindM (import_file maxTokenSize dbnow uids contents read_fails) (\<lambda>(exit_code, t). retM exit_code)))"

definition main :: "nat \<Rightarrow> nat \<Rightarrow> (string list \<Rightarrow> nat) \<Rightarrow> (string list \<Rightarrow> nat \<times> string) \<Rightarrow> string \<Rightarrow> string list \<Rightarrow> nat \<times> string" where
  "main migrate serve import describe version argv =
     (case argv of
        program # cmd # args \<Rightarrow>
          if cmd = ''migrate'' then (migrate, [])
          else if cmd = ''serve'' then (serve, [])
          else if cmd = ''admin'' then (runAdmin import args, [])
          else if cmd = ''describe'' then describe args
          else if cmd = ''version'' then (0, version @ [CHR 0x0A])
          else (2, [])
      | _ \<Rightarrow> (2, []))"

subsection \<open>Describing and serving\<close>

text \<open>Not requiring a database only lets more environments pass.\<close>

lemma load_without_database:
  assumes "load Parse brand_order env True = Inr c"
  shows "load Parse brand_order env False = Inr c"
  using assms unfolding load_def Let_def
  by (auto simp: check_config_def split: if_splits sum.splits option.splits prod.splits)

text \<open>
  Where \<open>serve\<close> comes up, \<open>describe\<close> exits with 0 in the same environment and prints the descriptor
  of that server: the value of which \<open>/.well-known/sesamo\<close> serves the compact text.
\<close>

lemma describe_agrees_with_serve:
  assumes "runServe Parse brand_order env connect migrated lib order boot_key base = Serving s reg"
    and "set args \<subseteq> {''--json''}"
  shows "\<exists>doc. runDescribe Parse brand_order env lib order version args = (0, MarshalIndent (descriptor_json doc) @ [CHR 0x0A]) \<and>
    discovery_docs other version (cfg s) (order reg) ''descriptor'' = Encode_json (descriptor_json doc)"
proof -
  obtain c where c: "load Parse brand_order env True = Inr c" "cfg s = c" "buildProviders lib c = Inr reg"
    by (rule runServe_Serving [OF assms(1)])
  have "\<not> list_ex (\<lambda>a. a \<noteq> ''--json'') args" using assms(2) by (auto simp: list_ex_iff)
  then show ?thesis using load_without_database [OF c(1)] c(2,3)
    by (intro exI [of _ "buildDescriptor version c (order reg)"])
      (simp add: runDescribe_def DescribeJSON_def discovery_docs_def)
qed

text \<open>
  In production \<open>describe\<close> does need a connection string: without one, it only comes up where
  \<open>PGSSLMODE\<close> names a mode that production accepts.
\<close>

lemma describe_needs_a_dsn_in_production:
  assumes "load Parse brand_order env False = Inr c" and "Env c = EnvProduction" and "DatabaseURL c = []"
  shows "TrimSpace (env ''PGSSLMODE'') \<in> set productionSSLModes"
proof -
  have "dsnSSLMode Parse env [] \<in> set productionSSLModes"
    using production_config_is_safe [OF assms(1,2)] assms(3) by simp
  then show ?thesis by (simp add: dsnSSLMode_def HasPrefix_def sslmode_pairs_def Fields_def Let_def)
qed

lemma unknown_command_exits_2:
  assumes "argv = [] \<or> (\<exists>p. argv = [p]) \<or> (\<exists>p cmd args. argv = p # cmd # args \<and> cmd \<notin> {''migrate'', ''serve'', ''admin'', ''describe'', ''version''})"
  shows "main migrate serve import describe version argv = (2, [])"
  using assms by (auto simp: main_def)

end
