(* ===== verification/Spec2Isabelle.thy ===== *)
theory Spec2Isabelle
  imports Service_Invariants Maintenance Enumeration Oauth_Safety Shutdown Middleware Commands
begin

text \<open>
  A verification of Sesamo, an authentication server in Go: opaque sessions in Postgres, passwords,
  one-time links, OAuth logins, a mail queue, and an introspection and administration API.

  \<^bold>\<open>The program.\<close> Handlers (\<open>src/internal/http\<close>) compose the operations of stores over one Postgres
  database: sessions (\<open>internal/session\<close>), accounts and identities (\<open>internal/user\<close>), one-time
  tokens and the mail queue (\<open>internal/email\<close>), rate-limit buckets (\<open>internal/ratelimit\<close>) and the
  audit log (\<open>internal/audit\<close>). A worker drains the mail queue under leases; delivery events come
  back through a signed webhook; a maintenance loop purges what can no longer matter. Identity
  providers (\<open>internal/oauth\<close>) vouch for OAuth logins. The process starts by reading its
  configuration (\<open>internal/config\<close>), migrating the schema (\<open>internal/db\<close>) and building the server.

  \<^bold>\<open>How it is modelled.\<close> A computation that talks to Postgres is a function from a \<open>world\<close> (the
  database, the schedule of failures still to come, the counters incremented) to a result or an
  error and the next world. Every statement, \<open>Begin\<close> and \<open>Commit\<close> consumes one entry of the failure
  schedule, so a theorem about every world covers every pattern of failures. Tables are lists of
  records; instants are nanoseconds; durations wrap or saturate at 64 bits where Go's do; text is
  a list of bytes. Random draws and clock readings are arguments, one per call. Third-party
  functions (SHA-256, HMAC, Argon2id, bcrypt, AES-GCM, RSA, ECDSA, \<open>url.Parse\<close>) are arguments; what
  is assumed of one is a hypothesis of the theorem that needs it. The loops of the model are
  structural recursions or folds; only the JSON parser has fuel, twice the length of the text and
  one, and is shown to give the same with any more (\<open>Unmarshal_fuel\<close>). The endless loops of the
  program (worker, maintenance, server) are step relations.

  \<^bold>\<open>The theories\<close>, in order of import.
  \<^item> \<open>Sesamo_Prelude\<close>: instants, durations, SQL statement forms, preserved invariants.
  \<^item> \<open>Schema\<close>: the tables of \<open>migrations/\<close> with their constraints (\<open>db_ok\<close>).
  \<^item> \<open>Database\<close>: the world, transactions and failures.
  \<^item> \<open>Session\<close> (\<open>session.go\<close>): who is accepted, the absolute cap on the age of a session, that a
    revoked token stays dead.
  \<^item> \<open>One_Time_Tokens\<close> (\<open>email/token.go\<close>): links are single-use, and the newest supersedes the rest.
  \<^item> \<open>Rate_Limit\<close> (\<open>ratelimit.go\<close>): the token bucket over any schedule of calls and failures; levels are
    exact rationals where the code has \<open>float64\<close>.
  \<^item> \<open>Users\<close> (\<open>internal/user\<close>, \<open>cmd/sesamo/import.go\<close>): accounts, OAuth resolution, bulk import.
  \<^item> \<open>Go_Strings\<close>, \<open>Crypto\<close>, \<open>Keyring\<close>: strings, base64, tokens, password hashes, the outbox keyring and
    its rotation.
  \<^item> \<open>Audit_Log\<close> (\<open>audit.go\<close> and \<open>auditedTx\<close>): strict mode is atomic, best-effort mode refines the bare
    action.
  \<^item> \<open>Outbox\<close>, \<open>Outbox_Safety\<close> (\<open>email/outbox.go\<close>): enqueueing, claiming under a lease, finalizing and
    provider events, as operations and as a step relation with its invariants.
  \<^item> \<open>Mail_Worker\<close>, \<open>Senders\<close> (\<open>email/worker.go\<close>, \<open>email/email.go\<close>): one worker cycle, backoff, the
    adapters; that every retry repeats the request of the queued mail.
  \<^item> \<open>Fleet\<close> (\<open>Worker.Run\<close>): any number of replicas polling, sending, recording, being canceled or dying,
    with the passage of time bounded by the timeouts of the code; no mail is in two hands.
  \<^item> \<open>Shutdown\<close> (\<open>serve.go\<close>): the main goroutine beside its worker, from the signal to the exit; what
    the queue shows of the answers in hand when it ends, and how one can be lost.
  \<^item> \<open>Webhook\<close> (\<open>email/webhook.go\<close>, \<open>http/webhook.go\<close>): exactly the signed and recent bodies verify.
  \<^item> \<open>Metrics\<close> (\<open>metrics.go\<close>): the page a scraper reads is the rendering of what was reported.
  \<^item> \<open>Config\<close> (\<open>config.go\<close>): reading and validating the environment.
  \<^item> \<open>Http_Guards\<close>: cookies, CSRF, redirects, bearer keys, rate-limit helpers (\<open>cookies.go\<close>, \<open>errors.go\<close>,
    \<open>ratelimit.go\<close>, parts of \<open>server.go\<close> and \<open>enduser.go\<close>).
  \<^item> \<open>Handlers\<close>, \<open>Handler_Safety\<close> (\<open>enduser.go\<close>, \<open>service.go\<close>, \<open>admin.go\<close>): one definition per handler; resets,
    magic links and the kill switch are all-or-nothing, a password login needs its credentials.
  \<^item> \<open>Enumeration\<close>: two runs that differ only in which accounts exist answer alike.
  \<^item> \<open>Oauth\<close>, \<open>Oauth_Safety\<close> (\<open>internal/oauth\<close>, \<open>buildProviders\<close>): the key cache, id tokens and the three
    providers; the callback writes nothing that its provider does not vouch for. Parameters
    written into an authorization URL are read back unchanged (\<open>authorize_url_carries_login\<close>).
  \<^item> \<open>Server\<close>, \<open>Server_Safety\<close> (\<open>server.go\<close>, \<open>ui.go\<close>, \<open>serve.go\<close>): routing, middleware, one maintenance pass;
    every request is answered, and guarded surfaces need their key.
  \<^item> \<open>Middleware\<close> (\<open>server.go\<close>): recovery, access log and status recorder around any handler, on the level
    of the \<open>ResponseWriter\<close> and of the rules of \<open>net/http\<close> for it (informational, invalid and bodyless
    statuses); the log and the metrics report the final status that goes over the wire.
  \<^item> \<open>Service_Invariants\<close>, \<open>Maintenance\<close>: the invariants of all stores over any sequence of requests,
    worker cycles and maintenance passes; that a pass is invisible to the service.
  \<^item> \<open>Json\<close>: \<open>encoding/json\<close> as the program uses it; what \<open>Marshal\<close> writes, \<open>Unmarshal\<close> reads.
  \<^item> \<open>Import_File\<close> (\<open>cmd/sesamo/import.go\<close>): scanning and decoding the export, on both exits of the command;
    the scanner limit of 8 MiB is an argument. Exported accounts are read back as they were.
  \<^item> \<open>Descriptor\<close>, \<open>Openapi\<close> (\<open>descriptor.go\<close>): the descriptor, the OpenAPI contract and the briefing; the
    documents parse, hold no secret and agree with the routing tables but for the stylesheets and, in
    the descriptor, \<open>GET /verify\<close>.
  \<^item> \<open>Migrations\<close> (\<open>db.go\<close>): any number of instances migrating at once.
  \<^item> \<open>Boot\<close> (\<open>NewServer\<close>, \<open>main.go\<close>): what a process that serves in production has passed.
  \<^item> \<open>Commands\<close> (\<open>main.go\<close>, \<open>admin.go\<close>, \<open>describe.go\<close>): the command line; \<open>describe\<close> prints what \<open>serve\<close> serves.

  \<^bold>\<open>Interfaces.\<close> The contracts between components are locales, each interpreted on the model:
  \<open>preserved\<close> (a step relation and what it keeps), \<open>store_invariant\<close> (what a property of the database
  needs of every store operation to hold for the whole service, interpreted for the schema, the
  session cap, the links and the mail jobs), \<open>alphabet\<close> (base64), \<open>aead\<close> (sealing), \<open>provider_contract\<close>
  (what the login callback relies on, interpreted for every provider) and \<open>accumulator\<close> (the
  three maps of the metrics registry), among others.

  \<^bold>\<open>Not modelled, and why.\<close> Executing HTML templates (a page is the value handed to one; the
  answers of the handlers are JSON values of their own, whose text \<open>Json\<close> would give); timing, so
  the constant-time comparison is only its result; log lines, but for the status in the access log;
  the syntax of the OpenAPI literal (it is the JSON value it denotes); opening the connection pool and the
  listener, and the delivery of signals; the transport timeouts of the outbound HTTP client; the
  locking inside the metrics registry and the key cache, whose critical sections are single steps;
  \<open>float64\<close> rounding in the rate limiter and the metrics; writes that fail because the client is gone.
  In the handlers a panic is modelled where the code can raise one (the exchange with an
  identity provider), with the answer of the recovery, which \<open>Middleware\<close> shows for any panic.
  A \<open>Commit\<close> that reports an error is taken not to have committed.
\<close>

end
